theory Spec2Isabelle
  imports Main "HOL-Library.AList"
begin

section \<open>JavaScript notions the build script relies on\<close>

text \<open>
  The repository holds two versions of one Node.js build script: \<^verbatim>\<open>build.mjs\<close> and an
  extended one (recursive search for metadata, modification kits). Both are ES modules, so
  they run in strict mode. Strings are modelled as \<^typ>\<open>string\<close>, a list of code units below
  256; numbers that count entries are \<^typ>\<open>nat\<close> (a JavaScript number is exact up to
  \<open>2 ^ 53\<close>, far beyond the number of properties an object can hold).
\<close>

subsection \<open>Numbers in template literals\<close>

definition digit :: "nat \<Rightarrow> char" where
  "digit d = char_of (48 + d)"

text \<open>The decimal rendering of a non-negative integer, as \<^verbatim>\<open>`${n}`\<close> gives it.\<close>

function number_to_string :: "nat \<Rightarrow> string" where
  "number_to_string n =
     (if n < 10 then [digit n] else number_to_string (n div 10) @ [digit (n mod 10)])"
  by pat_completeness auto
termination
  by (relation "measure (\<lambda>n. n)") auto

declare number_to_string.simps [simp del]

definition is_digit :: "char \<Rightarrow> bool" where
  "is_digit c = (48 \<le> (of_char c :: nat) \<and> (of_char c :: nat) \<le> 57)"

subsection \<open>Plain objects used as dictionaries\<close>

text \<open>
  An object literal \<^verbatim>\<open>{}\<close> inherits from \<^verbatim>\<open>Object.prototype\<close>. A read \<^verbatim>\<open>obj[key]\<close>
  finds an own property first and an inherited member otherwise; only a key that is
  neither yields \<^verbatim>\<open>undefined\<close>. Own properties are kept as an association list in
  insertion order, the order \<^verbatim>\<open>Object.entries\<close> gives for keys that are not array indices.
\<close>

datatype builtin = NativeFunction string | ObjectPrototype

datatype 'a slot = Own 'a | Inherited builtin | Absent

definition object_prototype_methods :: "string list" where
  "object_prototype_methods =
     [''constructor'', ''__defineGetter__'', ''__defineSetter__'', ''hasOwnProperty'',
      ''__lookupGetter__'', ''__lookupSetter__'', ''isPrototypeOf'', ''propertyIsEnumerable'',
      ''toString'', ''valueOf'', ''toLocaleString'']"

definition inherited_keys :: "string list" where
  "inherited_keys = ''__proto__'' # object_prototype_methods"

text \<open>\<^verbatim>\<open>Object.prototype.constructor\<close> is the function \<^verbatim>\<open>Object\<close>; every other method is
  named after its key.\<close>

definition inherited_member :: "string \<Rightarrow> builtin option" where
  "inherited_member k =
     (if k = ''__proto__'' then Some ObjectPrototype
      else if k = ''constructor'' then Some (NativeFunction ''Object'')
      else if k \<in> set object_prototype_methods then Some (NativeFunction k)
      else None)"

definition plain_get :: "(string \<times> 'a) list \<Rightarrow> string \<Rightarrow> 'a slot" where
  "plain_get obj k =
     (case map_of obj k of
        Some v \<Rightarrow> Own v
      | None \<Rightarrow> (case inherited_member k of Some b \<Rightarrow> Inherited b | None \<Rightarrow> Absent))"

text \<open>
  An assignment \<^verbatim>\<open>obj[key] = v\<close> of a primitive \<open>v\<close> creates or overwrites an own property,
  except for the key \<^verbatim>\<open>__proto__\<close>: that one is an accessor of \<^verbatim>\<open>Object.prototype\<close> whose
  setter ignores a primitive.
\<close>

definition plain_set :: "(string \<times> 'a) list \<Rightarrow> string \<Rightarrow> 'a \<Rightarrow> (string \<times> 'a) list" where
  "plain_set obj k v = (if k = ''__proto__'' then obj else AList.update k v obj)"

text \<open>What a built-in object turns into inside a template literal.\<close>

fun builtin_to_string :: "builtin \<Rightarrow> string" where
  "builtin_to_string (NativeFunction name) = ''function '' @ name @ ''() { [native code] }''"
| "builtin_to_string ObjectPrototype = ''[object Object]''"

section \<open>Code Generator\<close>

text \<open>
  \<^verbatim>\<open>
  function autoIncrementSpawnCodes(vehicleEntries) {
    const counters = {};
    const spawnCodes = {};
    for (const [vehicle, { code }] of Object.entries(vehicleEntries)) {
      const base = code.replace(/#$/, "");
      if (!counters[base]) counters[base] = 1;
      spawnCodes[vehicle] = `${base}${counters[base]}`;
      counters[base]++;
    }
    return spawnCodes;
  }
  \<close>
  The function is the same text in both files. Its argument is modelled by the list
  \<^verbatim>\<open>Object.entries(vehicleEntries)\<close> of a manifest of the documented shape: every entry has a
  string \<open>code\<close> and a string \<open>data\<close>.
\<close>

record vehicle_entry =
  code :: string
  data :: string

text \<open>\<^verbatim>\<open>code.replace(/#$/, "")\<close>: the pattern matches one \<^verbatim>\<open>#\<close> at the very end.\<close>

definition strip_marker :: "string \<Rightarrow> string" where
  "strip_marker c = (if c \<noteq> [] \<and> last c = CHR ''#'' then butlast c else c)"

datatype counter = Num nat | NaN

definition falsy_counter :: "counter slot \<Rightarrow> bool" where
  "falsy_counter s =
     (case s of Own (Num n) \<Rightarrow> n = 0 | Own NaN \<Rightarrow> True | Inherited b \<Rightarrow> False | Absent \<Rightarrow> True)"

definition counter_to_string :: "counter slot \<Rightarrow> string" where
  "counter_to_string s =
     (case s of
        Own (Num n) \<Rightarrow> number_to_string n
      | Own NaN \<Rightarrow> ''NaN''
      | Inherited b \<Rightarrow> builtin_to_string b
      | Absent \<Rightarrow> ''undefined'')"

text \<open>\<^verbatim>\<open>counters[base]++\<close>: a number is incremented; anything else converts to \<^verbatim>\<open>NaN\<close>, which
  is stored as an own property (the \<^verbatim>\<open>__proto__\<close> setter drops it).\<close>

definition increment :: "(string \<times> counter) list \<Rightarrow> string \<Rightarrow> (string \<times> counter) list" where
  "increment counters base =
     (case plain_get counters base of
        Own (Num n) \<Rightarrow> plain_set counters base (Num (Suc n))
      | Own NaN \<Rightarrow> plain_set counters base NaN
      | Inherited b \<Rightarrow> plain_set counters base NaN
      | Absent \<Rightarrow> plain_set counters base NaN)"

fun spawn_loop ::
  "(string \<times> counter) list \<Rightarrow> (string \<times> string) list \<Rightarrow> (string \<times> vehicle_entry) list
     \<Rightarrow> (string \<times> string) list" where
  "spawn_loop counters spawnCodes [] = spawnCodes"
| "spawn_loop counters spawnCodes ((vehicle, entry) # rest) =
     (let base = strip_marker (code entry);
          counters1 = (if falsy_counter (plain_get counters base)
                       then plain_set counters base (Num 1) else counters);
          spawnCodes1 = plain_set spawnCodes vehicle
                          (base @ counter_to_string (plain_get counters1 base))
      in spawn_loop (increment counters1 base) spawnCodes1 rest)"

definition autoIncrementSpawnCodes ::
  "(string \<times> vehicle_entry) list \<Rightarrow> (string \<times> string) list" where
  "autoIncrementSpawnCodes vehicleEntries = spawn_loop [] [] vehicleEntries"

text \<open>The rule the specification states, written down directly: the entries in order, each
  with its base key followed by the next number of that key.\<close>

fun numbered :: "(string \<Rightarrow> nat) \<Rightarrow> (string \<times> vehicle_entry) list \<Rightarrow> (string \<times> string) list" where
  "numbered nxt [] = []"
| "numbered nxt ((vehicle, entry) # rest) =
     (let base = strip_marker (code entry)
      in (vehicle, base @ number_to_string (nxt base))
           # numbered (nxt(base := Suc (nxt base))) rest)"

definition bases :: "(string \<times> vehicle_entry) list \<Rightarrow> string list" where
  "bases vehicleEntries = map (\<lambda>(vehicle, entry). strip_marker (code entry)) vehicleEntries"

text \<open>A manifest on which no lookup meets an inherited member of \<^verbatim>\<open>Object.prototype\<close>.\<close>

definition shadow_free :: "(string \<times> vehicle_entry) list \<Rightarrow> bool" where
  "shadow_free vehicleEntries =
     (list_all (\<lambda>b. b \<notin> set inherited_keys) (bases vehicleEntries)
      \<and> ''__proto__'' \<notin> set (map fst vehicleEntries))"

text \<open>The codes of the entries whose base key is \<open>b\<close>, in manifest order.\<close>

definition codes_of_group :: "string \<Rightarrow> (string \<times> vehicle_entry) list \<Rightarrow> string list" where
  "codes_of_group b vehicleEntries =
     map (snd \<circ> snd)
       (filter (\<lambda>(b', kv). b' = b) (zip (bases vehicleEntries) (autoIncrementSpawnCodes vehicleEntries)))"

definition ends_in_digit :: "string \<Rightarrow> bool" where
  "ends_in_digit b = (b \<noteq> [] \<and> is_digit (last b))"

text \<open>Bookkeeping for the proofs: the number the loop will hand out next for a base key,
  the invariant of the counter table, the stores of a list of pairs, and the pair
  (base key, number) each entry receives.\<close>

definition next_number :: "(string \<times> counter) list \<Rightarrow> string \<Rightarrow> nat" where
  "next_number counters b = (case map_of counters b of Some (Num n) \<Rightarrow> n | _ \<Rightarrow> 1)"

definition counters_ok :: "(string \<times> counter) list \<Rightarrow> bool" where
  "counters_ok counters = list_all (\<lambda>(k, v). \<exists>n. v = Num (Suc n)) counters"

definition store_all ::
  "(string \<times> string) list \<Rightarrow> (string \<times> string) list \<Rightarrow> (string \<times> string) list" where
  "store_all spawnCodes kvs = foldl (\<lambda>acc (k, v). AList.update k v acc) spawnCodes kvs"

fun tickets :: "(string \<Rightarrow> nat) \<Rightarrow> (string \<times> vehicle_entry) list \<Rightarrow> (string \<times> nat) list" where
  "tickets nxt [] = []"
| "tickets nxt ((vehicle, entry) # rest) =
     (let base = strip_marker (code entry)
      in (base, nxt base) # tickets (nxt(base := Suc (nxt base))) rest)"

section \<open>File Renamer\<close>

text \<open>
  \<^verbatim>\<open>
  function renameVehicleFiles(streamFolder, spawnCodes) {
    for (const [vehicle, spawnCode] of Object.entries(spawnCodes)) {
      const patterns = [".yft", ".ytd", "_hi.yft", "+hi.ytd"];
      patterns.forEach((ext) => {
        const oldFileName = path.join(streamFolder, `${vehicle}${ext}`);
        const newFileName = path.join(streamFolder, `${spawnCode}${ext}`);
        if (fs.existsSync(oldFileName)) {
          fs.renameSync(oldFileName, newFileName);
          console.log(chalk.green(`Renamed ${oldFileName} to ${newFileName}`));
        } else {
          console.warn(chalk.yellow(`File not found: ${oldFileName}`));
        }
      });
    }
  }
  \<close>
  The same text in both files. The file system is a map from paths to file contents:
  regular files, named case-sensitively as on a POSIX system. Renaming onto an existing
  path replaces that file, and renaming a file onto itself changes nothing. Of the console
  output the model keeps the renames, the warnings, the errors and the completion message.
\<close>

datatype error = TypeError | IOError | BuildError

datatype event =
    Renamed string string
  | FileNotFound string
  | UlcNotFound string
  | MetaNotFound string
  | ErrorProcessingFile string error
  | YamlLoadFailed
  | InvalidChoice
  | Completed
  | TopLevelError error

type_synonym files = "string \<Rightarrow> string option"

text \<open>
  \<^verbatim>\<open>path.join\<close> (POSIX) joins its non-empty arguments with a separator and normalises the
  result: empty segments and \<^verbatim>\<open>.\<close> are dropped, \<^verbatim>\<open>..\<close> takes back the segment before it (or
  stays, in a relative path that has none left), a trailing separator is kept, and the
  empty result is \<^verbatim>\<open>.\<close>.
\<close>

fun split_path :: "string \<Rightarrow> string list" where
  "split_path [] = [[]]"
| "split_path (c # cs) =
     (if c = CHR ''/'' then [] # split_path cs
      else (case split_path cs of [] \<Rightarrow> [[c]] | seg # segs \<Rightarrow> (c # seg) # segs))"

fun normalizeString :: "bool \<Rightarrow> string list \<Rightarrow> string list \<Rightarrow> string list" where
  "normalizeString allowAboveRoot res [] = res"
| "normalizeString allowAboveRoot res (seg # segs) =
     (if seg = [] \<or> seg = ''.'' then normalizeString allowAboveRoot res segs
      else if seg = ''..'' then
        (if res \<noteq> [] \<and> last res \<noteq> ''..'' then normalizeString allowAboveRoot (butlast res) segs
         else if allowAboveRoot then normalizeString allowAboveRoot (res @ [''..'']) segs
         else normalizeString allowAboveRoot res segs)
      else normalizeString allowAboveRoot (res @ [seg]) segs)"

definition join_segments :: "string list \<Rightarrow> string" where
  "join_segments segs =
     (case segs of [] \<Rightarrow> [] | seg # rest \<Rightarrow> seg @ concat (map (\<lambda>s. CHR ''/'' # s) rest))"

definition normalize :: "string \<Rightarrow> string" where
  "normalize p =
     (if p = [] then ''.''
      else let isAbsolute = (hd p = CHR ''/'');
               trailingSeparator = (last p = CHR ''/'');
               res = join_segments (normalizeString (\<not> isAbsolute) [] (split_path p))
           in if res = [] then (if isAbsolute then ''/'' else if trailingSeparator then ''./'' else ''.'')
              else (if isAbsolute then ''/'' else []) @ res @ (if trailingSeparator then ''/'' else []))"

definition path_join :: "string \<Rightarrow> string \<Rightarrow> string" where
  "path_join folder name =
     normalize (if folder = [] then name else if name = [] then folder else folder @ ''/'' @ name)"

definition patterns :: "string list" where
  "patterns = [''.yft'', ''.ytd'', ''_hi.yft'', ''+hi.ytd'']"

definition renameSync :: "string \<Rightarrow> string \<Rightarrow> string \<Rightarrow> files \<Rightarrow> files" where
  "renameSync oldFileName newFileName content fs = (fs(oldFileName := None))(newFileName \<mapsto> content)"

definition rename_pattern ::
  "string \<Rightarrow> string \<Rightarrow> string \<Rightarrow> files \<times> event list \<Rightarrow> string \<Rightarrow> files \<times> event list" where
  "rename_pattern streamFolder vehicle spawnCode st ext =
     (let oldFileName = path_join streamFolder (vehicle @ ext);
          newFileName = path_join streamFolder (spawnCode @ ext)
      in case fst st oldFileName of
           Some content \<Rightarrow>
             (renameSync oldFileName newFileName content (fst st),
              snd st @ [Renamed oldFileName newFileName])
         | None \<Rightarrow> (fst st, snd st @ [FileNotFound oldFileName]))"

definition renameVehicleFiles ::
  "string \<Rightarrow> (string \<times> string) list \<Rightarrow> files \<times> event list \<Rightarrow> files \<times> event list" where
  "renameVehicleFiles streamFolder spawnCodes st =
     foldl (\<lambda>st1 (vehicle, spawnCode).
              foldl (rename_pattern streamFolder vehicle spawnCode) st1 patterns)
       st spawnCodes"

definition is_rename :: "event \<Rightarrow> bool" where
  "is_rename e = (case e of Renamed a b \<Rightarrow> True | _ \<Rightarrow> False)"

text \<open>The renames a run performs: the \<^verbatim>\<open>Renamed\<close> lines it adds to the log.\<close>

definition renames_of :: "event list \<Rightarrow> event list" where
  "renames_of log = filter is_rename log"

text \<open>The (old path, new path) pairs the two nested loops visit, in order.\<close>

definition rename_jobs :: "string \<Rightarrow> (string \<times> string) list \<Rightarrow> (string \<times> string) list" where
  "rename_jobs streamFolder spawnCodes =
     concat (map (\<lambda>(vehicle, spawnCode).
                    map (\<lambda>ext. (path_join streamFolder (vehicle @ ext),
                                 path_join streamFolder (spawnCode @ ext))) patterns)
               spawnCodes)"

definition rename_job :: "files \<times> event list \<Rightarrow> string \<times> string \<Rightarrow> files \<times> event list" where
  "rename_job st job =
     (case fst st (fst job) of
        Some content \<Rightarrow>
          (renameSync (fst job) (snd job) content (fst st), snd st @ [Renamed (fst job) (snd job)])
      | None \<Rightarrow> (fst st, snd st @ [FileNotFound (fst job)]))"

text \<open>No file name the renamer creates is a file name it looks for.\<close>

definition names_apart :: "string \<Rightarrow> (string \<times> string) list \<Rightarrow> bool" where
  "names_apart streamFolder spawnCodes =
     (set (map fst (rename_jobs streamFolder spawnCodes))
        \<inter> set (map snd (rename_jobs streamFolder spawnCodes)) = {})"

text \<open>
  An identifier or code that is a file name: it holds no path separator and no NUL. With
  such names every path the renamer builds lies directly in the stream folder, which is
  the case the map of files stands for (a name with separators can point into a folder
  that does not exist, where \<^verbatim>\<open>fs.renameSync\<close> raises).
\<close>

definition file_name :: "string \<Rightarrow> bool" where
  "file_name s = (CHR ''/'' \<notin> set s \<and> CHR 0x00 \<notin> set s)"

definition file_names :: "(string \<times> string) list \<Rightarrow> bool" where
  "file_names spawnCodes =
     list_all (\<lambda>(vehicle, spawnCode). file_name vehicle \<and> file_name spawnCode) spawnCodes"

section \<open>Text replacement\<close>

text \<open>
  \<^verbatim>\<open>String.prototype.replaceAll\<close> with a string pattern replaces every occurrence found
  scanning from the left, continuing after each match (an empty pattern matches before
  every code unit and at the end). The replacement string is a template: \<^verbatim>\<open>$$\<close> stands
  for a dollar sign, \<^verbatim>\<open>$&\<close> for the match, \<^verbatim>\<open>$`\<close> and \<^verbatim>\<open>$'\<close> for the text before and after
  it; with a string pattern there are no groups, so any other \<^verbatim>\<open>$\<close> stays as it is.
\<close>

fun getSubstitution :: "string \<Rightarrow> string \<Rightarrow> string \<Rightarrow> string \<Rightarrow> string" where
  "getSubstitution matched preceding following [] = []"
| "getSubstitution matched preceding following [c] = [c]"
| "getSubstitution matched preceding following (c # d # rest) =
     (if c = CHR ''$'' \<and> d = CHR ''$'' then CHR ''$'' # getSubstitution matched preceding following rest
      else if c = CHR ''$'' \<and> d = CHR ''&'' then matched @ getSubstitution matched preceding following rest
      else if c = CHR ''$'' \<and> d = CHR 0x60 then preceding @ getSubstitution matched preceding following rest
      else if c = CHR ''$'' \<and> d = CHR 0x27 then following @ getSubstitution matched preceding following rest
      else c # getSubstitution matched preceding following (d # rest))"

function replace_from :: "string \<Rightarrow> string \<Rightarrow> string \<Rightarrow> string \<Rightarrow> string" where
  "replace_from pat rep preceding rest =
     (if pat = [] then
        getSubstitution [] preceding rest rep
          @ (case rest of [] \<Rightarrow> [] | c # cs \<Rightarrow> c # replace_from pat rep (preceding @ [c]) cs)
      else if rest = [] then []
      else if take (length pat) rest = pat then
        getSubstitution pat preceding (drop (length pat) rest) rep
          @ replace_from pat rep (preceding @ pat) (drop (length pat) rest)
      else hd rest # replace_from pat rep (preceding @ [hd rest]) (tl rest))"
  by pat_completeness auto
termination
  by (relation "measure (\<lambda>(pat, rep, preceding, rest). length rest)") auto

declare replace_from.simps [simp del]

definition replaceAll :: "string \<Rightarrow> string \<Rightarrow> string \<Rightarrow> string" where
  "replaceAll pat rep content = replace_from pat rep [] content"

text \<open>
  \<^verbatim>\<open>
  function convertToCRLF(content) {
    content = content.replaceAll(/\n/g, "\r\n");
    content = content.replaceAll("&#xD;", "");
    return content;
  }
  \<close>
\<close>

definition convertToCRLF :: "string \<Rightarrow> string" where
  "convertToCRLF content =
     replaceAll ''&#xD;'' [] (replaceAll [CHR 0x0A] [CHR 0x0D, CHR 0x0A] content)"

section \<open>Script Text Rewriter\<close>

text \<open>
  The extended script:
  \<^verbatim>\<open>
  function updateUlcFile(ulcFilePath, spawnCodes) {
    if (!fs.existsSync(ulcFilePath)) {
      console.warn(chalk.yellow(`ULC file not found: ${ulcFilePath}`));
      return;
    }
    let ulcContent = fs.readFileSync(ulcFilePath, "utf8");
    for (const [originalModelName, spawnCode] of Object.entries(spawnCodes)) {
      ulcContent = ulcContent.replaceAll(`"${originalModelName}"`, `"${spawnCode}"`);
    }
    fs.writeFileSync(ulcFilePath, ulcContent, "utf8");
  }
  \<close>
  In \<^verbatim>\<open>build.mjs\<close> the loop body is
  \<^verbatim>\<open>ulcContent = ulcContent.replaceAll(originalModelName, spawnCode);\<close>
\<close>

definition quoted :: "string \<Rightarrow> string" where
  "quoted s = CHR 0x22 # s @ [CHR 0x22]"

definition rewrite_ulc :: "(string \<times> string) list \<Rightarrow> string \<Rightarrow> string" where
  "rewrite_ulc spawnCodes ulcContent =
     foldl (\<lambda>content (originalModelName, spawnCode).
              replaceAll (quoted originalModelName) (quoted spawnCode) content)
       ulcContent spawnCodes"

definition updateUlcFile ::
  "string \<Rightarrow> (string \<times> string) list \<Rightarrow> files \<times> event list \<Rightarrow> files \<times> event list" where
  "updateUlcFile ulcFilePath spawnCodes st =
     (case fst st ulcFilePath of
        None \<Rightarrow> (fst st, snd st @ [UlcNotFound ulcFilePath])
      | Some ulcContent \<Rightarrow> ((fst st)(ulcFilePath \<mapsto> rewrite_ulc spawnCodes ulcContent), snd st))"

definition rewrite_ulc_build :: "(string \<times> string) list \<Rightarrow> string \<Rightarrow> string" where
  "rewrite_ulc_build spawnCodes ulcContent =
     foldl (\<lambda>content (originalModelName, spawnCode).
              replaceAll originalModelName spawnCode content)
       ulcContent spawnCodes"

definition updateUlcFile_build ::
  "string \<Rightarrow> (string \<times> string) list \<Rightarrow> files \<times> event list \<Rightarrow> files \<times> event list" where
  "updateUlcFile_build ulcFilePath spawnCodes st =
     (case fst st ulcFilePath of
        None \<Rightarrow> (fst st, snd st @ [UlcNotFound ulcFilePath])
      | Some ulcContent \<Rightarrow>
          ((fst st)(ulcFilePath \<mapsto> rewrite_ulc_build spawnCodes ulcContent), snd st))"

section \<open>Parsed documents\<close>

text \<open>
  \<^verbatim>\<open>xml2js\<close> turns an XML document into a tree of objects, arrays and strings: an element
  with attributes or children is an object, its attributes are an object under the key
  \<^verbatim>\<open>$\<close>, the children of one name are an array under that name, and an element with text
  only is a string. A file that fails to parse is \<^verbatim>\<open>null\<close>. The rewriter stores manifest
  values in the tree, so a tree can also hold \<^verbatim>\<open>undefined\<close> and a built-in object.
\<close>

datatype jsval =
    JUndefined
  | JNull
  | JStr string
  | JBuiltin builtin
  | JArr "jsval list"
  | JObj "(string \<times> jsval) list"

definition nullish :: "jsval \<Rightarrow> bool" where
  "nullish v = (v = JUndefined \<or> v = JNull)"

definition truthy :: "jsval \<Rightarrow> bool" where
  "truthy v = (case v of JUndefined \<Rightarrow> False | JNull \<Rightarrow> False | JStr s \<Rightarrow> s \<noteq> [] | _ \<Rightarrow> True)"

text \<open>
  Reading a named property. The names the scripts read from a document are members of
  none of the built-in prototypes, so only an own property of an object is ever found.
\<close>

fun get_prop :: "jsval \<Rightarrow> string \<Rightarrow> error + jsval" where
  "get_prop JUndefined k = Inl TypeError"
| "get_prop JNull k = Inl TypeError"
| "get_prop (JObj kvs) k = Inr (case map_of kvs k of Some v \<Rightarrow> v | None \<Rightarrow> JUndefined)"
| "get_prop (JStr s) k = Inr JUndefined"
| "get_prop (JBuiltin b) k = Inr JUndefined"
| "get_prop (JArr xs) k = Inr JUndefined"

text \<open>Reading index 0.\<close>

fun get_first :: "jsval \<Rightarrow> error + jsval" where
  "get_first JUndefined = Inl TypeError"
| "get_first JNull = Inl TypeError"
| "get_first (JArr xs) = Inr (case xs of [] \<Rightarrow> JUndefined | x # rest \<Rightarrow> x)"
| "get_first (JStr s) = Inr (case s of [] \<Rightarrow> JUndefined | c # rest \<Rightarrow> JStr [c])"
| "get_first (JObj kvs) = Inr (case map_of kvs ''0'' of Some v \<Rightarrow> v | None \<Rightarrow> JUndefined)"
| "get_first (JBuiltin b) = Inr JUndefined"

text \<open>
  \<^verbatim>\<open>target[0] = v\<close> and \<^verbatim>\<open>target.k = v\<close> in strict mode: a primitive target raises. A
  property put on a built-in object or a named property put on an array is not part of the
  tree (no parsed document leads there).
\<close>

fun set_first :: "jsval \<Rightarrow> jsval \<Rightarrow> error + jsval" where
  "set_first v JUndefined = Inl TypeError"
| "set_first v JNull = Inl TypeError"
| "set_first v (JStr s) = Inl TypeError"
| "set_first v (JArr xs) = Inr (JArr (case xs of [] \<Rightarrow> [v] | x # rest \<Rightarrow> v # rest))"
| "set_first v (JObj kvs) = Inr (JObj (AList.update ''0'' v kvs))"
| "set_first v (JBuiltin b) = Inr (JBuiltin b)"

fun set_prop :: "string \<Rightarrow> jsval \<Rightarrow> jsval \<Rightarrow> error + jsval" where
  "set_prop k v JUndefined = Inl TypeError"
| "set_prop k v JNull = Inl TypeError"
| "set_prop k v (JStr s) = Inl TypeError"
| "set_prop k v (JObj kvs) = Inr (JObj (AList.update k v kvs))"
| "set_prop k v (JArr xs) = Inr (JArr xs)"
| "set_prop k v (JBuiltin b) = Inr (JBuiltin b)"

text \<open>
  The scripts change a document in place, through references into the tree. The tree has
  no sharing, so the model follows a path of accesses down, applies the change and puts
  the changed child back into its parent. A change reports the error it raised, if any,
  together with the state it left behind.
\<close>

datatype step = Prop string | First

fun read_step :: "step \<Rightarrow> jsval \<Rightarrow> error + jsval" where
  "read_step (Prop k) v = get_prop v k"
| "read_step First v = get_first v"

fun write_step :: "step \<Rightarrow> jsval \<Rightarrow> jsval \<Rightarrow> jsval" where
  "write_step (Prop k) (JObj kvs) child =
     (if map_of kvs k = None then JObj kvs else JObj (AList.update k child kvs))"
| "write_step First (JArr (x # rest)) child = JArr (child # rest)"
| "write_step First (JObj kvs) child =
     (if map_of kvs ''0'' = None then JObj kvs else JObj (AList.update ''0'' child kvs))"
| "write_step s parent child = parent"

fun read_path :: "step list \<Rightarrow> jsval \<Rightarrow> error + jsval" where
  "read_path [] v = Inr v"
| "read_path (s # ss) v = (case read_step s v of Inl e \<Rightarrow> Inl e | Inr child \<Rightarrow> read_path ss child)"

fun at_path ::
  "step list \<Rightarrow> (jsval \<Rightarrow> jsval \<times> error option) \<Rightarrow> jsval \<Rightarrow> jsval \<times> error option" where
  "at_path [] f v = f v"
| "at_path (s # ss) f v =
     (case read_step s v of
        Inl e \<Rightarrow> (v, Some e)
      | Inr child \<Rightarrow> (case at_path ss f child of (child', r) \<Rightarrow> (write_step s v child', r)))"

text \<open>The same with \<^verbatim>\<open>?.\<close> at every link: a nullish value ends the chain quietly.\<close>

fun at_path_optional ::
  "step list \<Rightarrow> (jsval \<Rightarrow> jsval \<times> error option) \<Rightarrow> jsval \<Rightarrow> jsval \<times> error option" where
  "at_path_optional [] f v = f v"
| "at_path_optional (s # ss) f v =
     (if nullish v then (v, None)
      else case read_step s v of
             Inl e \<Rightarrow> (v, Some e)
           | Inr child \<Rightarrow>
               (case at_path_optional ss f child of (child', r) \<Rightarrow> (write_step s v child', r)))"

definition assign_first :: "jsval \<Rightarrow> jsval \<Rightarrow> jsval \<times> error option" where
  "assign_first v target =
     (case set_first v target of Inl e \<Rightarrow> (target, Some e) | Inr t \<Rightarrow> (t, None))"

definition assign_prop :: "string \<Rightarrow> jsval \<Rightarrow> jsval \<Rightarrow> jsval \<times> error option" where
  "assign_prop k v target =
     (case set_prop k v target of Inl e \<Rightarrow> (target, Some e) | Inr t \<Rightarrow> (t, None))"

definition and_then ::
  "jsval \<times> error option \<Rightarrow> (jsval \<Rightarrow> jsval \<times> error option) \<Rightarrow> jsval \<times> error option" where
  "and_then r next_statement =
     (case r of (v, Some e) \<Rightarrow> (v, Some e) | (v, None) \<Rightarrow> next_statement v)"

text \<open>\<^verbatim>\<open>array.forEach(callback)\<close>: the callback may change the element it is given; an error
  it raises ends the loop and leaves the elements as they are at that moment. Anything
  but an array has no \<^verbatim>\<open>forEach\<close>.\<close>

fun forEach_list ::
  "(jsval \<Rightarrow> jsval \<times> error option) \<Rightarrow> jsval list \<Rightarrow> jsval list \<times> error option" where
  "forEach_list callback [] = ([], None)"
| "forEach_list callback (x # xs) =
     (case callback x of
        (x', Some e) \<Rightarrow> (x' # xs, Some e)
      | (x', None) \<Rightarrow> (case forEach_list callback xs of (xs', r) \<Rightarrow> (x' # xs', r)))"

definition forEach :: "(jsval \<Rightarrow> jsval \<times> error option) \<Rightarrow> jsval \<Rightarrow> jsval \<times> error option" where
  "forEach callback target =
     (case target of
        JArr xs \<Rightarrow> (case forEach_list callback xs of (xs', r) \<Rightarrow> (JArr xs', r))
      | _ \<Rightarrow> (target, Some TypeError))"

definition forEach_optional ::
  "(jsval \<Rightarrow> jsval \<times> error option) \<Rightarrow> jsval \<Rightarrow> jsval \<times> error option" where
  "forEach_optional callback target =
     (if nullish target then (target, None) else forEach callback target)"

text \<open>
  Conversion to a string (in a template literal, as a property key, as an operand of
  \<^verbatim>\<open>+\<close> next to a string). An array joins its elements with commas. A parsed element is
  an ordinary object and converts through \<^verbatim>\<open>Object.prototype.toString\<close>, unless a child
  element named \<^verbatim>\<open>toString\<close> shadows that method with something that cannot be called.
\<close>

fun join_strings :: "(error + string) list \<Rightarrow> error + string" where
  "join_strings [] = Inr []"
| "join_strings [r] = r"
| "join_strings (r # rs) =
     (case r of
        Inl e \<Rightarrow> Inl e
      | Inr s \<Rightarrow> (case join_strings rs of Inl e \<Rightarrow> Inl e | Inr t \<Rightarrow> Inr (s @ '','' @ t)))"

fun to_string :: "jsval \<Rightarrow> error + string" where
  "to_string JUndefined = Inr ''undefined''"
| "to_string JNull = Inr ''null''"
| "to_string (JStr s) = Inr s"
| "to_string (JBuiltin b) = Inr (builtin_to_string b)"
| "to_string (JObj kvs) =
     (if map_of kvs ''toString'' = None then Inr ''[object Object]'' else Inl TypeError)"
| "to_string (JArr xs) =
     join_strings (map (\<lambda>x. if x = JUndefined \<or> x = JNull then Inr [] else to_string x) xs)"

text \<open>\<^verbatim>\<open>toLowerCase\<close> on code units below 256: the capital letters of ASCII and Latin-1.\<close>

definition lower_char :: "char \<Rightarrow> char" where
  "lower_char c =
     (let n = (of_char c :: nat)
      in if (65 \<le> n \<and> n \<le> 90) \<or> (192 \<le> n \<and> n \<le> 214) \<or> (216 \<le> n \<and> n \<le> 222)
         then char_of (n + 32) else c)"

definition toLowerCase :: "jsval \<Rightarrow> error + string" where
  "toLowerCase v = (case v of JStr s \<Rightarrow> Inr (map lower_char s) | _ \<Rightarrow> Inl TypeError)"

definition slot_value :: "string slot \<Rightarrow> jsval" where
  "slot_value s = (case s of Own c \<Rightarrow> JStr c | Inherited b \<Rightarrow> JBuiltin b | Absent \<Rightarrow> JUndefined)"

section \<open>Metadata Rewriter\<close>

text \<open>
  The manifest, as \<^verbatim>\<open>js-yaml\<close> loads it: plain objects. \<^verbatim>\<open>buildData\<close> is its \<^verbatim>\<open>vehicles\<close>
  table and \<^verbatim>\<open>vehicleData\<close> its \<^verbatim>\<open>data\<close> table.
\<close>

record template =
  handling :: string
  audio :: string

text \<open>\<^verbatim>\<open>buildData[originalModelName].data\<close>\<close>

definition data_ref :: "(string \<times> vehicle_entry) list \<Rightarrow> string \<Rightarrow> error + jsval" where
  "data_ref buildData originalModelName =
     (case plain_get buildData originalModelName of
        Own entry \<Rightarrow> Inr (JStr (data entry))
      | Inherited b \<Rightarrow> Inr JUndefined
      | Absent \<Rightarrow> Inl TypeError)"

text \<open>\<^verbatim>\<open>vehicleData[dataRef].handling\<close> and \<^verbatim>\<open>vehicleData[dataRef].audio\<close>\<close>

definition template_field ::
  "(template \<Rightarrow> string) \<Rightarrow> (string \<times> template) list \<Rightarrow> jsval \<Rightarrow> error + jsval" where
  "template_field field vehicleData dataRef =
     (case to_string dataRef of
        Inl e \<Rightarrow> Inl e
      | Inr k \<Rightarrow>
          (case plain_get vehicleData k of
             Own t \<Rightarrow> Inr (JStr (field t))
           | Inherited b \<Rightarrow> Inr JUndefined
           | Absent \<Rightarrow> Inl TypeError))"

definition assign_template_field ::
  "string \<Rightarrow> (template \<Rightarrow> string) \<Rightarrow> (string \<times> template) list \<Rightarrow> jsval \<Rightarrow> jsval
     \<Rightarrow> jsval \<times> error option" where
  "assign_template_field name field vehicleData dataRef item =
     (case template_field field vehicleData dataRef of
        Inl e \<Rightarrow> (item, Some e)
      | Inr v \<Rightarrow> at_path [Prop name] (assign_first v) item)"

text \<open>
  The statements under \<^verbatim>\<open>if (spawnCode)\<close> for an item of \<^verbatim>\<open>vehicles.meta\<close>:
  \<^verbatim>\<open>
  const dataRef = buildData[originalModelName].data;
  item.modelName[0] = spawnCode;
  item.txdName[0] = spawnCode;
  item.gameName[0] = spawnCode;
  item.handlingId[0] = vehicleData[dataRef].handling;
  item.audioNameHash[0] = vehicleData[dataRef].audio;
  \<close>
\<close>

definition rename_vehicle_item ::
  "jsval \<Rightarrow> string \<Rightarrow> (string \<times> template) list \<Rightarrow> (string \<times> vehicle_entry) list \<Rightarrow> jsval
     \<Rightarrow> jsval \<times> error option" where
  "rename_vehicle_item spawnCode originalModelName vehicleData buildData item =
     (case data_ref buildData originalModelName of
        Inl e \<Rightarrow> (item, Some e)
      | Inr dataRef \<Rightarrow>
          and_then (at_path [Prop ''modelName''] (assign_first spawnCode) item) (\<lambda>item1.
          and_then (at_path [Prop ''txdName''] (assign_first spawnCode) item1) (\<lambda>item2.
          and_then (at_path [Prop ''gameName''] (assign_first spawnCode) item2) (\<lambda>item3.
          and_then (assign_template_field ''handlingId'' handling vehicleData dataRef item3)
            (assign_template_field ''audioNameHash'' audio vehicleData dataRef)))))"

text \<open>
  The extended script, for each item of a vehicle init-data list:
  \<^verbatim>\<open>
  const originalModelName = item.modelName[0].toLowerCase();
  const spawnCode = spawnCodes[originalModelName];
  if (spawnCode) { ... }
  \<close>
\<close>

definition update_vehicle_item ::
  "(string \<times> string) list \<Rightarrow> (string \<times> template) list \<Rightarrow> (string \<times> vehicle_entry) list
     \<Rightarrow> jsval \<Rightarrow> jsval \<times> error option" where
  "update_vehicle_item spawnCodes vehicleData buildData item =
     (case read_path [Prop ''modelName'', First] item of
        Inl e \<Rightarrow> (item, Some e)
      | Inr name \<Rightarrow>
          (case toLowerCase name of
             Inl e \<Rightarrow> (item, Some e)
           | Inr originalModelName \<Rightarrow>
               (let spawnCode = slot_value (plain_get spawnCodes originalModelName)
                in if truthy spawnCode
                   then rename_vehicle_item spawnCode originalModelName vehicleData buildData item
                   else (item, None))))"

text \<open>And for each item of a variation-data list, where only the identifier changes.\<close>

definition update_variation_item ::
  "(string \<times> string) list \<Rightarrow> jsval \<Rightarrow> jsval \<times> error option" where
  "update_variation_item spawnCodes item =
     (case read_path [Prop ''modelName'', First] item of
        Inl e \<Rightarrow> (item, Some e)
      | Inr name \<Rightarrow>
          (case toLowerCase name of
             Inl e \<Rightarrow> (item, Some e)
           | Inr originalModelName \<Rightarrow>
               (let spawnCode = slot_value (plain_get spawnCodes originalModelName)
                in if truthy spawnCode
                   then at_path [Prop ''modelName''] (assign_first spawnCode) item
                   else (item, None))))"

text \<open>\<^verbatim>\<open>build.mjs\<close> reads \<^verbatim>\<open>const originalModelName = item.modelName[0];\<close> and uses it as
  the key as it is.\<close>

definition update_vehicle_item_build ::
  "(string \<times> string) list \<Rightarrow> (string \<times> template) list \<Rightarrow> (string \<times> vehicle_entry) list
     \<Rightarrow> jsval \<Rightarrow> jsval \<times> error option" where
  "update_vehicle_item_build spawnCodes vehicleData buildData item =
     (case read_path [Prop ''modelName'', First] item of
        Inl e \<Rightarrow> (item, Some e)
      | Inr name \<Rightarrow>
          (case to_string name of
             Inl e \<Rightarrow> (item, Some e)
           | Inr originalModelName \<Rightarrow>
               (let spawnCode = slot_value (plain_get spawnCodes originalModelName)
                in if truthy spawnCode
                   then rename_vehicle_item spawnCode originalModelName vehicleData buildData item
                   else (item, None))))"

definition update_variation_item_build ::
  "(string \<times> string) list \<Rightarrow> jsval \<Rightarrow> jsval \<times> error option" where
  "update_variation_item_build spawnCodes item =
     (case read_path [Prop ''modelName'', First] item of
        Inl e \<Rightarrow> (item, Some e)
      | Inr name \<Rightarrow>
          (case to_string name of
             Inl e \<Rightarrow> (item, Some e)
           | Inr originalModelName \<Rightarrow>
               (let spawnCode = slot_value (plain_get spawnCodes originalModelName)
                in if truthy spawnCode
                   then at_path [Prop ''modelName''] (assign_first spawnCode) item
                   else (item, None))))"

text \<open>
  A metadata file as \<^verbatim>\<open>findMetaFiles\<close> collects it: its path and its parsed contents.
  Serialising (\<^verbatim>\<open>xml2js.Builder.buildObject\<close>) is a library call; the model takes it as a
  parameter \<open>build\<close>, a function from trees to the text or to the error the builder raises
  (it refuses, for instance, a function or \<^verbatim>\<open>undefined\<close> as an element of an array). The
  builder starts with \<^verbatim>\<open>Object.keys(rootObj)\<close>, which raises on \<^verbatim>\<open>null\<close>.
\<close>

record meta_file =
  path :: string
  contents :: jsval

type_synonym builder = "jsval \<Rightarrow> error + string"

definition unparseXmlFile :: "builder \<Rightarrow> jsval \<Rightarrow> error + string" where
  "unparseXmlFile build parsedData =
     (if nullish parsedData then Inl TypeError else build parsedData)"

fun forEach_files ::
  "('a \<Rightarrow> 's \<Rightarrow> 's \<times> error option) \<Rightarrow> 'a list \<Rightarrow> 's \<Rightarrow> 's \<times> error option" where
  "forEach_files callback [] st = (st, None)"
| "forEach_files callback (x # xs) st =
     (case callback x st of
        (st1, Some e) \<Rightarrow> (st1, Some e)
      | (st1, None) \<Rightarrow> forEach_files callback xs st1)"

text \<open>
  The extended script:
  \<^verbatim>\<open>
  vehiclesArray.forEach((vehicleMetaFile) => {
    let vehicleMetaData = vehicleMetaFile.contents;
    vehicleMetaData.CVehicleModelInfo__InitDataList.InitDatas[0].Item.forEach((item) => {...});
    fs.writeFileSync(vehicleMetaFilePath, convertToCRLF(unparseXmlFile(vehicleMetaData)), "utf-8");
  });
  carvarArray.forEach((carvariationMetaFile) => {
    let carvarMetaData = carvariationMetaFile.contents;
    carvarMetaData.CVehicleModelInfoVariation.variationData[0].Item.forEach((item) => {...});
    fs.writeFileSync(carvarMetaFilePath, convertToCRLF(unparseXmlFile(carvarMetaData)), "utf-8");
  });
  \<close>
\<close>

definition vehicle_items :: "step list" where
  "vehicle_items = [Prop ''CVehicleModelInfo__InitDataList'', Prop ''InitDatas'', First, Prop ''Item'']"

definition variation_items :: "step list" where
  "variation_items = [Prop ''CVehicleModelInfoVariation'', Prop ''variationData'', First, Prop ''Item'']"

definition write_document ::
  "builder \<Rightarrow> string \<Rightarrow> jsval \<Rightarrow> files \<times> event list
     \<Rightarrow> (files \<times> event list) \<times> error option" where
  "write_document build file_path parsedData st =
     (case unparseXmlFile build parsedData of
        Inl e \<Rightarrow> (st, Some e)
      | Inr xml \<Rightarrow> (((fst st)(file_path \<mapsto> convertToCRLF xml), snd st), None))"

definition update_items_file ::
  "builder \<Rightarrow> step list \<Rightarrow> (jsval \<Rightarrow> jsval \<times> error option) \<Rightarrow> meta_file
     \<Rightarrow> files \<times> event list \<Rightarrow> (files \<times> event list) \<times> error option" where
  "update_items_file build items callback metaFile st =
     (case at_path items (forEach callback) (contents metaFile) of
        (metaData, Some e) \<Rightarrow> (st, Some e)
      | (metaData, None) \<Rightarrow> write_document build (path metaFile) metaData st)"

definition updateMetaFiles ::
  "builder \<Rightarrow> meta_file list \<Rightarrow> meta_file list \<Rightarrow> (string \<times> string) list
     \<Rightarrow> (string \<times> template) list \<Rightarrow> (string \<times> vehicle_entry) list
     \<Rightarrow> files \<times> event list \<Rightarrow> (files \<times> event list) \<times> error option" where
  "updateMetaFiles build vehiclesArray carvarArray spawnCodes vehicleData buildData st =
     (case forEach_files
             (update_items_file build vehicle_items
                (update_vehicle_item spawnCodes vehicleData buildData))
             vehiclesArray st of
        (st1, Some e) \<Rightarrow> (st1, Some e)
      | (st1, None) \<Rightarrow>
          forEach_files
            (update_items_file build variation_items (update_variation_item spawnCodes))
            carvarArray st1)"

text \<open>
  \<^verbatim>\<open>build.mjs\<close> looks for the two files in one folder, parses each itself (the parser is the
  parameter \<open>parse\<close>) and writes the builder's text as it is:
  \<^verbatim>\<open>
  const metaFiles = ["vehicles.meta", "carvariations.meta"];
  for (const file of metaFiles) {
    const filePath = path.join(metaFolder, file);
    if (!fs.existsSync(filePath)) {
      console.warn(chalk.yellow(`Metadata file not found: ${file}`));
      continue;
    }
    const content = fs.readFileSync(filePath, "utf8");
    const parsedXml = await parser.parseStringPromise(content);
    if (file === "vehicles.meta") { ... }
    if (file === "carvariations.meta") { ... }
    const updatedContent = builder.buildObject(parsedXml);
    fs.writeFileSync(filePath, updatedContent, "utf8");
  }
  \<close>
\<close>

definition update_meta_file_build ::
  "(string \<Rightarrow> error + jsval) \<Rightarrow> builder \<Rightarrow> string \<Rightarrow> (string \<times> string) list
     \<Rightarrow> (string \<times> template) list \<Rightarrow> (string \<times> vehicle_entry) list \<Rightarrow> string
     \<Rightarrow> files \<times> event list \<Rightarrow> (files \<times> event list) \<times> error option" where
  "update_meta_file_build parse build metaFolder spawnCodes vehicleData buildData file st =
     (let filePath = path_join metaFolder file
      in case fst st filePath of
           None \<Rightarrow> ((fst st, snd st @ [MetaNotFound file]), None)
         | Some content \<Rightarrow>
             (case parse content of
                Inl e \<Rightarrow> (st, Some e)
              | Inr parsedXml \<Rightarrow>
                  (case (if file = ''vehicles.meta''
                         then at_path vehicle_items
                                (forEach (update_vehicle_item_build spawnCodes vehicleData buildData))
                                parsedXml
                         else (parsedXml, None)) of
                     (parsedXml1, Some e) \<Rightarrow> (st, Some e)
                   | (parsedXml1, None) \<Rightarrow>
                       (case (if file = ''carvariations.meta''
                              then at_path variation_items
                                     (forEach (update_variation_item_build spawnCodes)) parsedXml1
                              else (parsedXml1, None)) of
                          (parsedXml2, Some e) \<Rightarrow> (st, Some e)
                        | (parsedXml2, None) \<Rightarrow>
                            (case unparseXmlFile build parsedXml2 of
                               Inl e \<Rightarrow> (st, Some e)
                             | Inr updatedContent \<Rightarrow>
                                 (((fst st)(filePath \<mapsto> updatedContent), snd st), None))))))"

definition updateMetaFiles_build ::
  "(string \<Rightarrow> error + jsval) \<Rightarrow> builder \<Rightarrow> string \<Rightarrow> (string \<times> string) list
     \<Rightarrow> (string \<times> template) list \<Rightarrow> (string \<times> vehicle_entry) list
     \<Rightarrow> files \<times> event list \<Rightarrow> (files \<times> event list) \<times> error option" where
  "updateMetaFiles_build parse build metaFolder spawnCodes vehicleData buildData st =
     forEach_files (update_meta_file_build parse build metaFolder spawnCodes vehicleData buildData)
       [''vehicles.meta'', ''carvariations.meta''] st"

section \<open>Modification kits\<close>

text \<open>
  \<^verbatim>\<open>
  async function fixModkits(carcolArray, prefix) {
    carcolArray.forEach((carcolFile) => {
      let carcolPath = carcolFile.path;
      let carcolData = carcolFile.contents;
      try {
        carcolData?.CVehicleModelInfoVarGlobal?.Kits?.forEach((kit, kitIndex) => {
          kit.Item?.forEach((item, itemIndex) => {
            if (item.kitName != null && item.id != null) {
              console.log(chalk.yellow(`Modifying kit ID: ${item.id[0]["$"].value} ...`));
              item.id[0]["$"].value = (prefix || "") + item.id[0]["$"].value;
              console.log(chalk.green(`Updated kit ID: ${item.id[0]["$"].value}`));
            }
          });
        });
      } catch (err) {
        console.log(chalk.red(`Error processing file: ${carcolPath}`));
        console.error(chalk.red(err));
      }
      fs.writeFileSync(carcolPath, convertToCRLF(unparseXmlFile(carcolData)), "utf-8");
    });
  }
  \<close>
  The first log line evaluates \<^verbatim>\<open>item.id[0]["$"].value\<close> and converts it to a string, so
  it is where a missing field raises.
\<close>

definition kit_id_value :: "step list" where
  "kit_id_value = [Prop ''id'', First, Prop ''$'', Prop ''value'']"

definition kit_id_attributes :: "step list" where
  "kit_id_attributes = [Prop ''id'', First, Prop ''$'']"

definition prefix_kit_item :: "string \<Rightarrow> jsval \<Rightarrow> jsval \<times> error option" where
  "prefix_kit_item prefix item =
     (case get_prop item ''kitName'' of
        Inl e \<Rightarrow> (item, Some e)
      | Inr kitName \<Rightarrow>
          (case get_prop item ''id'' of
             Inl e \<Rightarrow> (item, Some e)
           | Inr ident \<Rightarrow>
               if \<not> nullish kitName \<and> \<not> nullish ident
               then (case read_path kit_id_value item of
                       Inl e \<Rightarrow> (item, Some e)
                     | Inr old \<Rightarrow>
                         (case to_string old of
                            Inl e \<Rightarrow> (item, Some e)
                          | Inr s \<Rightarrow>
                              at_path kit_id_attributes
                                (assign_prop ''value''
                                   (JStr ((if prefix = [] then [] else prefix) @ s)))
                                item))
               else (item, None)))"

definition prefix_kit :: "string \<Rightarrow> jsval \<Rightarrow> jsval \<times> error option" where
  "prefix_kit prefix kit = at_path [Prop ''Item''] (forEach_optional (prefix_kit_item prefix)) kit"

definition prefix_kits :: "string \<Rightarrow> jsval \<Rightarrow> jsval \<times> error option" where
  "prefix_kits prefix carcolData =
     at_path_optional [Prop ''CVehicleModelInfoVarGlobal'', Prop ''Kits'']
       (forEach_optional (prefix_kit prefix)) carcolData"

definition fix_carcol_file ::
  "builder \<Rightarrow> string \<Rightarrow> meta_file \<Rightarrow> files \<times> event list
     \<Rightarrow> (files \<times> event list) \<times> error option" where
  "fix_carcol_file build prefix carcolFile st =
     (case prefix_kits prefix (contents carcolFile) of
        (carcolData, caught) \<Rightarrow>
          write_document build (path carcolFile) carcolData
            (fst st,
             snd st @ (case caught of
                         Some e \<Rightarrow> [ErrorProcessingFile (path carcolFile) e]
                       | None \<Rightarrow> [])))"

definition fixModkits ::
  "builder \<Rightarrow> meta_file list \<Rightarrow> string \<Rightarrow> files \<times> event list
     \<Rightarrow> (files \<times> event list) \<times> error option" where
  "fixModkits build carcolArray prefix st =
     forEach_files (fix_carcol_file build prefix) carcolArray st"

section \<open>Orchestrator\<close>

text \<open>
  The extended script's \<^verbatim>\<open>main\<close>. The answers to the prompts, the result of
  \<^verbatim>\<open>loadYaml\<close> (nothing when reading or parsing the manifest fails) and the result of
  \<^verbatim>\<open>findMetaFiles\<close> are inputs.
  \<^verbatim>\<open>
  function loadYaml(filePath) {
    try { ...; return yaml.load(content); }
    catch (err) { console.error(...); process.exit(1); }
  }
  async function main() {
    const { updateChoice } = await inquirer.prompt([...]);
    const buildData = loadYaml(buildYamlPath);
    const metaData = await findMetaFiles();
    const vehicleData = buildData.data;
    const vehicleEntries = buildData.vehicles;
    const spawnCodes = autoIncrementSpawnCodes(vehicleEntries);
    switch (updateChoice) {
      case "Update everything":
        renameVehicleFiles(streamFolder, spawnCodes);
        await updateMetaFiles(metaData.vehicles, metaData.carvariations, spawnCodes,
                              vehicleData, vehicleEntries);
        updateUlcFile(ulcFilePath, spawnCodes);
        await fixModkits(metaData.carcols, selectedPrefix1);
        break;
      case "Update only spawn codes": renameVehicleFiles(streamFolder, spawnCodes); break;
      case "Update only meta files": await updateMetaFiles(...); break;
      case "Update only ULC": updateUlcFile(ulcFilePath, spawnCodes); break;
      case "Update only modkits": await fixModkits(metaData.carcols, selectedPrefix); break;
      default: console.log(chalk.red("Invalid choice!")); break;
    }
    console.log(chalk.bold.green("Processing completed successfully."));
  }
  main().catch((err) => { console.error(chalk.red(`Error: ${err.message}`)); });
  \<close>
  An error raised inside \<^verbatim>\<open>main\<close> rejects its promise; the handler logs the message and
  returns, and a Node.js process whose work is done ends with exit code 0 unless
  \<^verbatim>\<open>process.exit\<close> or \<^verbatim>\<open>process.exitCode\<close> said otherwise.
\<close>

datatype choice =
    UpdateEverything
  | UpdateOnlySpawnCodes
  | UpdateOnlyMetaFiles
  | UpdateOnlyULC
  | UpdateOnlyModkits
  | OtherChoice

record manifest =
  manifest_data :: "(string \<times> template) list"
  manifest_vehicles :: "(string \<times> vehicle_entry) list"

record meta_data =
  vehicles :: "meta_file list"
  carvariations :: "meta_file list"
  carcols :: "meta_file list"

definition streamFolder :: string where
  "streamFolder = ''build/stream''"

definition ulcFilePath :: string where
  "ulcFilePath = ''build/ulc.lua''"

definition run_choice ::
  "builder \<Rightarrow> choice \<Rightarrow> string \<Rightarrow> (string \<times> string) list
     \<Rightarrow> (string \<times> template) list \<Rightarrow> (string \<times> vehicle_entry) list \<Rightarrow> meta_data
     \<Rightarrow> files \<times> event list \<Rightarrow> (files \<times> event list) \<times> error option" where
  "run_choice build updateChoice selectedPrefix spawnCodes vehicleData vehicleEntries metaData st =
     (case updateChoice of
        UpdateEverything \<Rightarrow>
          (case updateMetaFiles build (vehicles metaData) (carvariations metaData) spawnCodes
                  vehicleData vehicleEntries (renameVehicleFiles streamFolder spawnCodes st) of
             (st1, Some e) \<Rightarrow> (st1, Some e)
           | (st1, None) \<Rightarrow>
               fixModkits build (carcols metaData) selectedPrefix
                 (updateUlcFile ulcFilePath spawnCodes st1))
      | UpdateOnlySpawnCodes \<Rightarrow> (renameVehicleFiles streamFolder spawnCodes st, None)
      | UpdateOnlyMetaFiles \<Rightarrow>
          updateMetaFiles build (vehicles metaData) (carvariations metaData) spawnCodes
            vehicleData vehicleEntries st
      | UpdateOnlyULC \<Rightarrow> (updateUlcFile ulcFilePath spawnCodes st, None)
      | UpdateOnlyModkits \<Rightarrow> fixModkits build (carcols metaData) selectedPrefix st
      | OtherChoice \<Rightarrow> ((fst st, snd st @ [InvalidChoice]), None))"

definition main ::
  "builder \<Rightarrow> choice \<Rightarrow> string \<Rightarrow> manifest \<Rightarrow> error + meta_data
     \<Rightarrow> files \<times> event list \<Rightarrow> (files \<times> event list) \<times> error option" where
  "main build updateChoice selectedPrefix buildData found st =
     (case found of
        Inl e \<Rightarrow> (st, Some e)
      | Inr metaData \<Rightarrow>
          (case run_choice build updateChoice selectedPrefix
                  (autoIncrementSpawnCodes (manifest_vehicles buildData))
                  (manifest_data buildData) (manifest_vehicles buildData) metaData st of
             (st1, Some e) \<Rightarrow> (st1, Some e)
           | (st1, None) \<Rightarrow> ((fst st1, snd st1 @ [Completed]), None)))"

record outcome =
  exit_code :: nat
  final_files :: files
  console :: "event list"

definition run ::
  "builder \<Rightarrow> choice \<Rightarrow> string \<Rightarrow> manifest option \<Rightarrow> error + meta_data \<Rightarrow> files
     \<Rightarrow> outcome" where
  "run build updateChoice selectedPrefix loaded found fs =
     (case loaded of
        None \<Rightarrow> \<lparr>exit_code = 1, final_files = fs, console = [YamlLoadFailed]\<rparr>
      | Some buildData \<Rightarrow>
          (case main build updateChoice selectedPrefix buildData found (fs, []) of
             (st, None) \<Rightarrow> \<lparr>exit_code = 0, final_files = fst st, console = snd st\<rparr>
           | (st, Some e) \<Rightarrow>
               \<lparr>exit_code = 0, final_files = fst st, console = snd st @ [TopLevelError e]\<rparr>))"

text \<open>Manifests used as examples below.\<close>

definition two_cars :: "(string \<times> vehicle_entry) list" where
  "two_cars =
     [(''carA'', \<lparr>code = ''XYZ#'', data = ''sedan''\<rparr>),
      (''carB'', \<lparr>code = ''XYZ#'', data = ''sedan''\<rparr>)]"

definition twelve :: "(string \<times> vehicle_entry) list" where
  "twelve =
     [(''v01'', \<lparr>code = ''A#'', data = ''d''\<rparr>), (''v02'', \<lparr>code = ''A#'', data = ''d''\<rparr>),
      (''v03'', \<lparr>code = ''A#'', data = ''d''\<rparr>), (''v04'', \<lparr>code = ''A#'', data = ''d''\<rparr>),
      (''v05'', \<lparr>code = ''A#'', data = ''d''\<rparr>), (''v06'', \<lparr>code = ''A#'', data = ''d''\<rparr>),
      (''v07'', \<lparr>code = ''A#'', data = ''d''\<rparr>), (''v08'', \<lparr>code = ''A#'', data = ''d''\<rparr>),
      (''v09'', \<lparr>code = ''A#'', data = ''d''\<rparr>), (''v10'', \<lparr>code = ''A#'', data = ''d''\<rparr>),
      (''v11'', \<lparr>code = ''A#'', data = ''d''\<rparr>), (''w'', \<lparr>code = ''A1#'', data = ''d''\<rparr>)]"

definition swap_manifest :: "(string \<times> vehicle_entry) list" where
  "swap_manifest =
     [(''b1'', \<lparr>code = ''c#'', data = ''d''\<rparr>), (''a'', \<lparr>code = ''b#'', data = ''d''\<rparr>)]"

definition one_asset :: files where
  "one_asset = Map.empty(''build/stream/a.yft'' \<mapsto> ''model'')"

section \<open>Reading the documents back\<close>

text \<open>Observations on a modification-kit document, used to state what the fixup does: the
  kits, the items of a kit, the item at a position, the identifier value of an item.\<close>

definition container :: "jsval \<Rightarrow> bool" where
  "container v = (case v of JObj kvs \<Rightarrow> True | JArr xs \<Rightarrow> True | _ \<Rightarrow> False)"

definition kits_path :: "step list" where
  "kits_path = [Prop ''CVehicleModelInfoVarGlobal'', Prop ''Kits'']"

definition kits_of :: "jsval \<Rightarrow> jsval list" where
  "kits_of carcolData = (case read_path kits_path carcolData of Inr (JArr kits) \<Rightarrow> kits | _ \<Rightarrow> [])"

definition items_of :: "jsval \<Rightarrow> jsval list" where
  "items_of kit = (case get_prop kit ''Item'' of Inr (JArr items) \<Rightarrow> items | _ \<Rightarrow> [])"

definition item_at :: "nat \<Rightarrow> nat \<Rightarrow> jsval \<Rightarrow> jsval" where
  "item_at i j carcolData = items_of (kits_of carcolData ! i) ! j"

definition kit_id :: "jsval \<Rightarrow> string option" where
  "kit_id item = (case read_path kit_id_value item of Inr (JStr v) \<Rightarrow> Some v | _ \<Rightarrow> None)"

definition kit_ids :: "jsval \<Rightarrow> string option list list" where
  "kit_ids carcolData = map (\<lambda>kit. map kit_id (items_of kit)) (kits_of carcolData)"

text \<open>The document a file holds after the fixup, and the text \<^verbatim>\<open>fs.writeFileSync\<close> receives
  for a document, if the builder gives one.\<close>

abbreviation fixed_document :: "string \<Rightarrow> meta_file \<Rightarrow> jsval" where
  "fixed_document prefix carcolFile \<equiv> fst (prefix_kits prefix (contents carcolFile))"

definition serialised :: "builder \<Rightarrow> jsval \<Rightarrow> string option" where
  "serialised build parsedData =
     (case unparseXmlFile build parsedData of Inl e \<Rightarrow> None | Inr xml \<Rightarrow> Some (convertToCRLF xml))"

text \<open>
  The items the fixup can meet in a kit:
  \<^item> a kit item as the script recognises it (\<^verbatim>\<open>kitName\<close> and \<^verbatim>\<open>id\<close> present) whose \<^verbatim>\<open>id\<close>
    element carries a \<^verbatim>\<open>value\<close> attribute;
  \<^item> an item without \<^verbatim>\<open>kitName\<close> or without \<^verbatim>\<open>id\<close>, which the test
    \<^verbatim>\<open>item.kitName != null && item.id != null\<close> passes over;
  \<^item> a recognised item whose \<^verbatim>\<open>id\<close> element has attributes, but no \<^verbatim>\<open>value\<close> among them;
  \<^item> a recognised item whose \<^verbatim>\<open>id\<close> element lacks the attributes altogether, so that
    reading \<^verbatim>\<open>item.id[0]["$"].value\<close> raises.
\<close>

definition is_kit_item :: "jsval \<Rightarrow> bool" where
  "is_kit_item item =
     (case get_prop item ''kitName'' of
        Inl e \<Rightarrow> False
      | Inr kitName \<Rightarrow>
          \<not> nullish kitName \<and>
          (case read_path kit_id_attributes item of
             Inr (JObj attrs) \<Rightarrow> (case map_of attrs ''value'' of Some (JStr v) \<Rightarrow> True | _ \<Rightarrow> False)
           | _ \<Rightarrow> False))"

definition skipped_item :: "jsval \<Rightarrow> bool" where
  "skipped_item item =
     (case get_prop item ''kitName'' of
        Inl e \<Rightarrow> False
      | Inr kitName \<Rightarrow>
          (case get_prop item ''id'' of
             Inl e \<Rightarrow> False
           | Inr ident \<Rightarrow> nullish kitName \<or> nullish ident))"

definition valueless_item :: "jsval \<Rightarrow> bool" where
  "valueless_item item =
     (case get_prop item ''kitName'' of
        Inl e \<Rightarrow> False
      | Inr kitName \<Rightarrow>
          \<not> nullish kitName \<and>
          (case read_path kit_id_attributes item of
             Inr (JObj attrs) \<Rightarrow> map_of attrs ''value'' = None
           | _ \<Rightarrow> False))"

definition broken_kit_item :: "jsval \<Rightarrow> bool" where
  "broken_kit_item item =
     (case get_prop item ''kitName'' of
        Inl e \<Rightarrow> False
      | Inr kitName \<Rightarrow>
          (case get_prop item ''id'' of
             Inl e \<Rightarrow> False
           | Inr ident \<Rightarrow>
               \<not> nullish kitName \<and> \<not> nullish ident \<and>
               (case read_path kit_id_value item of Inl e \<Rightarrow> True | Inr v \<Rightarrow> False)))"

text \<open>An item that raises nothing, and a kit that raises nothing: its \<^verbatim>\<open>Item\<close> is absent or a
  list of such items.\<close>

definition passable_item :: "jsval \<Rightarrow> bool" where
  "passable_item item = (is_kit_item item \<or> skipped_item item \<or> valueless_item item)"

definition passable_kit :: "jsval \<Rightarrow> bool" where
  "passable_kit kit =
     (case get_prop kit ''Item'' of
        Inl e \<Rightarrow> False
      | Inr (JArr items) \<Rightarrow> list_all passable_item items
      | Inr v \<Rightarrow> nullish v)"

definition good_kit :: "jsval \<Rightarrow> bool" where
  "good_kit kit =
     (case get_prop kit ''Item'' of Inr (JArr items) \<Rightarrow> list_all is_kit_item items | _ \<Rightarrow> False)"

text \<open>A document in which the fixup, going through the kits and their items in order, comes
  to an item whose \<^verbatim>\<open>id\<close> lacks the attributes.\<close>

fun reaches_broken_item :: "jsval list \<Rightarrow> bool" where
  "reaches_broken_item [] = False"
| "reaches_broken_item (item # items) =
     (broken_kit_item item \<or> (passable_item item \<and> reaches_broken_item items))"

definition kit_raises :: "jsval \<Rightarrow> bool" where
  "kit_raises kit =
     (case get_prop kit ''Item'' of Inr (JArr items) \<Rightarrow> reaches_broken_item items | _ \<Rightarrow> False)"

fun reaches_broken_kit :: "jsval list \<Rightarrow> bool" where
  "reaches_broken_kit [] = False"
| "reaches_broken_kit (kit # kits) =
     (kit_raises kit \<or> (passable_kit kit \<and> reaches_broken_kit kits))"

definition id_attributes_missing :: "jsval \<Rightarrow> bool" where
  "id_attributes_missing carcolData =
     (case read_path kits_path carcolData of Inr (JArr kits) \<Rightarrow> reaches_broken_kit kits | _ \<Rightarrow> False)"

text \<open>A document in which every field the fixup asks for with \<^verbatim>\<open>?.\<close> or tests against
  \<^verbatim>\<open>null\<close> may be absent, and nothing else is wrong: the root element or its \<^verbatim>\<open>Kits\<close> is
  absent, or \<^verbatim>\<open>Kits\<close> is a list of kits that raise nothing.\<close>

definition quiet_document :: "jsval \<Rightarrow> bool" where
  "quiet_document carcolData =
     (case get_prop carcolData ''CVehicleModelInfoVarGlobal'' of
        Inl e \<Rightarrow> False
      | Inr global \<Rightarrow>
          nullish global \<or>
          (case get_prop global ''Kits'' of
             Inl e \<Rightarrow> False
           | Inr (JArr kits) \<Rightarrow> list_all passable_kit kits
           | Inr v \<Rightarrow> nullish v))"

text \<open>Example documents: a kit item, an item with an identifier but no kit name, a
  recognised item whose \<^verbatim>\<open>id\<close> has an attribute other than \<^verbatim>\<open>value\<close>, and one whose \<^verbatim>\<open>id\<close>
  has no attributes; a document with one kit, and a document with several.\<close>

definition kit_item :: "string \<Rightarrow> string \<Rightarrow> jsval" where
  "kit_item name v =
     JObj [(''kitName'', JArr [JStr name]),
           (''id'', JArr [JObj [(''$'', JObj [(''value'', JStr v)])]])]"

definition unnamed_item :: "string \<Rightarrow> jsval" where
  "unnamed_item v = JObj [(''id'', JArr [JObj [(''$'', JObj [(''value'', JStr v)])]])]"

definition valueless_kit_item :: "string \<Rightarrow> jsval" where
  "valueless_kit_item name =
     JObj [(''kitName'', JArr [JStr name]),
           (''id'', JArr [JObj [(''$'', JObj [(''note'', JStr ''x'')])]])]"

definition bare_kit_item :: "string \<Rightarrow> jsval" where
  "bare_kit_item name = JObj [(''kitName'', JArr [JStr name]), (''id'', JArr [JStr ''5''])]"

definition carcols_document :: "jsval list \<Rightarrow> jsval" where
  "carcols_document items =
     JObj [(''CVehicleModelInfoVarGlobal'', JObj [(''Kits'', JArr [JObj [(''Item'', JArr items)]])])]"

definition kits_document :: "jsval list list \<Rightarrow> jsval" where
  "kits_document kits =
     JObj [(''CVehicleModelInfoVarGlobal'',
            JObj [(''Kits'', JArr (map (\<lambda>items. JObj [(''Item'', JArr items)]) kits))])]"

text \<open>
  A small serialiser, used as the argument \<open>build\<close> in the examples. It does not reproduce
  the layout of the library's output (declaration, indentation, quoting); it writes an
  element for every child and the attributes behind the tag name, so that the written text
  tells which document was written, and, like the library, it refuses a function or
  \<^verbatim>\<open>undefined\<close> where an element is expected.
\<close>

fun gather :: "(error + string) list \<Rightarrow> error + string" where
  "gather [] = Inr []"
| "gather (r # rs) =
     (case r of
        Inl e \<Rightarrow> Inl e
      | Inr s \<Rightarrow> (case gather rs of Inl e \<Rightarrow> Inl e | Inr t \<Rightarrow> Inr (s @ t)))"

fun example_attributes :: "(string \<times> jsval) list \<Rightarrow> string" where
  "example_attributes [] = []"
| "example_attributes ((k, v) # rest) =
     '' '' @ k @ ''='' @ (case v of JStr s \<Rightarrow> s | _ \<Rightarrow> []) @ example_attributes rest"

fun example_element :: "string \<Rightarrow> jsval \<Rightarrow> error + string" where
  "example_element tag (JStr s) = Inr (''<'' @ tag @ ''>'' @ s @ ''</'' @ tag @ ''>'')"
| "example_element tag JNull = Inr (''<'' @ tag @ ''/>'')"
| "example_element tag JUndefined = Inl BuildError"
| "example_element tag (JBuiltin b) = Inl BuildError"
| "example_element tag (JArr xs) = gather (map (example_element tag) xs)"
| "example_element tag (JObj kvs) =
     (case gather (map (\<lambda>(k, v). if k = ''$'' then Inr [] else example_element k v) kvs) of
        Inl e \<Rightarrow> Inl e
      | Inr children \<Rightarrow>
          Inr (''<'' @ tag
               @ (case map_of kvs ''$'' of Some (JObj attrs) \<Rightarrow> example_attributes attrs | _ \<Rightarrow> [])
               @ ''>'' @ children @ ''</'' @ tag @ ''>''))"

definition example_build :: builder where
  "example_build parsedData =
     (case parsedData of
        JObj [(root, v)] \<Rightarrow> example_element root v
      | _ \<Rightarrow> example_element ''root'' parsedData)"

section \<open>Structural mismatch\<close>

text \<open>The identifier of an item: \<^verbatim>\<open>item.modelName[0]\<close>.\<close>

definition model_name :: "step list" where
  "model_name = [Prop ''modelName'', First]"

text \<open>A field is absent from an item; an item is matched: its identifier, in lower case,
  is a key of the mapping (with a code that is not the empty string).\<close>

definition field_absent :: "jsval \<Rightarrow> string \<Rightarrow> bool" where
  "field_absent item k = (case get_prop item k of Inl e \<Rightarrow> True | Inr v \<Rightarrow> nullish v)"

definition item_matched :: "(string \<times> string) list \<Rightarrow> jsval \<Rightarrow> bool" where
  "item_matched spawnCodes item =
     (case read_path model_name item of
        Inr (JStr name) \<Rightarrow>
          (case map_of spawnCodes (map lower_char name) of
             Some spawnCode \<Rightarrow> spawnCode \<noteq> []
           | None \<Rightarrow> False)
      | _ \<Rightarrow> False)"

text \<open>
  The absent fields the Metadata Rewriter stumbles over: in any item the identifier, which
  it reads; in a matched item of a vehicle init-data list also one of the four other
  fields it writes. A document lacks an expected nested field when the path to its item
  list breaks off or does not end in a list, or when an item of the list lacks a field in
  this sense.
\<close>

definition variation_item_lacks :: "jsval \<Rightarrow> bool" where
  "variation_item_lacks item = (case read_path model_name item of Inl e \<Rightarrow> True | Inr v \<Rightarrow> False)"

definition vehicle_item_lacks :: "(string \<times> string) list \<Rightarrow> jsval \<Rightarrow> bool" where
  "vehicle_item_lacks spawnCodes item =
     (variation_item_lacks item
      \<or> (item_matched spawnCodes item
          \<and> list_ex (field_absent item) [''txdName'', ''gameName'', ''handlingId'', ''audioNameHash'']))"

definition field_missing :: "step list \<Rightarrow> (jsval \<Rightarrow> bool) \<Rightarrow> jsval \<Rightarrow> bool" where
  "field_missing items lacks metaData =
     (case read_path items metaData of
        Inl e \<Rightarrow> True
      | Inr (JArr xs) \<Rightarrow> list_ex lacks xs
      | Inr v \<Rightarrow> True)"

text \<open>What the modification-kit fixup logs for one file.\<close>

definition fix_events :: "string \<Rightarrow> meta_file \<Rightarrow> event list" where
  "fix_events prefix carcolFile =
     (case snd (prefix_kits prefix (contents carcolFile)) of
        Some e \<Rightarrow> [ErrorProcessingFile (path carcolFile) e]
      | None \<Rightarrow> [])"

text \<open>Example inputs: a vehicle init-data file with an empty root, a variation-data file
  whose item has no identifier, two modification-kit files (the first with an item whose
  \<^verbatim>\<open>id\<close> has no attributes), an empty manifest, a builder that returns the empty text.\<close>

definition empty_vehicles_file :: meta_file where
  "empty_vehicles_file = \<lparr>path = ''build/meta/vehicles.meta'', contents = JObj []\<rparr>"

definition nameless_variations_file :: meta_file where
  "nameless_variations_file =
     \<lparr>path = ''build/meta/carvariations.meta'',
      contents = JObj [(''CVehicleModelInfoVariation'',
                        JObj [(''variationData'',
                               JArr [JObj [(''Item'', JArr [JObj [(''colors'', JArr [JStr ''red''])]])]])])]\<rparr>"

definition broken_carcols_file :: meta_file where
  "broken_carcols_file =
     \<lparr>path = ''build/meta/a/carcols.meta'', contents = carcols_document [bare_kit_item ''b'']\<rparr>"

definition good_carcols_file :: meta_file where
  "good_carcols_file =
     \<lparr>path = ''build/meta/b/carcols.meta'', contents = carcols_document [kit_item ''k'' ''42'']\<rparr>"

definition example_meta_data :: meta_data where
  "example_meta_data =
     \<lparr>vehicles = [empty_vehicles_file], carvariations = [],
      carcols = [broken_carcols_file, good_carcols_file]\<rparr>"

definition empty_manifest :: manifest where
  "empty_manifest = \<lparr>manifest_data = [], manifest_vehicles = []\<rparr>"

definition no_text :: builder where
  "no_text parsedData = Inr []"

text \<open>The events a step of the run can log: anything but the completion message and the
  line of the top-level handler.\<close>

definition step_event :: "event \<Rightarrow> bool" where
  "step_event e = (case e of Completed \<Rightarrow> False | TopLevelError x \<Rightarrow> False | _ \<Rightarrow> True)"

section \<open>Occurrences\<close>

text \<open>\<open>pat\<close> occurs in \<open>content\<close> at some position.\<close>

definition occurs_in :: "string \<Rightarrow> string \<Rightarrow> bool" where
  "occurs_in pat content =
     list_ex (\<lambda>i. take (length pat) (drop i content) = pat) [0..<Suc (length content)]"

section \<open>Example items and manifests\<close>

text \<open>A vehicle init-data item and a variation-data item named \<open>name\<close>, the documents that
  hold a list of them, and the manifest tables of the specification's scenario.\<close>

definition vehicle_item :: "string \<Rightarrow> jsval" where
  "vehicle_item name =
     JObj [(''modelName'', JArr [JStr name]), (''txdName'', JArr [JStr name]),
           (''handlingId'', JArr [JStr ''ADDER'']), (''gameName'', JArr [JStr name]),
           (''audioNameHash'', JArr [JStr ''ADDER''])]"

definition variation_item :: "string \<Rightarrow> jsval" where
  "variation_item name = JObj [(''modelName'', JArr [JStr name]), (''colors'', JArr [JStr ''''])]"

definition vehicles_document :: "jsval list \<Rightarrow> jsval" where
  "vehicles_document items =
     JObj [(''CVehicleModelInfo__InitDataList'',
            JObj [(''InitDatas'', JArr [JObj [(''Item'', JArr items)]])])]"

definition variations_document :: "jsval list \<Rightarrow> jsval" where
  "variations_document items =
     JObj [(''CVehicleModelInfoVariation'',
            JObj [(''variationData'', JArr [JObj [(''Item'', JArr items)]])])]"

definition oldcar_codes :: "(string \<times> string) list" where
  "oldcar_codes = [(''oldcar'', ''ABC1'')]"

definition oldcar_entries :: "(string \<times> vehicle_entry) list" where
  "oldcar_entries = [(''oldcar'', \<lparr>code = ''ABC#'', data = ''sedan''\<rparr>)]"

definition oldcar_data :: "(string \<times> template) list" where
  "oldcar_data = [(''sedan'', \<lparr>handling = ''SEDAN_H'', audio = ''SEDAN_A''\<rparr>)]"

definition oldcar_manifest :: manifest where
  "oldcar_manifest = \<lparr>manifest_data = oldcar_data, manifest_vehicles = oldcar_entries\<rparr>"

text \<open>A vehicle init-data item named \<open>name\<close> that has no \<^verbatim>\<open>txdName\<close>.\<close>

definition vehicle_item_without_txd :: "string \<Rightarrow> jsval" where
  "vehicle_item_without_txd name =
     JObj [(''modelName'', JArr [JStr name]),
           (''handlingId'', JArr [JStr ''ADDER'']), (''gameName'', JArr [JStr name]),
           (''audioNameHash'', JArr [JStr ''ADDER''])]"

text \<open>Example files: modification-kit files (one kit item; three kits, the second with an
  item whose \<^verbatim>\<open>id\<close> has no attributes between two kit items; one kit that also holds an item
  without \<^verbatim>\<open>kitName\<close>; no \<^verbatim>\<open>Kits\<close> element; an \<^verbatim>\<open>id\<close> without \<^verbatim>\<open>value\<close>), a vehicle
  init-data file whose item has no \<^verbatim>\<open>txdName\<close>, and the result of \<^verbatim>\<open>findMetaFiles\<close> that
  holds some of them.\<close>

definition livery_carcols_file :: "string \<Rightarrow> meta_file" where
  "livery_carcols_file v =
     \<lparr>path = ''build/meta/b/carcols.meta'', contents = kits_document [[kit_item ''livery'' v]]\<rparr>"

definition partly_broken_file :: meta_file where
  "partly_broken_file =
     \<lparr>path = ''build/meta/a/carcols.meta'',
      contents = kits_document
        [[kit_item ''first'' ''10''],
         [kit_item ''a'' ''42'', bare_kit_item ''b'', kit_item ''c'' ''7''],
         [kit_item ''last'' ''99'']]\<rparr>"

definition mixed_carcols_file :: meta_file where
  "mixed_carcols_file =
     \<lparr>path = ''build/meta/c/carcols.meta'',
      contents = kits_document
        [[kit_item ''a'' ''42'', unnamed_item ''9'', bare_kit_item ''b'', kit_item ''c'' ''7'']]\<rparr>"

definition kitless_carcols_file :: meta_file where
  "kitless_carcols_file =
     \<lparr>path = ''build/meta/d/carcols.meta'',
      contents = JObj [(''CVehicleModelInfoVarGlobal'', JObj [(''Sirens'', JArr [JStr ''none''])])]\<rparr>"

definition valueless_carcols_file :: meta_file where
  "valueless_carcols_file =
     \<lparr>path = ''build/meta/e/carcols.meta'', contents = kits_document [[valueless_kit_item ''k'']]\<rparr>"

definition txdless_vehicles_file :: "string \<Rightarrow> meta_file" where
  "txdless_vehicles_file name =
     \<lparr>path = ''build/meta/vehicles.meta'',
      contents = vehicles_document [vehicle_item_without_txd name]\<rparr>"

definition mismatch_meta_data :: meta_data where
  "mismatch_meta_data =
     \<lparr>vehicles = [txdless_vehicles_file ''OldCar''], carvariations = [nameless_variations_file],
      carcols = [partly_broken_file, kitless_carcols_file, livery_carcols_file ''42'']\<rparr>"

text \<open>An item whose identifier, in lower case, is neither a key of the mapping nor an
  inherited member; and the effect of \<^verbatim>\<open>array[0] = v\<close> on the elements of an array.\<close>

definition unmapped :: "(string \<times> string) list \<Rightarrow> jsval \<Rightarrow> bool" where
  "unmapped spawnCodes item =
     (case read_path model_name item of
        Inr (JStr name) \<Rightarrow>
          (case plain_get spawnCodes (map lower_char name) of Absent \<Rightarrow> True | _ \<Rightarrow> False)
      | _ \<Rightarrow> False)"

definition with_first :: "jsval \<Rightarrow> jsval list \<Rightarrow> jsval list" where
  "with_first v xs = (case xs of [] \<Rightarrow> [v] | x # rest \<Rightarrow> v # rest)"

section \<open>Verification: the Code Generator\<close>

subsection \<open>Decimal numerals\<close>

lemma digit_is_digit: "d < 10 \<Longrightarrow> is_digit (digit d)"
  by (simp add: digit_def is_digit_def)

lemma digit_inj: "d < 10 \<Longrightarrow> e < 10 \<Longrightarrow> digit d = digit e \<Longrightarrow> d = e"
proof -
  assume d: "d < 10" and e: "e < 10" and eq: "digit d = digit e"
  from eq have "(of_char (digit d) :: nat) = of_char (digit e)" by simp
  with d e show "d = e" by (simp add: digit_def)
qed

lemma number_to_string_nonempty: "number_to_string n \<noteq> []"
  by (subst number_to_string.simps) simp

lemma number_to_string_digits: "c \<in> set (number_to_string n) \<Longrightarrow> is_digit c"
proof (induction n rule: number_to_string.induct)
  case (1 n)
  show ?case
  proof (cases "n < 10")
    case True
    with "1.prems" show ?thesis
      by (subst (asm) number_to_string.simps) (simp add: digit_is_digit)
  next
    case False
    with "1.prems" have "c \<in> set (number_to_string (n div 10)) \<or> c = digit (n mod 10)"
      by (subst (asm) number_to_string.simps) auto
    with False "1.IH" show ?thesis
      by (auto simp: digit_is_digit)
  qed
qed

lemma number_to_string_inj: "number_to_string n = number_to_string m \<Longrightarrow> n = m"
proof (induction n arbitrary: m rule: number_to_string.induct)
  case (1 n)
  show ?case
  proof (cases "n < 10")
    case n: True
    show ?thesis
    proof (cases "m < 10")
      case True
      with n "1.prems" show ?thesis
        by (simp add: number_to_string.simps[of n] number_to_string.simps[of m] digit_inj)
    next
      case False
      with n "1.prems" show ?thesis
        using number_to_string_nonempty[of "m div 10"]
        by (simp add: number_to_string.simps[of n] number_to_string.simps[of m])
    qed
  next
    case n: False
    show ?thesis
    proof (cases "m < 10")
      case True
      with n "1.prems" show ?thesis
        using number_to_string_nonempty[of "n div 10"]
        by (simp add: number_to_string.simps[of n] number_to_string.simps[of m])
    next
      case False
      with n "1.prems" have a: "number_to_string (n div 10) = number_to_string (m div 10)"
        and b: "digit (n mod 10) = digit (m mod 10)"
        by (simp_all add: number_to_string.simps[of n] number_to_string.simps[of m])
      from "1.IH"[OF n a] have "n div 10 = m div 10" .
      moreover from b have "n mod 10 = m mod 10"
        by (intro digit_inj) simp_all
      ultimately show ?thesis
        by (metis div_mult_mod_eq)
    qed
  qed
qed

subsection \<open>The loop follows the numbering rule\<close>

lemma inherited_member_None: "b \<notin> set inherited_keys \<Longrightarrow> inherited_member b = None"
  by (simp add: inherited_member_def inherited_keys_def object_prototype_methods_def)

lemma counters_ok_lookup:
  "counters_ok cs \<Longrightarrow> map_of cs b = Some v \<Longrightarrow> \<exists>n. v = Num (Suc n)"
  by (induction cs) (auto simp: counters_ok_def split: if_splits)

lemma counters_ok_update:
  "counters_ok cs \<Longrightarrow> counters_ok (AList.update b (Num (Suc n)) cs)"
  by (induction cs) (auto simp: counters_ok_def)

lemma next_number_update:
  "next_number (AList.update b (Num n) cs) = (next_number cs)(b := n)"
  by (rule ext) (simp add: next_number_def update_conv')

lemma spawn_loop_numbered:
  assumes "list_all (\<lambda>b. b \<notin> set inherited_keys) (bases es)"
    and "''__proto__'' \<notin> set (map fst es)"
    and "counters_ok cs"
  shows "spawn_loop cs sc es = store_all sc (numbered (next_number cs) es)"
  using assms
proof (induction es arbitrary: cs sc)
  case Nil
  show ?case by (simp add: store_all_def)
next
  case (Cons ve es)
  obtain vehicle entry where ve: "ve = (vehicle, entry)" by (cases ve)
  define b where "b = strip_marker (code entry)"
  from Cons.prems ve have clean: "b \<notin> set inherited_keys" and v: "vehicle \<noteq> ''__proto__''"
    and rest: "list_all (\<lambda>b. b \<notin> set inherited_keys) (bases es)" "''__proto__'' \<notin> set (map fst es)"
    by (auto simp: bases_def b_def)
  from clean have bp: "b \<noteq> ''__proto__''" by (auto simp: inherited_keys_def)
  note inh = inherited_member_None[OF clean]
  show ?case
  proof (cases "map_of cs b")
    case None
    define cs1 where "cs1 = AList.update b (Num 1) cs"
    have ok2: "counters_ok (AList.update b (Num (Suc 1)) cs1)"
      unfolding cs1_def using Cons.prems(3) counters_ok_update by (metis One_nat_def)
    have nn: "next_number (AList.update b (Num (Suc 1)) cs1) = (next_number cs)(b := Suc (next_number cs b))"
      using None by (simp add: next_number_update cs1_def) (simp add: next_number_def)
    have n1: "next_number cs b = 1" using None by (simp add: next_number_def)
    have "spawn_loop cs sc (ve # es)
        = spawn_loop (AList.update b (Num (Suc 1)) cs1) (AList.update vehicle (b @ number_to_string 1) sc) es"
      using None inh bp v
      by (simp add: ve b_def[symmetric] plain_get_def falsy_counter_def plain_set_def
          update_conv' counter_to_string_def increment_def Let_def cs1_def)
    also have "\<dots> = store_all (AList.update vehicle (b @ number_to_string 1) sc)
                      (numbered ((next_number cs)(b := Suc (next_number cs b))) es)"
      by (simp only: Cons.IH[OF rest ok2] nn)
    also have "\<dots> = store_all sc (numbered (next_number cs) (ve # es))"
      by (simp add: ve b_def[symmetric] Let_def store_all_def n1)
    finally show ?thesis .
  next
    case (Some c)
    with Cons.prems(3) obtain n where c: "c = Num (Suc n)"
      using counters_ok_lookup by blast
    have ok2: "counters_ok (AList.update b (Num (Suc (Suc n))) cs)"
      using Cons.prems(3) counters_ok_update by blast
    have n1: "next_number cs b = Suc n" using Some c by (simp add: next_number_def)
    have nn: "next_number (AList.update b (Num (Suc (Suc n))) cs) = (next_number cs)(b := Suc (next_number cs b))"
      by (simp add: next_number_update n1)
    have "spawn_loop cs sc (ve # es)
        = spawn_loop (AList.update b (Num (Suc (Suc n))) cs) (AList.update vehicle (b @ number_to_string (Suc n)) sc) es"
      using Some c bp v
      by (simp add: ve b_def[symmetric] plain_get_def falsy_counter_def plain_set_def
          counter_to_string_def increment_def Let_def)
    also have "\<dots> = store_all (AList.update vehicle (b @ number_to_string (Suc n)) sc)
                      (numbered ((next_number cs)(b := Suc (next_number cs b))) es)"
      by (simp only: Cons.IH[OF rest ok2] nn)
    also have "\<dots> = store_all sc (numbered (next_number cs) (ve # es))"
      by (simp add: ve b_def[symmetric] Let_def store_all_def n1)
    finally show ?thesis .
  qed
qed

lemma numbered_keys: "map fst (numbered nxt es) = map fst es"
  by (induction es arbitrary: nxt) (auto simp: Let_def)

lemma store_all_distinct:
  "distinct (map fst (sc @ kvs)) \<Longrightarrow> store_all sc kvs = sc @ kvs"
proof (induction kvs arbitrary: sc)
  case Nil
  show ?case by (simp add: store_all_def)
next
  case (Cons kv kvs)
  obtain k v where kv: "kv = (k, v)" by (cases kv)
  from Cons.prems kv have "k \<notin> fst ` set sc" by auto
  then have u: "AList.update k v sc = sc @ [(k, v)]"
    by (induction sc) auto
  from Cons.prems kv have "distinct (map fst ((sc @ [(k, v)]) @ kvs))" by simp
  from Cons.IH[OF this] show ?case
    by (simp add: kv store_all_def u)
qed

lemma autoIncrementSpawnCodes_numbered:
  assumes "shadow_free es" and "distinct (map fst es)"
  shows "autoIncrementSpawnCodes es = numbered (\<lambda>b. 1) es"
proof -
  have "counters_ok []" by (simp add: counters_ok_def)
  moreover have "next_number [] = (\<lambda>b. 1)" by (rule ext) (simp add: next_number_def)
  ultimately have "autoIncrementSpawnCodes es = store_all [] (numbered (\<lambda>b. 1) es)"
    using assms(1) spawn_loop_numbered[of es "[]" "[]"]
    by (simp add: autoIncrementSpawnCodes_def shadow_free_def)
  also have "\<dots> = numbered (\<lambda>b. 1) es"
    using store_all_distinct[of "[]" "numbered (\<lambda>b. 1) es"] assms(2)
    by (simp add: numbered_keys)
  finally show ?thesis .
qed

lemma numbered_tickets:
  "map snd (numbered nxt es) = map (\<lambda>(b, k). b @ number_to_string k) (tickets nxt es)"
  by (induction es arbitrary: nxt) (auto simp: Let_def)

lemma tickets_bases: "map fst (tickets nxt es) = bases es"
  by (induction es arbitrary: nxt) (auto simp: Let_def bases_def)

lemma tickets_lower: "(b, k) \<in> set (tickets nxt es) \<Longrightarrow> nxt b \<le> k"
proof (induction es arbitrary: nxt)
  case Nil
  then show ?case by simp
next
  case (Cons ve es)
  obtain vehicle entry where ve: "ve = (vehicle, entry)" by (cases ve)
  from Cons.prems ve consider "b = strip_marker (code entry) \<and> k = nxt b"
    | "(b, k) \<in> set (tickets (nxt(strip_marker (code entry) := Suc (nxt (strip_marker (code entry))))) es)"
    by (auto simp: Let_def)
  then show ?case
  proof cases
    case 1
    then show ?thesis by simp
  next
    case 2
    from Cons.IH[OF 2] show ?thesis by (simp split: if_splits)
  qed
qed

lemma tickets_distinct: "distinct (tickets nxt es)"
proof (induction es arbitrary: nxt)
  case Nil
  show ?case by simp
next
  case (Cons ve es)
  obtain vehicle entry where ve: "ve = (vehicle, entry)" by (cases ve)
  define b where "b = strip_marker (code entry)"
  have "(b, nxt b) \<notin> set (tickets (nxt(b := Suc (nxt b))) es)"
    using tickets_lower[of b "nxt b" "nxt(b := Suc (nxt b))" es] by auto
  with Cons.IH show ?case
    by (simp add: ve Let_def b_def[symmetric])
qed

lemma tickets_group:
  "map snd (filter (\<lambda>(b', k). b' = b) (tickets nxt es))
     = [nxt b ..< nxt b + count_list (bases es) b]"
proof (induction es arbitrary: nxt)
  case Nil
  show ?case by (simp add: bases_def)
next
  case (Cons ve es)
  obtain vehicle entry where ve: "ve = (vehicle, entry)" by (cases ve)
  show ?case
  proof (cases "strip_marker (code entry) = b")
    case True
    have ih: "map snd (filter (\<lambda>(b', k). b' = b) (tickets (nxt(b := Suc (nxt b))) es))
        = [Suc (nxt b) ..< Suc (nxt b) + count_list (bases es) b]"
      using Cons.IH[of "nxt(b := Suc (nxt b))"] by (simp only: fun_upd_same)
    have c: "count_list (bases (ve # es)) b = Suc (count_list (bases es) b)"
      using True by (simp add: ve bases_def)
    have "map snd (filter (\<lambda>(b', k). b' = b) (tickets nxt (ve # es)))
        = nxt b # [Suc (nxt b) ..< Suc (nxt b) + count_list (bases es) b]"
      using True ih by (simp add: ve Let_def)
    also have "\<dots> = [nxt b ..< nxt b + count_list (bases (ve # es)) b]"
      unfolding c by (simp add: upt_conv_Cons)
    finally show ?thesis .
  next
    case False
    define b0 where "b0 = strip_marker (code entry)"
    from False have ne: "b0 \<noteq> b" by (simp add: b0_def)
    then have ih: "map snd (filter (\<lambda>(b', k). b' = b) (tickets (nxt(b0 := Suc (nxt b0))) es))
        = [nxt b ..< nxt b + count_list (bases es) b]"
      using Cons.IH[of "nxt(b0 := Suc (nxt b0))"] by (simp only: fun_upd_other[OF ne[symmetric]])
    have c: "count_list (bases (ve # es)) b = count_list (bases es) b"
      using ne by (simp add: ve bases_def b0_def)
    have "map snd (filter (\<lambda>(b', k). b' = b) (tickets nxt (ve # es)))
        = map snd (filter (\<lambda>(b', k). b' = b) (tickets (nxt(b0 := Suc (nxt b0))) es))"
      using ne by (simp add: ve Let_def b0_def)
    then show ?thesis
      by (simp only: ih c)
  qed
qed

lemma render_collision:
  assumes "b1 @ number_to_string k1 = b2 @ number_to_string k2" and "b1 \<noteq> b2"
  shows "(b1 \<noteq> [] \<and> is_digit (last b1)) \<or> (b2 \<noteq> [] \<and> is_digit (last b2))"
proof -
  from assms(1) obtain us where
    "(b1 = b2 @ us \<and> us @ number_to_string k1 = number_to_string k2)
     \<or> (b1 @ us = b2 \<and> number_to_string k1 = us @ number_to_string k2)"
    by (auto simp: append_eq_append_conv2)
  then show ?thesis
  proof
    assume h: "b1 = b2 @ us \<and> us @ number_to_string k1 = number_to_string k2"
    with assms(2) have ne: "us \<noteq> []" by auto
    then have "last us \<in> set (number_to_string k2)"
      using h by (metis Un_iff last_in_set set_append)
    then have "is_digit (last us)" by (rule number_to_string_digits)
    with h ne show ?thesis by simp
  next
    assume h: "b1 @ us = b2 \<and> number_to_string k1 = us @ number_to_string k2"
    with assms(2) have ne: "us \<noteq> []" by auto
    then have "last us \<in> set (number_to_string k1)"
      using h by (metis Un_iff last_in_set set_append)
    then have "is_digit (last us)" by (rule number_to_string_digits)
    with h ne show ?thesis by auto
  qed
qed

lemma render_inj_on_tickets:
  assumes "list_all (\<lambda>b. \<not> ends_in_digit b) (map fst ts)" and "distinct ts"
  shows "distinct (map (\<lambda>(b, k). b @ number_to_string k) ts)"
proof -
  have "inj_on (\<lambda>(b, k). b @ number_to_string k) (set ts)"
  proof (rule inj_onI)
    fix x y assume x: "x \<in> set ts" and y: "y \<in> set ts"
      and eq: "(case x of (b, k) \<Rightarrow> b @ number_to_string k) = (case y of (b, k) \<Rightarrow> b @ number_to_string k)"
    obtain b1 k1 b2 k2 where xy: "x = (b1, k1)" "y = (b2, k2)" by (cases x, cases y)
    from x y xy assms(1) have nd: "\<not> ends_in_digit b1" "\<not> ends_in_digit b2"
      by (auto simp: list_all_iff)
    from eq xy have e: "b1 @ number_to_string k1 = b2 @ number_to_string k2" by simp
    have "b1 = b2"
      using render_collision[OF e] nd by (auto simp: ends_in_digit_def)
    with e have "k1 = k2" by (simp add: number_to_string_inj)
    with \<open>b1 = b2\<close> xy show "x = y" by simp
  qed
  with assms(2) show ?thesis by (simp add: distinct_map)
qed

lemma numbered_group:
  "map (snd \<circ> snd) (filter (\<lambda>(b', kv). b' = b) (zip (bases es) (numbered nxt es)))
     = map (\<lambda>k. b @ number_to_string k) [nxt b ..< nxt b + count_list (bases es) b]"
proof (induction es arbitrary: nxt)
  case Nil
  show ?case by (simp add: bases_def)
next
  case (Cons ve es)
  obtain vehicle entry where ve: "ve = (vehicle, entry)" by (cases ve)
  define b0 where "b0 = strip_marker (code entry)"
  have step: "zip (bases (ve # es)) (numbered nxt (ve # es))
      = (b0, (vehicle, b0 @ number_to_string (nxt b0)))
          # zip (bases es) (numbered (nxt(b0 := Suc (nxt b0))) es)"
    by (simp add: ve bases_def Let_def b0_def)
  show ?case
  proof (cases "b0 = b")
    case True
    have ih: "map (snd \<circ> snd) (filter (\<lambda>(b', kv). b' = b) (zip (bases es) (numbered (nxt(b := Suc (nxt b))) es)))
        = map (\<lambda>k. b @ number_to_string k) [Suc (nxt b) ..< Suc (nxt b) + count_list (bases es) b]"
      using Cons.IH[of "nxt(b := Suc (nxt b))"] by (simp only: fun_upd_same)
    have c: "count_list (bases (ve # es)) b = Suc (count_list (bases es) b)"
      using True by (simp add: ve bases_def b0_def)
    have "map (snd \<circ> snd) (filter (\<lambda>(b', kv). b' = b) (zip (bases (ve # es)) (numbered nxt (ve # es))))
        = (b @ number_to_string (nxt b))
            # map (\<lambda>k. b @ number_to_string k) [Suc (nxt b) ..< Suc (nxt b) + count_list (bases es) b]"
      unfolding step using True ih by simp
    also have "\<dots> = map (\<lambda>k. b @ number_to_string k) [nxt b ..< nxt b + count_list (bases (ve # es)) b]"
    proof -
      have "[nxt b ..< nxt b + Suc (count_list (bases es) b)]
          = nxt b # [Suc (nxt b) ..< Suc (nxt b) + count_list (bases es) b]"
        by (simp add: upt_conv_Cons)
      then show ?thesis unfolding c by simp
    qed
    finally show ?thesis .
  next
    case False
    then have ih: "map (snd \<circ> snd) (filter (\<lambda>(b', kv). b' = b) (zip (bases es) (numbered (nxt(b0 := Suc (nxt b0))) es)))
        = map (\<lambda>k. b @ number_to_string k) [nxt b ..< nxt b + count_list (bases es) b]"
      using Cons.IH[of "nxt(b0 := Suc (nxt b0))"] by (simp only: fun_upd_other[OF False[symmetric]])
    have c: "count_list (bases (ve # es)) b = count_list (bases es) b"
      using False by (simp add: ve bases_def b0_def)
    have "map (snd \<circ> snd) (filter (\<lambda>(b', kv). b' = b) (zip (bases (ve # es)) (numbered nxt (ve # es))))
        = map (snd \<circ> snd) (filter (\<lambda>(b', kv). b' = b) (zip (bases es) (numbered (nxt(b0 := Suc (nxt b0))) es)))"
      unfolding step using False by simp
    then show ?thesis by (simp only: ih c)
  qed
qed

text \<open>
  On a manifest whose base keys and vehicle names meet no inherited member, the generator
  is the numbering rule: the entries keep their order, and the codes of the entries of one
  base key \<open>b\<close> are \<open>b1, b2, ...\<close> up to the number of such entries.
\<close>

lemma generator_follows_rule:
  assumes "shadow_free es" and "distinct (map fst es)"
  shows "autoIncrementSpawnCodes es = numbered (\<lambda>b. 1) es
       \<and> map fst (autoIncrementSpawnCodes es) = map fst es
       \<and> codes_of_group b es
           = map (\<lambda>k. b @ number_to_string k) [1 ..< Suc (count_list (bases es) b)]"
proof -
  note eq = autoIncrementSpawnCodes_numbered[OF assms]
  have "codes_of_group b es
      = map (\<lambda>k. b @ number_to_string k) [1 ..< 1 + count_list (bases es) b]"
    unfolding codes_of_group_def eq by (rule numbered_group)
  then show ?thesis
    by (simp add: eq numbered_keys)
qed

text \<open>
  Claim C1 (every manifest; the counter of a group starts at 1). The table of counters is an
  object literal, so for the base key \<^verbatim>\<open>constructor\<close> the test \<^verbatim>\<open>!counters[base]\<close> sees
  the inherited function \<^verbatim>\<open>Object\<close>, the counter is not set to 1, and the first code of
  the group is the base key followed by the text of that function instead of
  \<^verbatim>\<open>constructor1\<close>.
\<close>

theorem autoIncrementSpawnCodes_inherited_counter:
  "autoIncrementSpawnCodes [(''car'', \<lparr>code = ''constructor#'', data = ''sedan''\<rparr>)]
     = [(''car'', ''constructorfunction Object() { [native code] }'')]"
  by (simp add: autoIncrementSpawnCodes_def strip_marker_def plain_get_def plain_set_def
      inherited_member_def falsy_counter_def counter_to_string_def increment_def)

text \<open>
  Claim C2 as stated (the codes of all entries are pairwise distinct, across groups too)
  fails: the eleventh entry of group \<^verbatim>\<open>A\<close> and the first entry of group \<^verbatim>\<open>A1\<close> both
  receive \<^verbatim>\<open>A11\<close>.
\<close>

theorem spawn_codes_collide:
  "distinct (map fst twelve) \<and> shadow_free twelve
   \<and> map_of (autoIncrementSpawnCodes twelve) ''v11'' = Some ''A11''
   \<and> map_of (autoIncrementSpawnCodes twelve) ''w'' = Some ''A11''
   \<and> \<not> distinct (map snd (autoIncrementSpawnCodes twelve))"
  by code_simp


text \<open>
  Claim C2, amended. On a manifest that meets no inherited member: two entries of the same
  base key never receive the same code, and when no base key ends in a decimal digit the
  codes of all entries are pairwise distinct.
\<close>

theorem spawn_codes_distinct:
  assumes "shadow_free es" and "distinct (map fst es)"
  shows "(\<forall>i j. i < j \<and> j < length es \<and> bases es ! i = bases es ! j
            \<longrightarrow> map snd (autoIncrementSpawnCodes es) ! i \<noteq> map snd (autoIncrementSpawnCodes es) ! j)
       \<and> (list_all (\<lambda>b. \<not> ends_in_digit b) (bases es)
            \<longrightarrow> distinct (map snd (autoIncrementSpawnCodes es)))"
proof -
  define ts where "ts = tickets (\<lambda>b. 1) es"
  have codes: "map snd (autoIncrementSpawnCodes es) = map (\<lambda>(b, k). b @ number_to_string k) ts"
    unfolding ts_def autoIncrementSpawnCodes_numbered[OF assms] by (rule numbered_tickets)
  have fst_ts: "map fst ts = bases es" unfolding ts_def by (rule tickets_bases)
  have len: "length ts = length es"
    using fst_ts by (metis bases_def length_map)
  have dist: "distinct ts" unfolding ts_def by (rule tickets_distinct)
  have within: "map snd (autoIncrementSpawnCodes es) ! i \<noteq> map snd (autoIncrementSpawnCodes es) ! j"
    if ij: "i < j" "j < length es" and same: "bases es ! i = bases es ! j" for i j
  proof
    assume eq: "map snd (autoIncrementSpawnCodes es) ! i = map snd (autoIncrementSpawnCodes es) ! j"
    obtain b1 k1 where t1: "ts ! i = (b1, k1)" by (cases "ts ! i")
    obtain b2 k2 where t2: "ts ! j = (b2, k2)" by (cases "ts ! j")
    from ij len have li: "i < length ts" and lj: "j < length ts" by simp_all
    have "b1 = fst (ts ! i)" "b2 = fst (ts ! j)" using t1 t2 by simp_all
    then have "b1 = map fst ts ! i" "b2 = map fst ts ! j" using li lj by simp_all
    with same fst_ts have b: "b1 = b2" by simp
    from eq codes li lj t1 t2 have "b1 @ number_to_string k1 = b2 @ number_to_string k2"
      by simp
    with b have "k1 = k2" by (simp add: number_to_string_inj)
    with b t1 t2 have "ts ! i = ts ! j" by simp
    with dist li lj ij(1) show False
      by (simp add: nth_eq_iff_index_eq)
  qed
  have across: "distinct (map snd (autoIncrementSpawnCodes es))"
    if "list_all (\<lambda>b. \<not> ends_in_digit b) (bases es)"
    unfolding codes using that dist fst_ts by (intro render_inj_on_tickets) simp_all
  from within across show ?thesis by blast
qed

theorem spawn_codes_distinct_witness:
  "shadow_free two_cars \<and> distinct (map fst two_cars)
   \<and> list_all (\<lambda>b. \<not> ends_in_digit b) (bases two_cars)
   \<and> map snd (autoIncrementSpawnCodes two_cars) = [''XYZ1'', ''XYZ2'']
   \<and> distinct (map snd (autoIncrementSpawnCodes two_cars))"
proof -
  have a: "shadow_free two_cars" by code_simp
  have b: "distinct (map fst two_cars)" by code_simp
  have c: "list_all (\<lambda>b. \<not> ends_in_digit b) (bases two_cars)" by code_simp
  have d: "map snd (autoIncrementSpawnCodes two_cars) = [''XYZ1'', ''XYZ2'']" by code_simp
  from spawn_codes_distinct[OF a b] c have "distinct (map snd (autoIncrementSpawnCodes two_cars))"
    by blast
  with a b c d show ?thesis by blast
qed

section \<open>Verification: the File Renamer\<close>

lemma rename_pattern_job:
  "rename_pattern folder vehicle spawnCode st ext
     = rename_job st (path_join folder (vehicle @ ext), path_join folder (spawnCode @ ext))"
  by (simp add: rename_pattern_def rename_job_def Let_def split: option.split)

lemma renameVehicleFiles_jobs:
  "renameVehicleFiles folder spawnCodes st = foldl rename_job st (rename_jobs folder spawnCodes)"
proof (induction spawnCodes arbitrary: st)
  case Nil
  show ?case by (simp add: renameVehicleFiles_def rename_jobs_def)
next
  case (Cons kv spawnCodes)
  obtain vehicle spawnCode where kv: "kv = (vehicle, spawnCode)" by (cases kv)
  have inner: "foldl (rename_pattern folder vehicle spawnCode) st patterns
      = foldl rename_job st
          (map (\<lambda>ext. (path_join folder (vehicle @ ext), path_join folder (spawnCode @ ext))) patterns)"
  proof -
    have "rename_pattern folder vehicle spawnCode
        = (\<lambda>st1 ext. rename_job st1 (path_join folder (vehicle @ ext), path_join folder (spawnCode @ ext)))"
      by (intro ext) (rule rename_pattern_job)
    then show ?thesis by (simp add: foldl_map)
  qed
  have "renameVehicleFiles folder (kv # spawnCodes) st
      = renameVehicleFiles folder spawnCodes (foldl (rename_pattern folder vehicle spawnCode) st patterns)"
    by (simp add: renameVehicleFiles_def kv)
  also have "\<dots> = foldl rename_job (foldl (rename_pattern folder vehicle spawnCode) st patterns)
                     (rename_jobs folder spawnCodes)"
    by (rule Cons.IH)
  also have "\<dots> = foldl rename_job st (rename_jobs folder (kv # spawnCodes))"
    by (simp add: inner rename_jobs_def kv)
  finally show ?case .
qed

lemma jobs_clear_old_names:
  assumes "p \<notin> set (map snd js)" and "fs p = None \<or> p \<in> set (map fst js)"
  shows "fst (foldl rename_job (fs, log) js) p = None"
  using assms
proof (induction js arbitrary: fs log)
  case Nil
  then show ?case by simp
next
  case (Cons job js)
  obtain old new where job: "job = (old, new)" by (cases job)
  from Cons.prems(1) job have pn: "p \<noteq> new" and rest: "p \<notin> set (map snd js)" by auto
  show ?case
  proof (cases "fs old")
    case None
    have "fs p = None \<or> p \<in> set (map fst js)"
      using Cons.prems(2) None job by auto
    with rest have "fst (foldl rename_job (fs, log @ [FileNotFound old]) js) p = None"
      by (rule Cons.IH)
    moreover have "rename_job (fs, log) (old, new) = (fs, log @ [FileNotFound old])"
      using None by (simp add: rename_job_def)
    ultimately show ?thesis
      by (simp add: job)
  next
    case (Some content)
    have "(renameSync old new content fs) p = None \<or> p \<in> set (map fst js)"
      using Cons.prems(2) pn job by (auto simp: renameSync_def)
    with rest have "fst (foldl rename_job (renameSync old new content fs, log @ [Renamed old new]) js) p = None"
      by (rule Cons.IH)
    moreover have "rename_job (fs, log) (old, new)
        = (renameSync old new content fs, log @ [Renamed old new])"
      using Some by (simp add: rename_job_def)
    ultimately show ?thesis
      by (simp add: job)
  qed
qed

lemma jobs_on_missing_files:
  assumes "list_all (\<lambda>job. fs (fst job) = None) js"
  shows "foldl rename_job (fs, log) js = (fs, log @ map (\<lambda>job. FileNotFound (fst job)) js)"
  using assms
  by (induction js arbitrary: log) (simp_all add: rename_job_def)

lemma renames_of_not_found:
  "renames_of (log @ map (\<lambda>job. FileNotFound (fst job)) js) = renames_of log"
  by (induction js) (simp_all add: renames_of_def is_rename_def)

lemma renames_grow:
  "length (renames_of (snd st)) \<le> length (renames_of (snd (foldl rename_job st js)))"
proof (induction js arbitrary: st)
  case Nil
  show ?case by simp
next
  case (Cons job js)
  have "length (renames_of (snd st)) \<le> length (renames_of (snd (rename_job st job)))"
    by (simp add: rename_job_def renames_of_def split: option.splits)
  also have "\<dots> \<le> length (renames_of (snd (foldl rename_job (rename_job st job) js)))"
    by (rule Cons.IH)
  finally show ?case by simp
qed

lemma jobs_rename_nothing_iff:
  "renames_of (snd (foldl rename_job (fs, log) js)) = renames_of log
     \<longleftrightarrow> list_all (\<lambda>job. fs (fst job) = None) js"
proof (induction js arbitrary: log)
  case Nil
  show ?case by simp
next
  case (Cons job js)
  show ?case
  proof (cases "fs (fst job)")
    case None
    then have "rename_job (fs, log) job = (fs, log @ [FileNotFound (fst job)])"
      by (simp add: rename_job_def)
    moreover have "renames_of (log @ [FileNotFound (fst job)]) = renames_of log"
      by (simp add: renames_of_def is_rename_def)
    ultimately show ?thesis
      using Cons.IH[of "log @ [FileNotFound (fst job)]"] None by simp
  next
    case (Some content)
    define st where "st = rename_job (fs, log) job"
    have "length (renames_of (snd st)) = Suc (length (renames_of log))"
      using Some by (simp add: st_def rename_job_def renames_of_def is_rename_def)
    with renames_grow[of st js]
    have "length (renames_of log) < length (renames_of (snd (foldl rename_job st js)))"
      by simp
    then have "renames_of (snd (foldl rename_job st js)) \<noteq> renames_of log" by auto
    with Some show ?thesis by (simp add: st_def)
  qed
qed

lemma renames_nothing_iff:
  "renames_of (snd (renameVehicleFiles folder spawnCodes (fs, []))) = []
     \<longleftrightarrow> list_all (\<lambda>job. fs (fst job) = None) (rename_jobs folder spawnCodes)"
  using jobs_rename_nothing_iff[of fs "[]" "rename_jobs folder spawnCodes"]
  by (simp add: renameVehicleFiles_jobs renames_of_def)

text \<open>
  Claim C8, amended. Let the identifiers and the codes be file names (no path separator),
  so that every path the renamer builds lies directly in the stream folder. When no path
  it creates (the folder joined with a new code and a suffix) is a path it looks for (the
  folder joined with an original identifier and a suffix), no file named with an original
  identifier and a suffix exists after the first run, and a second run on the files the
  first run left performs no rename and leaves the files as they are. In general a run
  performs no rename exactly when none of the paths it looks for exists
  (\<open>renames_nothing_iff\<close>).
\<close>

theorem second_run_renames_nothing:
  assumes "file_names spawnCodes" and "names_apart folder spawnCodes"
  shows "list_all (\<lambda>job. fst (renameVehicleFiles folder spawnCodes (fs, log)) (fst job) = None)
           (rename_jobs folder spawnCodes)
       \<and> renames_of (snd (renameVehicleFiles folder spawnCodes
                            (fst (renameVehicleFiles folder spawnCodes (fs, log)), []))) = []
       \<and> fst (renameVehicleFiles folder spawnCodes
                 (fst (renameVehicleFiles folder spawnCodes (fs, log)), []))
           = fst (renameVehicleFiles folder spawnCodes (fs, log))"
proof -
  define js where "js = rename_jobs folder spawnCodes"
  define fs1 where "fs1 = fst (foldl rename_job (fs, log) js)"
  have gone: "list_all (\<lambda>job. fs1 (fst job) = None) js"
    unfolding list_all_iff
  proof
    fix job assume j: "job \<in> set js"
    then have "fst job \<in> set (map fst js)" by simp
    moreover from this assms(2) have "fst job \<notin> set (map snd js)"
      unfolding names_apart_def js_def by blast
    ultimately show "fs1 (fst job) = None"
      unfolding fs1_def by (intro jobs_clear_old_names) simp_all
  qed
  have "foldl rename_job (fs1, []) js = (fs1, [] @ map (\<lambda>job. FileNotFound (fst job)) js)"
    using gone by (rule jobs_on_missing_files)
  moreover have "renames_of ([] @ map (\<lambda>job. FileNotFound (fst job)) js) = renames_of []"
    by (rule renames_of_not_found)
  ultimately show ?thesis
    using gone
    by (simp add: renameVehicleFiles_jobs js_def[symmetric] fs1_def[symmetric] renames_of_def)
qed


theorem second_run_renames_nothing_witness:
  "file_names oldcar_codes \<and> names_apart streamFolder oldcar_codes
   \<and> renames_of (snd (renameVehicleFiles streamFolder oldcar_codes
                         (Map.empty(''build/stream/oldcar.yft'' \<mapsto> ''model''), [])))
       = [Renamed ''build/stream/oldcar.yft'' ''build/stream/ABC1.yft'']
   \<and> fst (renameVehicleFiles streamFolder oldcar_codes
            (Map.empty(''build/stream/oldcar.yft'' \<mapsto> ''model''), [])) ''build/stream/oldcar.yft''
       = None
   \<and> renames_of (snd (renameVehicleFiles streamFolder oldcar_codes
                         (fst (renameVehicleFiles streamFolder oldcar_codes
                                 (Map.empty(''build/stream/oldcar.yft'' \<mapsto> ''model''), [])), [])))
       = []"
proof -
  have f: "file_names oldcar_codes" by code_simp
  have a: "names_apart streamFolder oldcar_codes" by code_simp
  have b: "renames_of (snd (renameVehicleFiles streamFolder oldcar_codes
                         (Map.empty(''build/stream/oldcar.yft'' \<mapsto> ''model''), [])))
       = [Renamed ''build/stream/oldcar.yft'' ''build/stream/ABC1.yft'']" by code_simp
  have j: "(''build/stream/oldcar.yft'', ''build/stream/ABC1.yft'')
             \<in> set (rename_jobs streamFolder oldcar_codes)" by code_simp
  note t = second_run_renames_nothing[OF f a,
      of "Map.empty(''build/stream/oldcar.yft'' \<mapsto> ''model'')" "[]"]
  from t j have c: "fst (renameVehicleFiles streamFolder oldcar_codes
            (Map.empty(''build/stream/oldcar.yft'' \<mapsto> ''model''), [])) ''build/stream/oldcar.yft''
       = None"
    unfolding list_all_iff by fastforce
  from t have d: "renames_of (snd (renameVehicleFiles streamFolder oldcar_codes
                         (fst (renameVehicleFiles streamFolder oldcar_codes
                                 (Map.empty(''build/stream/oldcar.yft'' \<mapsto> ''model''), [])), [])))
       = []" by blast
  from f a b c d show ?thesis by (intro conjI)
qed

text \<open>
  Claim C8 as stated (for every mapping and every file set) fails. The manifest lists
  \<^verbatim>\<open>b1\<close> with prefix \<^verbatim>\<open>c#\<close> before \<^verbatim>\<open>a\<close> with prefix \<^verbatim>\<open>b#\<close>, and the folder holds
  \<^verbatim>\<open>a.yft\<close>. The first run renames it to \<^verbatim>\<open>b1.yft\<close>, the name of an original identifier,
  so the second run finds that file and renames it to \<^verbatim>\<open>c1.yft\<close>.
\<close>

theorem second_run_renames_again:
  "autoIncrementSpawnCodes swap_manifest = [(''b1'', ''c1''), (''a'', ''b1'')]
   \<and> renames_of (snd (renameVehicleFiles streamFolder (autoIncrementSpawnCodes swap_manifest)
                         (one_asset, [])))
       = [Renamed ''build/stream/a.yft'' ''build/stream/b1.yft'']
   \<and> renames_of (snd (renameVehicleFiles streamFolder (autoIncrementSpawnCodes swap_manifest)
                         (fst (renameVehicleFiles streamFolder
                                 (autoIncrementSpawnCodes swap_manifest) (one_asset, [])), [])))
       = [Renamed ''build/stream/b1.yft'' ''build/stream/c1.yft'']"
  by code_simp

section \<open>Verification: access paths into a document\<close>

lemma read_step_from_container:
  assumes "read_step s v = Inr c" and "container c"
  shows "container v"
  using assms by (cases s; cases v) (auto simp: container_def split: option.splits list.splits)

lemma read_path_from_container:
  assumes "read_path ps v = Inr t" and "container t"
  shows "container v"
  using assms
proof (induction ps arbitrary: v)
  case Nil
  then show ?case by simp
next
  case (Cons s ps)
  then obtain c where c: "read_step s v = Inr c" and r: "read_path ps c = Inr t"
    by (auto split: sum.splits)
  from Cons.IH[OF r Cons.prems(2)] have "container c" .
  with c show ?case by (rule read_step_from_container)
qed

lemma read_after_write_step:
  assumes "read_step s v = Inr c" and "container c"
  shows "read_step s (write_step s v c') = Inr c'"
proof (cases s)
  case (Prop k)
  show ?thesis
  proof (cases v)
    case (JObj kvs)
    with assms Prop obtain x where "map_of kvs k = Some x"
      by (cases "map_of kvs k") (auto simp: container_def)
    with JObj Prop show ?thesis by (simp add: update_conv')
  qed (use assms Prop in \<open>auto simp: container_def\<close>)
next
  case First
  show ?thesis
  proof (cases v)
    case (JObj kvs)
    with assms First obtain x where "map_of kvs ''0'' = Some x"
      by (cases "map_of kvs ''0''") (auto simp: container_def)
    with JObj First show ?thesis by (simp add: update_conv')
  next
    case (JArr xs)
    with assms First show ?thesis
      by (cases xs) (auto simp: container_def)
  qed (use assms First in \<open>auto simp: container_def split: list.splits\<close>)
qed

lemma read_step_error: "read_step s v = Inl e \<Longrightarrow> e = TypeError"
  by (cases s; cases v) auto

lemma read_path_error: "read_path ps v = Inl e \<Longrightarrow> e = TypeError"
proof (induction ps arbitrary: v)
  case Nil
  then show ?case by simp
next
  case (Cons s ps)
  then show ?case
    by (cases "read_step s v") (auto dest: read_step_error)
qed

lemma at_path_error:
  "read_path ps v = Inl e \<Longrightarrow> snd (at_path ps f v) = Some e"
proof (induction ps arbitrary: v)
  case Nil
  then show ?case by simp
next
  case (Cons s ps)
  show ?case
  proof (cases "read_step s v")
    case (Inl e')
    with Cons.prems show ?thesis by simp
  next
    case (Inr c)
    with Cons.prems have "read_path ps c = Inl e" by simp
    from Cons.IH[OF this] Inr show ?thesis
      by (auto split: prod.splits)
  qed
qed

lemma at_path_result:
  "read_path ps v = Inr t \<Longrightarrow> snd (at_path ps f v) = snd (f t)"
proof (induction ps arbitrary: v)
  case Nil
  then show ?case by simp
next
  case (Cons s ps)
  then obtain c where c: "read_step s v = Inr c" and r: "read_path ps c = Inr t"
    by (auto split: sum.splits)
  from Cons.IH[OF r] c show ?case
    by (auto split: prod.splits)
qed

lemma read_after_at_path:
  assumes "read_path ps v = Inr t" and "container t"
  shows "read_path ps (fst (at_path ps f v)) = Inr (fst (f t))"
  using assms
proof (induction ps arbitrary: v)
  case Nil
  then show ?case by simp
next
  case (Cons s ps)
  then obtain c where c: "read_step s v = Inr c" and r: "read_path ps c = Inr t"
    by (auto split: sum.splits)
  have cc: "container c" using r Cons.prems(2) by (rule read_path_from_container)
  have "fst (at_path (s # ps) f v) = write_step s v (fst (at_path ps f c))"
    using c by (simp split: prod.splits)
  moreover have "read_step s (write_step s v (fst (at_path ps f c))) = Inr (fst (at_path ps f c))"
    using c cc by (rule read_after_write_step)
  ultimately show ?case
    using Cons.IH[OF r Cons.prems(2)] by simp
qed

lemma container_not_nullish: "container v \<Longrightarrow> \<not> nullish v"
  by (auto simp: container_def nullish_def)

lemma at_path_optional_eq:
  assumes "read_path ps v = Inr t" and "container t"
  shows "at_path_optional ps f v = at_path ps f v"
  using assms
proof (induction ps arbitrary: v)
  case Nil
  then show ?case by simp
next
  case (Cons s ps)
  then obtain c where c: "read_step s v = Inr c" and r: "read_path ps c = Inr t"
    by (auto split: sum.splits)
  have "container v" using Cons.prems by (rule read_path_from_container)
  then have "\<not> nullish v" by (rule container_not_nullish)
  with c Cons.IH[OF r Cons.prems(2)] show ?case by simp
qed

lemma at_path_optional_no_read_error:
  "\<exists>t. snd (at_path_optional ps f v) = None \<or> snd (at_path_optional ps f v) = snd (f t)"
proof (induction ps arbitrary: v)
  case Nil
  show ?case by auto
next
  case (Cons s ps)
  show ?case
  proof (cases "nullish v")
    case True
    then show ?thesis by simp
  next
    case False
    then obtain c where c: "read_step s v = Inr c"
      by (cases s; cases v) (auto simp: nullish_def)
    from Cons.IH[of c] obtain t where
      "snd (at_path_optional ps f c) = None \<or> snd (at_path_optional ps f c) = snd (f t)" by blast
    with False c show ?thesis
      by (auto split: prod.splits)
  qed
qed

lemma read_path_append:
  "read_path (ps @ qs) v = (case read_path ps v of Inl e \<Rightarrow> Inl e | Inr t \<Rightarrow> read_path qs t)"
  by (induction ps arbitrary: v) (auto split: sum.splits)

lemma forEach_list_all_ok:
  "list_all (\<lambda>x. snd (callback x) = None) xs
     \<Longrightarrow> forEach_list callback xs = (map (\<lambda>x. fst (callback x)) xs, None)"
  by (induction xs) (auto split: prod.splits option.splits)

lemma forEach_list_stops:
  "list_all (\<lambda>x. snd (callback x) = None) xs \<Longrightarrow> snd (callback y) = Some e
     \<Longrightarrow> forEach_list callback (xs @ y # zs)
           = (map (\<lambda>x. fst (callback x)) xs @ fst (callback y) # zs, Some e)"
  by (induction xs) (auto split: prod.splits option.splits)

lemma get_prop_after_at_path:
  "k' \<noteq> k \<Longrightarrow> get_prop (fst (at_path (Prop k # ps) f v)) k' = get_prop v k'"
  by (cases v) (auto split: prod.splits sum.splits simp: update_conv')

lemma is_kit_itemD:
  assumes "is_kit_item item"
  obtains kitName attrs v where "get_prop item ''kitName'' = Inr kitName" "\<not> nullish kitName"
    "read_path kit_id_attributes item = Inr (JObj attrs)" "map_of attrs ''value'' = Some (JStr v)"
  using assms unfolding is_kit_item_def
  by (auto split: sum.splits jsval.splits option.splits)

lemma kit_id_value_append: "kit_id_value = kit_id_attributes @ [Prop ''value'']"
  by (simp add: kit_id_value_def kit_id_attributes_def)

lemma prefix_kit_item_good:
  assumes "is_kit_item item"
  shows "snd (prefix_kit_item prefix item) = None"
    and "is_kit_item (fst (prefix_kit_item prefix item))"
    and "kit_id (fst (prefix_kit_item prefix item)) = map_option ((@) prefix) (kit_id item)"
proof -
  from assms obtain kitName attrs v where kn: "get_prop item ''kitName'' = Inr kitName" "\<not> nullish kitName"
    and at: "read_path kit_id_attributes item = Inr (JObj attrs)"
    and v: "map_of attrs ''value'' = Some (JStr v)"
    by (rule is_kit_itemD)
  have cont: "container (JObj attrs)" by (simp add: container_def)
  obtain ident where ident: "get_prop item ''id'' = Inr ident"
    and rest: "read_path [First, Prop ''$''] ident = Inr (JObj attrs)"
    using at by (auto simp: kit_id_attributes_def split: sum.splits)
  have "container ident" using rest cont by (rule read_path_from_container)
  then have ni: "\<not> nullish ident" by (rule container_not_nullish)
  have old: "read_path kit_id_value item = Inr (JStr v)"
    using at v by (simp add: kit_id_value_append read_path_append)
  define new where "new = JStr ((if prefix = [] then [] else prefix) @ v)"
  define f where "f = assign_prop ''value'' new"
  have f: "f (JObj attrs) = (JObj (AList.update ''value'' new attrs), None)"
    by (simp add: f_def assign_prop_def)
  have eq: "prefix_kit_item prefix item = at_path kit_id_attributes f item"
    using kn ident ni old by (simp add: prefix_kit_item_def f_def new_def)
  show "snd (prefix_kit_item prefix item) = None"
    unfolding eq using at_path_result[OF at, of f] f by simp
  have at': "read_path kit_id_attributes (fst (prefix_kit_item prefix item))
      = Inr (JObj (AList.update ''value'' new attrs))"
    unfolding eq using read_after_at_path[OF at cont, of f] f by simp
  have kn': "get_prop (fst (prefix_kit_item prefix item)) ''kitName'' = Inr kitName"
    unfolding eq kit_id_attributes_def
    using kn(1) get_prop_after_at_path[of "''kitName''" "''id''" "[First, Prop ''$'']" f item]
    by simp
  show "is_kit_item (fst (prefix_kit_item prefix item))"
    unfolding is_kit_item_def using kn' kn(2) at' by (simp add: update_conv' new_def)
  show "kit_id (fst (prefix_kit_item prefix item)) = map_option ((@) prefix) (kit_id item)"
    using at' old by (simp add: kit_id_def kit_id_value_append read_path_append update_conv' new_def)
qed

lemma prefix_kit_item_broken:
  assumes "broken_kit_item item"
  shows "prefix_kit_item prefix item = (item, Some TypeError)"
proof -
  from assms obtain kitName ident e where "get_prop item ''kitName'' = Inr kitName"
    "get_prop item ''id'' = Inr ident" "\<not> nullish kitName" "\<not> nullish ident"
    "read_path kit_id_value item = Inl e"
    unfolding broken_kit_item_def by (auto split: sum.splits)
  moreover from this have "e = TypeError" by (intro read_path_error)
  ultimately show ?thesis by (simp add: prefix_kit_item_def)
qed

section \<open>Verification: modification kits\<close>

lemma prefix_kit_on_items:
  assumes "get_prop kit ''Item'' = Inr (JArr items)"
  shows "snd (prefix_kit prefix kit) = snd (forEach_list (prefix_kit_item prefix) items)"
    and "get_prop (fst (prefix_kit prefix kit)) ''Item''
           = Inr (JArr (fst (forEach_list (prefix_kit_item prefix) items)))"
proof -
  define f where "f = forEach_optional (prefix_kit_item prefix)"
  have r: "read_path [Prop ''Item''] kit = Inr (JArr items)" using assms by simp
  have c: "container (JArr items)" by (simp add: container_def)
  have f: "f (JArr items) = (JArr (fst (forEach_list (prefix_kit_item prefix) items)),
                            snd (forEach_list (prefix_kit_item prefix) items))"
    by (simp add: f_def forEach_optional_def forEach_def nullish_def split: prod.splits)
  show "snd (prefix_kit prefix kit) = snd (forEach_list (prefix_kit_item prefix) items)"
    using at_path_result[OF r, of f] f by (simp add: prefix_kit_def f_def)
  have "read_path [Prop ''Item''] (fst (prefix_kit prefix kit))
      = Inr (JArr (fst (forEach_list (prefix_kit_item prefix) items)))"
    using read_after_at_path[OF r c, of f] f by (simp add: prefix_kit_def f_def)
  then show "get_prop (fst (prefix_kit prefix kit)) ''Item''
           = Inr (JArr (fst (forEach_list (prefix_kit_item prefix) items)))"
    by (simp split: sum.splits)
qed

lemma items_all_good:
  assumes "list_all is_kit_item items"
  shows "forEach_list (prefix_kit_item prefix) items
           = (map (\<lambda>item. fst (prefix_kit_item prefix item)) items, None)"
  using assms
  by (intro forEach_list_all_ok) (simp add: list_all_iff prefix_kit_item_good(1))

lemma prefix_kit_good:
  assumes "good_kit kit"
  shows "snd (prefix_kit prefix kit) = None"
    and "good_kit (fst (prefix_kit prefix kit))"
    and "map kit_id (items_of (fst (prefix_kit prefix kit)))
           = map (map_option ((@) prefix)) (map kit_id (items_of kit))"
proof -
  from assms obtain items where it: "get_prop kit ''Item'' = Inr (JArr items)"
    and good: "list_all is_kit_item items"
    unfolding good_kit_def by (auto split: sum.splits jsval.splits)
  note all = items_all_good[OF good, of prefix]
  show "snd (prefix_kit prefix kit) = None"
    using prefix_kit_on_items(1)[OF it, of prefix] all by simp
  have it': "get_prop (fst (prefix_kit prefix kit)) ''Item''
      = Inr (JArr (map (\<lambda>item. fst (prefix_kit_item prefix item)) items))"
    using prefix_kit_on_items(2)[OF it, of prefix] all by simp
  show "good_kit (fst (prefix_kit prefix kit))"
    unfolding good_kit_def it' using good
    by (simp add: list_all_iff prefix_kit_item_good(2))
  show "map kit_id (items_of (fst (prefix_kit prefix kit)))
           = map (map_option ((@) prefix)) (map kit_id (items_of kit))"
    unfolding items_of_def it it' using good
    by (simp add: list_all_iff prefix_kit_item_good(3))
qed

lemma prefix_kits_on_kits:
  assumes "read_path kits_path carcolData = Inr (JArr kits)"
  shows "snd (prefix_kits prefix carcolData) = snd (forEach_list (prefix_kit prefix) kits)"
    and "read_path kits_path (fst (prefix_kits prefix carcolData))
           = Inr (JArr (fst (forEach_list (prefix_kit prefix) kits)))"
proof -
  define f where "f = forEach_optional (prefix_kit prefix)"
  have c: "container (JArr kits)" by (simp add: container_def)
  have f: "f (JArr kits) = (JArr (fst (forEach_list (prefix_kit prefix) kits)),
                           snd (forEach_list (prefix_kit prefix) kits))"
    by (simp add: f_def forEach_optional_def forEach_def nullish_def split: prod.splits)
  have eq: "prefix_kits prefix carcolData = at_path kits_path f carcolData"
    unfolding prefix_kits_def f_def kits_path_def[symmetric]
    using assms c by (rule at_path_optional_eq)
  show "snd (prefix_kits prefix carcolData) = snd (forEach_list (prefix_kit prefix) kits)"
    unfolding eq using at_path_result[OF assms, of f] f by simp
  show "read_path kits_path (fst (prefix_kits prefix carcolData))
           = Inr (JArr (fst (forEach_list (prefix_kit prefix) kits)))"
    unfolding eq using read_after_at_path[OF assms c, of f] f by simp
qed

lemma prefix_kit_item_skips:
  "skipped_item item \<Longrightarrow> prefix_kit_item prefix item = (item, None)"
  by (auto simp: skipped_item_def prefix_kit_item_def split: sum.splits)

lemma is_kit_item_id:
  assumes "is_kit_item item"
  shows "\<exists>v. kit_id item = Some v"
proof -
  from assms obtain kitName attrs v where
    at: "read_path kit_id_attributes item = Inr (JObj attrs)"
    and v: "map_of attrs ''value'' = Some (JStr v)"
    by (rule is_kit_itemD)
  then have "kit_id item = Some v"
    by (simp add: kit_id_def kit_id_value_append read_path_append)
  then show ?thesis by blast
qed

lemma prefix_kit_item_other_fields:
  assumes "k \<noteq> ''id''"
  shows "get_prop (fst (prefix_kit_item prefix item)) k = get_prop item k"
proof -
  have "get_prop (fst (at_path kit_id_attributes f item)) k = get_prop item k" for f
    unfolding kit_id_attributes_def using assms by (rule get_prop_after_at_path)
  then show ?thesis
    by (auto simp: prefix_kit_item_def split: sum.splits)
qed

lemma prefix_kit_item_valueless:
  assumes "valueless_item item"
  shows "snd (prefix_kit_item prefix item) = None"
    and "kit_id (fst (prefix_kit_item prefix item)) = Some (prefix @ ''undefined'')"
proof -
  from assms obtain kitName attrs where kn: "get_prop item ''kitName'' = Inr kitName" "\<not> nullish kitName"
    and at: "read_path kit_id_attributes item = Inr (JObj attrs)"
    and v: "map_of attrs ''value'' = None"
    unfolding valueless_item_def by (auto split: sum.splits jsval.splits)
  have cont: "container (JObj attrs)" by (simp add: container_def)
  obtain ident where ident: "get_prop item ''id'' = Inr ident"
    and rest: "read_path [First, Prop ''$''] ident = Inr (JObj attrs)"
    using at by (auto simp: kit_id_attributes_def split: sum.splits)
  have "container ident" using rest cont by (rule read_path_from_container)
  then have ni: "\<not> nullish ident" by (rule container_not_nullish)
  have old: "read_path kit_id_value item = Inr JUndefined"
    using at v by (simp add: kit_id_value_append read_path_append)
  define new where "new = JStr ((if prefix = [] then [] else prefix) @ ''undefined'')"
  define f where "f = assign_prop ''value'' new"
  have f: "f (JObj attrs) = (JObj (AList.update ''value'' new attrs), None)"
    by (simp add: f_def assign_prop_def)
  have eq: "prefix_kit_item prefix item = at_path kit_id_attributes f item"
    using kn ident ni old by (simp add: prefix_kit_item_def f_def new_def)
  show "snd (prefix_kit_item prefix item) = None"
    unfolding eq using at_path_result[OF at, of f] f by simp
  have at': "read_path kit_id_attributes (fst (prefix_kit_item prefix item))
      = Inr (JObj (AList.update ''value'' new attrs))"
    unfolding eq using read_after_at_path[OF at cont, of f] f by simp
  show "kit_id (fst (prefix_kit_item prefix item)) = Some (prefix @ ''undefined'')"
    using at' by (simp add: kit_id_def kit_id_value_append read_path_append update_conv' new_def)
qed

lemma passable_item_ok:
  "passable_item item \<Longrightarrow> snd (prefix_kit_item prefix item) = None"
  unfolding passable_item_def
  using prefix_kit_item_good(1) prefix_kit_item_skips prefix_kit_item_valueless(1)
  by fastforce

lemma forEach_list_append:
  "list_all (\<lambda>x. snd (callback x) = None) xs
     \<Longrightarrow> forEach_list callback (xs @ ys)
           = (map (\<lambda>x. fst (callback x)) xs @ fst (forEach_list callback ys),
              snd (forEach_list callback ys))"
  by (induction xs) (auto split: prod.splits option.splits)

lemma forEach_list_first:
  "fst (forEach_list callback (y # zs)) ! 0 = fst (callback y)"
  by (auto split: prod.splits option.splits)

lemma forEach_list_nth:
  assumes "list_all (\<lambda>x. snd (callback x) = None) xs"
  shows "fst (forEach_list callback (xs @ y # zs)) ! length xs = fst (callback y)"
proof -
  have "fst (forEach_list callback (xs @ y # zs))
      = map (\<lambda>x. fst (callback x)) xs @ fst (forEach_list callback (y # zs))"
    using forEach_list_append[OF assms, of "y # zs"] by simp
  then have "fst (forEach_list callback (xs @ y # zs)) ! length xs
      = fst (forEach_list callback (y # zs)) ! 0"
    by (simp add: nth_append)
  then show ?thesis by (simp only: forEach_list_first)
qed

lemma passable_kit_ok:
  assumes "passable_kit kit"
  shows "snd (prefix_kit prefix kit) = None"
proof (cases "get_prop kit ''Item''")
  case (Inl e)
  with assms show ?thesis by (simp add: passable_kit_def)
next
  case (Inr v)
  show ?thesis
  proof (cases "\<exists>items. v = JArr items")
    case True
    then obtain items where v: "v = JArr items" by blast
    with assms Inr have "list_all passable_item items" by (simp add: passable_kit_def)
    then have "list_all (\<lambda>x. snd (prefix_kit_item prefix x) = None) items"
      by (simp add: list_all_iff passable_item_ok)
    then have "forEach_list (prefix_kit_item prefix) items
        = (map (\<lambda>x. fst (prefix_kit_item prefix x)) items, None)"
      by (rule forEach_list_all_ok)
    with prefix_kit_on_items(1)[OF Inr[unfolded v], of prefix] show ?thesis by simp
  next
    case False
    with assms Inr have "nullish v" by (cases v) (auto simp: passable_kit_def)
    with Inr show ?thesis
      by (simp add: prefix_kit_def forEach_optional_def)
  qed
qed

lemma item_after_fixup:
  assumes k: "read_path kits_path carcolData = Inr (JArr (earlier @ kit # later))"
    and e: "list_all passable_kit earlier"
    and i: "get_prop kit ''Item'' = Inr (JArr (before @ item # after))"
    and b: "list_all passable_item before"
  shows "item_at (length earlier) (length before) (fst (prefix_kits prefix carcolData))
           = fst (prefix_kit_item prefix item)"
proof -
  have "kits_of (fst (prefix_kits prefix carcolData))
      = fst (forEach_list (prefix_kit prefix) (earlier @ kit # later))"
    using prefix_kits_on_kits(2)[OF k, of prefix] by (simp add: kits_of_def)
  moreover have "list_all (\<lambda>x. snd (prefix_kit prefix x) = None) earlier"
    using e by (simp add: list_all_iff passable_kit_ok)
  ultimately have kit': "kits_of (fst (prefix_kits prefix carcolData)) ! length earlier
      = fst (prefix_kit prefix kit)"
    by (simp only: forEach_list_nth)
  have "items_of (fst (prefix_kit prefix kit))
      = fst (forEach_list (prefix_kit_item prefix) (before @ item # after))"
    using prefix_kit_on_items(2)[OF i, of prefix] by (simp add: items_of_def)
  moreover have "list_all (\<lambda>x. snd (prefix_kit_item prefix x) = None) before"
    using b by (simp add: list_all_iff passable_item_ok)
  ultimately have "items_of (fst (prefix_kit prefix kit)) ! length before
      = fst (prefix_kit_item prefix item)"
    by (simp only: forEach_list_nth)
  with kit' show ?thesis by (simp add: item_at_def)
qed

lemma fix_carcol_file_step:
  assumes "serialised build (fixed_document prefix carcolFile) = Some xml"
  shows "fix_carcol_file build prefix carcolFile (fs, log)
           = ((fs(path carcolFile \<mapsto> xml), log @ fix_events prefix carcolFile), None)"
  using assms
  by (auto simp: fix_carcol_file_def write_document_def serialised_def fix_events_def
      split: prod.splits sum.splits)

lemma fixModkits_Cons:
  assumes "serialised build (fixed_document prefix g) = Some xml"
  shows "fixModkits build (g # gs) prefix (fs, log)
           = fixModkits build gs prefix (fs(path g \<mapsto> xml), log @ fix_events prefix g)"
  by (simp add: fixModkits_def fix_carcol_file_step[OF assms])

lemma fixModkits_returns:
  "list_all (\<lambda>f. serialised build (fixed_document prefix f) \<noteq> None) carcolArray
     \<Longrightarrow> snd (fixModkits build carcolArray prefix (fs, log)) = None"
proof (induction carcolArray arbitrary: fs log)
  case Nil
  show ?case by (simp add: fixModkits_def)
next
  case (Cons g gs)
  then obtain xml where g: "serialised build (fixed_document prefix g) = Some xml"
    and gs: "list_all (\<lambda>f. serialised build (fixed_document prefix f) \<noteq> None) gs"
    by auto
  show ?case unfolding fixModkits_Cons[OF g] using gs by (rule Cons.IH)
qed

lemma fixModkits_log:
  "list_all (\<lambda>f. serialised build (fixed_document prefix f) \<noteq> None) carcolArray
     \<Longrightarrow> snd (fst (fixModkits build carcolArray prefix (fs, log)))
           = log @ concat (map (fix_events prefix) carcolArray)"
proof (induction carcolArray arbitrary: fs log)
  case Nil
  show ?case by (simp add: fixModkits_def)
next
  case (Cons g gs)
  then obtain xml where g: "serialised build (fixed_document prefix g) = Some xml"
    and gs: "list_all (\<lambda>f. serialised build (fixed_document prefix f) \<noteq> None) gs"
    by auto
  show ?case unfolding fixModkits_Cons[OF g] Cons.IH[OF gs] by simp
qed

lemma fixModkits_other_paths:
  "list_all (\<lambda>f. serialised build (fixed_document prefix f) \<noteq> None) carcolArray
     \<Longrightarrow> q \<notin> set (map path carcolArray)
     \<Longrightarrow> fst (fst (fixModkits build carcolArray prefix (fs, log))) q = fs q"
proof (induction carcolArray arbitrary: fs log)
  case Nil
  show ?case by (simp add: fixModkits_def)
next
  case (Cons g gs)
  then obtain xml where g: "serialised build (fixed_document prefix g) = Some xml"
    and gs: "list_all (\<lambda>f. serialised build (fixed_document prefix f) \<noteq> None) gs"
    and q: "q \<notin> set (map path gs)" "q \<noteq> path g"
    by auto
  show ?case unfolding fixModkits_Cons[OF g] Cons.IH[OF gs q(1)] using q(2) by simp
qed

lemma fixModkits_writes:
  "list_all (\<lambda>f. serialised build (fixed_document prefix f) \<noteq> None) carcolArray
     \<Longrightarrow> distinct (map path carcolArray)
     \<Longrightarrow> f \<in> set carcolArray
     \<Longrightarrow> fst (fst (fixModkits build carcolArray prefix (fs, log))) (path f)
           = serialised build (fixed_document prefix f)"
proof (induction carcolArray arbitrary: fs log)
  case Nil
  then show ?case by simp
next
  case (Cons g gs)
  then obtain xml where g: "serialised build (fixed_document prefix g) = Some xml"
    and gs: "list_all (\<lambda>f. serialised build (fixed_document prefix f) \<noteq> None) gs"
    and d: "distinct (map path gs)" "path g \<notin> set (map path gs)"
    by auto
  show ?case
  proof (cases "f = g")
    case True
    show ?thesis
      unfolding fixModkits_Cons[OF g] True fixModkits_other_paths[OF gs d(2)] using g by simp
  next
    case False
    with Cons.prems have "f \<in> set gs" by simp
    with gs d(1) show ?thesis unfolding fixModkits_Cons[OF g] by (rule Cons.IH)
  qed
qed

lemma rest_after_broken_item:
  assumes k: "read_path kits_path carcolData = Inr (JArr (earlier @ kit # later))"
    and e: "list_all passable_kit earlier"
    and i: "get_prop kit ''Item'' = Inr (JArr (before @ item # after))"
    and b: "list_all passable_item before"
    and x: "broken_kit_item item"
  shows "drop (length before) (items_of (kits_of (fst (prefix_kits prefix carcolData)) ! length earlier))
           = item # after"
    and "drop (Suc (length earlier)) (kits_of (fst (prefix_kits prefix carcolData))) = later"
proof -
  define kit' where "kit' = fst (prefix_kit prefix kit)"
  have "list_all (\<lambda>x. snd (prefix_kit_item prefix x) = None) before"
    using b by (simp add: list_all_iff passable_item_ok)
  moreover have bad: "prefix_kit_item prefix item = (item, Some TypeError)"
    using x by (rule prefix_kit_item_broken)
  then have "snd (prefix_kit_item prefix item) = Some TypeError" by simp
  ultimately have "forEach_list (prefix_kit_item prefix) (before @ item # after)
      = (map (\<lambda>x. fst (prefix_kit_item prefix x)) before @ fst (prefix_kit_item prefix item) # after,
         Some TypeError)"
    by (rule forEach_list_stops)
  then have items: "forEach_list (prefix_kit_item prefix) (before @ item # after)
      = (map (\<lambda>x. fst (prefix_kit_item prefix x)) before @ item # after, Some TypeError)"
    using bad by simp
  have kit_items: "items_of kit' = map (\<lambda>x. fst (prefix_kit_item prefix x)) before @ item # after"
    unfolding kit'_def items_of_def using prefix_kit_on_items(2)[OF i, of prefix] items by simp
  have kit_err: "snd (prefix_kit prefix kit) = Some TypeError"
    using prefix_kit_on_items(1)[OF i, of prefix] items by simp
  have "list_all (\<lambda>x. snd (prefix_kit prefix x) = None) earlier"
    using e by (simp add: list_all_iff passable_kit_ok)
  then have "forEach_list (prefix_kit prefix) (earlier @ kit # later)
      = (map (\<lambda>k. fst (prefix_kit prefix k)) earlier @ kit' # later, Some TypeError)"
    unfolding kit'_def using kit_err by (rule forEach_list_stops)
  then have k': "kits_of (fst (prefix_kits prefix carcolData))
      = map (\<lambda>k. fst (prefix_kit prefix k)) earlier @ kit' # later"
    unfolding kits_of_def using prefix_kits_on_kits(2)[OF k, of prefix] by simp
  show "drop (length before) (items_of (kits_of (fst (prefix_kits prefix carcolData)) ! length earlier))
           = item # after"
    unfolding k' by (simp add: nth_append kit_items)
  show "drop (Suc (length earlier)) (kits_of (fst (prefix_kits prefix carcolData))) = later"
    unfolding k' by simp
qed

text \<open>
  Claim C5, amended. Let the fixup reach an item of a document: the kits before its kit
  and the items before it in its kit raise nothing. Then
  \<^item> a kit item (\<^verbatim>\<open>kitName\<close> and \<^verbatim>\<open>id\<close> present, the \<^verbatim>\<open>id\<close> carrying a value \<open>v\<close>) gets
    the identifier value \<open>prefix @ v\<close>, by concatenation, and is a kit item again, so that a
    second application prefixes once more;
  \<^item> an item whose \<^verbatim>\<open>id\<close> has attributes but no \<^verbatim>\<open>value\<close> gets the prefix followed by
    \<^verbatim>\<open>undefined\<close>;
  \<^item> an item without \<^verbatim>\<open>kitName\<close> or without \<^verbatim>\<open>id\<close> stays as it is;
  \<^item> an item whose \<^verbatim>\<open>id\<close> lacks the attributes stays as it is, and so do the items behind
    it in its kit and the kits behind its kit;

  and in each case no field of the item other than \<^verbatim>\<open>id\<close> changes. The changed document
  is what is written to the file, for every file of the list when the builder accepts the
  changed documents. The operation has no Spawn Code Mapping among its arguments. The
  witness is the scenario of the specification: prefix \<^verbatim>\<open>3\<close> on \<^verbatim>\<open>42\<close> gives \<^verbatim>\<open>342\<close>, and
  once more \<^verbatim>\<open>3342\<close>.
\<close>

theorem fixModkits_prepends_prefix:
  assumes "carcolFile \<in> set carcolArray"
    and "distinct (map path carcolArray)"
    and "list_all (\<lambda>f. serialised build (fixed_document prefix f) \<noteq> None) carcolArray"
    and "read_path kits_path (contents carcolFile) = Inr (JArr (earlier @ kit # later))"
    and "list_all passable_kit earlier"
    and "get_prop kit ''Item'' = Inr (JArr (before @ item # after))"
    and "list_all passable_item before"
  shows "fst (fst (fixModkits build carcolArray prefix (fs, log))) (path carcolFile)
           = serialised build (fixed_document prefix carcolFile)
       \<and> (is_kit_item item \<longrightarrow>
            (\<exists>v. kit_id item = Some v
                \<and> kit_id (item_at (length earlier) (length before) (fixed_document prefix carcolFile))
                    = Some (prefix @ v))
            \<and> is_kit_item (item_at (length earlier) (length before) (fixed_document prefix carcolFile)))
       \<and> (valueless_item item \<longrightarrow>
            kit_id (item_at (length earlier) (length before) (fixed_document prefix carcolFile))
              = Some (prefix @ ''undefined''))
       \<and> (skipped_item item \<or> broken_kit_item item \<longrightarrow>
            item_at (length earlier) (length before) (fixed_document prefix carcolFile) = item)
       \<and> (broken_kit_item item \<longrightarrow>
            drop (length before)
              (items_of (kits_of (fixed_document prefix carcolFile) ! length earlier)) = item # after
            \<and> drop (Suc (length earlier)) (kits_of (fixed_document prefix carcolFile)) = later)
       \<and> (\<forall>k. k \<noteq> ''id'' \<longrightarrow>
            get_prop (item_at (length earlier) (length before) (fixed_document prefix carcolFile)) k
              = get_prop item k)"
proof -
  define item' where "item' = item_at (length earlier) (length before) (fixed_document prefix carcolFile)"
  have at: "item' = fst (prefix_kit_item prefix item)"
    unfolding item'_def using assms(4-7) by (rule item_after_fixup)
  have written: "fst (fst (fixModkits build carcolArray prefix (fs, log))) (path carcolFile)
           = serialised build (fixed_document prefix carcolFile)"
    using assms(3,2,1) by (rule fixModkits_writes)
  have good: "is_kit_item item \<longrightarrow>
            (\<exists>v. kit_id item = Some v \<and> kit_id item' = Some (prefix @ v)) \<and> is_kit_item item'"
  proof
    assume g: "is_kit_item item"
    then obtain v where v: "kit_id item = Some v" using is_kit_item_id by blast
    with prefix_kit_item_good(3)[OF g, of prefix] have "kit_id item' = Some (prefix @ v)"
      by (simp add: at)
    with v prefix_kit_item_good(2)[OF g, of prefix]
    show "(\<exists>v. kit_id item = Some v \<and> kit_id item' = Some (prefix @ v)) \<and> is_kit_item item'"
      by (simp add: at)
  qed
  have valueless: "valueless_item item \<longrightarrow> kit_id item' = Some (prefix @ ''undefined'')"
    by (simp add: at prefix_kit_item_valueless(2))
  have same: "skipped_item item \<or> broken_kit_item item \<longrightarrow> item' = item"
    using prefix_kit_item_skips[of item prefix] prefix_kit_item_broken[of item prefix]
    by (auto simp: at)
  have behind: "broken_kit_item item \<longrightarrow>
            drop (length before)
              (items_of (kits_of (fixed_document prefix carcolFile) ! length earlier)) = item # after
            \<and> drop (Suc (length earlier)) (kits_of (fixed_document prefix carcolFile)) = later"
    using rest_after_broken_item[OF assms(4-7)] by blast
  have others: "\<forall>k. k \<noteq> ''id'' \<longrightarrow> get_prop item' k = get_prop item k"
    by (simp add: at prefix_kit_item_other_fields)
  from written good valueless same behind others show ?thesis
    unfolding item'_def by (intro conjI)
qed

theorem fixModkits_prepends_prefix_witness:
  "is_kit_item (kit_item ''livery'' ''42'')
   \<and> kit_id (item_at 0 0 (fixed_document ''3'' (livery_carcols_file ''42''))) = Some ''342''
   \<and> fst (fst (fixModkits example_build [livery_carcols_file ''42''] ''3'' (Map.empty, [])))
         ''build/meta/b/carcols.meta''
       = Some ''<CVehicleModelInfoVarGlobal><Kits><Item><kitName>livery</kitName><id value=342></id></Item></Kits></CVehicleModelInfoVarGlobal>''
   \<and> fixed_document ''3'' (livery_carcols_file ''42'') = contents (livery_carcols_file ''342'')
   \<and> kit_id (item_at 0 0 (fixed_document ''3'' (livery_carcols_file ''342''))) = Some ''3342''"
proof -
  define kit where "kit v = JObj [(''Item'', JArr ([] @ kit_item ''livery'' v # []))]" for v
  have h1: "livery_carcols_file v \<in> set [livery_carcols_file v]" for v by simp
  have h2: "distinct (map path [livery_carcols_file v])" for v by simp
  have h3: "list_all (\<lambda>f. serialised example_build (fixed_document ''3'' f) \<noteq> None)
              [livery_carcols_file ''42'']" by code_simp
  have h3': "list_all (\<lambda>f. serialised example_build (fixed_document ''3'' f) \<noteq> None)
              [livery_carcols_file ''342'']" by code_simp
  have h4: "read_path kits_path (contents (livery_carcols_file v)) = Inr (JArr ([] @ kit v # []))" for v
    by (simp add: livery_carcols_file_def kits_document_def kits_path_def kit_def)
  have h5: "list_all passable_kit []" by simp
  have h6: "get_prop (kit v) ''Item'' = Inr (JArr ([] @ kit_item ''livery'' v # []))" for v
    by (simp add: kit_def)
  have h7: "list_all passable_item []" by simp
  have g: "is_kit_item (kit_item ''livery'' ''42'')" by code_simp
  have g': "is_kit_item (kit_item ''livery'' ''342'')" by code_simp
  have v: "kit_id (kit_item ''livery'' ''42'') = Some ''42''" by code_simp
  have v': "kit_id (kit_item ''livery'' ''342'') = Some ''342''" by code_simp
  have p: "path (livery_carcols_file ''42'') = ''build/meta/b/carcols.meta''"
    by (simp add: livery_carcols_file_def)
  have s: "serialised example_build (fixed_document ''3'' (livery_carcols_file ''42''))
      = Some ''<CVehicleModelInfoVarGlobal><Kits><Item><kitName>livery</kitName><id value=342></id></Item></Kits></CVehicleModelInfoVarGlobal>''"
    by code_simp
  have d: "fixed_document ''3'' (livery_carcols_file ''42'') = contents (livery_carcols_file ''342'')"
    by code_simp
  note once = fixModkits_prepends_prefix[OF h1 h2 h3 h4 h5 h6 h7, of Map.empty "[]"]
  note twice = fixModkits_prepends_prefix[OF h1 h2 h3' h4 h5 h6 h7, of Map.empty "[]"]
  from once g v have a: "kit_id (item_at 0 0 (fixed_document ''3'' (livery_carcols_file ''42''))) = Some ''342''"
    by simp
  from once p s have b: "fst (fst (fixModkits example_build [livery_carcols_file ''42''] ''3'' (Map.empty, [])))
         ''build/meta/b/carcols.meta''
       = Some ''<CVehicleModelInfoVarGlobal><Kits><Item><kitName>livery</kitName><id value=342></id></Item></Kits></CVehicleModelInfoVarGlobal>''"
    by simp
  from twice g' v' have c: "kit_id (item_at 0 0 (fixed_document ''3'' (livery_carcols_file ''342''))) = Some ''3342''"
    by simp
  from g a b d c show ?thesis by (intro conjI)
qed

text \<open>
  Claim C5 as stated (the prefix is prepended to the identifier value of every kit item)
  fails. In a kit that holds a kit item \<^verbatim>\<open>42\<close>, an item with the identifier \<^verbatim>\<open>9\<close> but no
  \<^verbatim>\<open>kitName\<close>, an item whose \<^verbatim>\<open>id\<close> has no attributes and a kit item \<^verbatim>\<open>7\<close>, the fixup
  prefixes the first only: the second is passed over by the test on \<^verbatim>\<open>kitName\<close>, the
  third raises, and the fourth, a kit item behind it, is never reached.
\<close>

theorem fixModkits_leaves_items_unprefixed:
  "kit_ids (contents mixed_carcols_file) = [[Some ''42'', Some ''9'', None, Some ''7'']]
   \<and> kit_ids (fixed_document ''3'' mixed_carcols_file) = [[Some ''342'', Some ''9'', None, Some ''7'']]
   \<and> fst (fst (fixModkits example_build [mixed_carcols_file] ''3'' (Map.empty, [])))
         ''build/meta/c/carcols.meta''
       = Some ''<CVehicleModelInfoVarGlobal><Kits><Item><kitName>a</kitName><id value=342></id></Item><Item><id value=9></id></Item><Item><kitName>b</kitName><id>5</id></Item><Item><kitName>c</kitName><id value=7></id></Item></Kits></CVehicleModelInfoVarGlobal>''"
  by code_simp

text \<open>
  Claim C10. Let an item whose \<^verbatim>\<open>id\<close> lacks the attributes stand in a kit behind kit
  items, and that kit behind kits of kit items, in a file of the list (whose changed
  documents the builder accepts). The fixup ends without raising, the error is logged for
  the file, and nothing is restored: in the document that is serialised and written to the
  file, every item of the earlier kits and every earlier item of this kit bears the prefix
  before its identifier value, the failing item and the items behind it are as they were,
  and so are the later kits.
\<close>

theorem fixModkits_keeps_partial_changes:
  assumes "carcolFile \<in> set carcolArray"
    and "distinct (map path carcolArray)"
    and "list_all (\<lambda>f. serialised build (fixed_document prefix f) \<noteq> None) carcolArray"
    and "read_path kits_path (contents carcolFile) = Inr (JArr (earlier @ kit # later))"
    and "list_all good_kit earlier"
    and "get_prop kit ''Item'' = Inr (JArr (good @ bad # rest))"
    and "list_all is_kit_item good"
    and "broken_kit_item bad"
  shows "snd (fixModkits build carcolArray prefix (fs, log)) = None
       \<and> ErrorProcessingFile (path carcolFile) TypeError
           \<in> set (snd (fst (fixModkits build carcolArray prefix (fs, log))))
       \<and> fst (fst (fixModkits build carcolArray prefix (fs, log))) (path carcolFile)
           = serialised build (fixed_document prefix carcolFile)
       \<and> kit_ids (fixed_document prefix carcolFile)
           = map (\<lambda>k. map (\<lambda>i. map_option ((@) prefix) (kit_id i)) (items_of k)) earlier
             @ [map (\<lambda>i. map_option ((@) prefix) (kit_id i)) good @ map kit_id (bad # rest)]
             @ map (\<lambda>k. map kit_id (items_of k)) later
       \<and> list_all (\<lambda>k. list_all (\<lambda>i. kit_id i \<noteq> None) (items_of k)) earlier
       \<and> list_all (\<lambda>i. kit_id i \<noteq> None) good
       \<and> drop (length good) (items_of (kits_of (fixed_document prefix carcolFile) ! length earlier))
           = bad # rest
       \<and> drop (Suc (length earlier)) (kits_of (fixed_document prefix carcolFile)) = later"
proof -
  define kit' where "kit' = fst (prefix_kit prefix kit)"
  have items: "forEach_list (prefix_kit_item prefix) (good @ bad # rest)
      = (map (\<lambda>item. fst (prefix_kit_item prefix item)) good @ bad # rest, Some TypeError)"
  proof -
    have "list_all (\<lambda>x. snd (prefix_kit_item prefix x) = None) good"
      using assms(7) by (simp add: list_all_iff prefix_kit_item_good(1))
    moreover have "snd (prefix_kit_item prefix bad) = Some TypeError"
      using prefix_kit_item_broken[OF assms(8), of prefix] by simp
    ultimately have "forEach_list (prefix_kit_item prefix) (good @ bad # rest)
      = (map (\<lambda>item. fst (prefix_kit_item prefix item)) good @ fst (prefix_kit_item prefix bad) # rest,
         Some TypeError)"
      by (rule forEach_list_stops)
    then show ?thesis
      using prefix_kit_item_broken[OF assms(8), of prefix] by simp
  qed
  have kit_err: "snd (prefix_kit prefix kit) = Some TypeError"
    using prefix_kit_on_items(1)[OF assms(6), of prefix] items by simp
  have kit_items: "items_of kit' = map (\<lambda>item. fst (prefix_kit_item prefix item)) good @ bad # rest"
    unfolding kit'_def items_of_def using prefix_kit_on_items(2)[OF assms(6), of prefix] items by simp
  have kits: "forEach_list (prefix_kit prefix) (earlier @ kit # later)
      = (map (\<lambda>k. fst (prefix_kit prefix k)) earlier @ kit' # later, Some TypeError)"
  proof -
    have "list_all (\<lambda>x. snd (prefix_kit prefix x) = None) earlier"
      using assms(5) by (simp add: list_all_iff prefix_kit_good(1))
    then show ?thesis
      unfolding kit'_def using kit_err by (rule forEach_list_stops)
  qed
  have err: "snd (prefix_kits prefix (contents carcolFile)) = Some TypeError"
    using prefix_kits_on_kits(1)[OF assms(4), of prefix] kits by simp
  have k': "kits_of (fixed_document prefix carcolFile)
      = map (\<lambda>k. fst (prefix_kit prefix k)) earlier @ kit' # later"
    unfolding kits_of_def using prefix_kits_on_kits(2)[OF assms(4), of prefix] kits by simp
  have ret: "snd (fixModkits build carcolArray prefix (fs, log)) = None"
    using assms(3) by (rule fixModkits_returns)
  have "ErrorProcessingFile (path carcolFile) TypeError \<in> set (fix_events prefix carcolFile)"
    using err by (simp add: fix_events_def)
  with assms(1) have "ErrorProcessingFile (path carcolFile) TypeError
      \<in> set (concat (map (fix_events prefix) carcolArray))"
    by auto
  then have logged: "ErrorProcessingFile (path carcolFile) TypeError
           \<in> set (snd (fst (fixModkits build carcolArray prefix (fs, log))))"
    unfolding fixModkits_log[OF assms(3)] by simp
  have written: "fst (fst (fixModkits build carcolArray prefix (fs, log))) (path carcolFile)
           = serialised build (fixed_document prefix carcolFile)"
    using assms(3,2,1) by (rule fixModkits_writes)
  have e_ids: "map (\<lambda>k. map kit_id (items_of (fst (prefix_kit prefix k)))) earlier
      = map (\<lambda>k. map (\<lambda>i. map_option ((@) prefix) (kit_id i)) (items_of k)) earlier"
    using assms(5) by (simp add: list_all_iff prefix_kit_good(3))
  have g_ids: "map (\<lambda>item. kit_id (fst (prefix_kit_item prefix item))) good
      = map (\<lambda>i. map_option ((@) prefix) (kit_id i)) good"
    using assms(7) by (simp add: list_all_iff prefix_kit_item_good(3))
  have ids: "kit_ids (fixed_document prefix carcolFile)
           = map (\<lambda>k. map (\<lambda>i. map_option ((@) prefix) (kit_id i)) (items_of k)) earlier
             @ [map (\<lambda>i. map_option ((@) prefix) (kit_id i)) good @ map kit_id (bad # rest)]
             @ map (\<lambda>k. map kit_id (items_of k)) later"
    unfolding kit_ids_def k' using e_ids g_ids by (simp add: kit_items comp_def)
  have e_some: "list_all (\<lambda>k. list_all (\<lambda>i. kit_id i \<noteq> None) (items_of k)) earlier"
    unfolding list_all_iff
  proof (intro ballI)
    fix k i assume "k \<in> set earlier" and i: "i \<in> set (items_of k)"
    with assms(5) have "good_kit k" by (simp add: list_all_iff)
    with i have "is_kit_item i"
      by (auto simp: good_kit_def items_of_def list_all_iff split: sum.splits jsval.splits)
    then show "kit_id i \<noteq> None" using is_kit_item_id by fastforce
  qed
  have g_some: "list_all (\<lambda>i. kit_id i \<noteq> None) good"
    using assms(7) is_kit_item_id unfolding list_all_iff by fastforce
  have d_items: "drop (length good) (items_of (kits_of (fixed_document prefix carcolFile) ! length earlier))
           = bad # rest"
    unfolding k' by (simp add: nth_append kit_items)
  have d_kits: "drop (Suc (length earlier)) (kits_of (fixed_document prefix carcolFile)) = later"
    unfolding k' by simp
  from ret logged written ids e_some g_some d_items d_kits show ?thesis by (intro conjI)
qed

theorem fixModkits_keeps_partial_changes_witness:
  "broken_kit_item (bare_kit_item ''b'')
   \<and> snd (fixModkits example_build [partly_broken_file, livery_carcols_file ''42''] ''3'' (Map.empty, []))
       = None
   \<and> ErrorProcessingFile ''build/meta/a/carcols.meta'' TypeError
       \<in> set (snd (fst (fixModkits example_build [partly_broken_file, livery_carcols_file ''42'']
                           ''3'' (Map.empty, []))))
   \<and> fst (fst (fixModkits example_build [partly_broken_file, livery_carcols_file ''42''] ''3''
                   (Map.empty, []))) ''build/meta/a/carcols.meta''
       = Some ''<CVehicleModelInfoVarGlobal><Kits><Item><kitName>first</kitName><id value=310></id></Item></Kits><Kits><Item><kitName>a</kitName><id value=342></id></Item><Item><kitName>b</kitName><id>5</id></Item><Item><kitName>c</kitName><id value=7></id></Item></Kits><Kits><Item><kitName>last</kitName><id value=99></id></Item></Kits></CVehicleModelInfoVarGlobal>''
   \<and> kit_ids (contents partly_broken_file)
       = [[Some ''10''], [Some ''42'', None, Some ''7''], [Some ''99'']]
   \<and> kit_ids (fixed_document ''3'' partly_broken_file)
       = [[Some ''310''], [Some ''342'', None, Some ''7''], [Some ''99'']]"
proof -
  define earlier where "earlier = [JObj [(''Item'', JArr [kit_item ''first'' ''10''])]]"
  define later where "later = [JObj [(''Item'', JArr [kit_item ''last'' ''99''])]]"
  define kit where "kit = JObj [(''Item'', JArr ([kit_item ''a'' ''42''] @ bare_kit_item ''b'' # [kit_item ''c'' ''7'']))]"
  have h1: "partly_broken_file \<in> set [partly_broken_file, livery_carcols_file ''42'']" by simp
  have h2: "distinct (map path [partly_broken_file, livery_carcols_file ''42''])"
    by (simp add: partly_broken_file_def livery_carcols_file_def)
  have h3: "list_all (\<lambda>f. serialised example_build (fixed_document ''3'' f) \<noteq> None)
              [partly_broken_file, livery_carcols_file ''42'']" by code_simp
  have h4: "read_path kits_path (contents partly_broken_file) = Inr (JArr (earlier @ kit # later))"
    by (simp add: partly_broken_file_def kits_document_def kits_path_def earlier_def kit_def later_def)
  have h5: "list_all good_kit earlier" unfolding earlier_def by code_simp
  have h6: "get_prop kit ''Item''
      = Inr (JArr ([kit_item ''a'' ''42''] @ bare_kit_item ''b'' # [kit_item ''c'' ''7'']))"
    by (simp add: kit_def)
  have h7: "list_all is_kit_item [kit_item ''a'' ''42'']" by code_simp
  have h8: "broken_kit_item (bare_kit_item ''b'')" by code_simp
  have p: "path partly_broken_file = ''build/meta/a/carcols.meta''"
    by (simp add: partly_broken_file_def)
  have s: "serialised example_build (fixed_document ''3'' partly_broken_file)
      = Some ''<CVehicleModelInfoVarGlobal><Kits><Item><kitName>first</kitName><id value=310></id></Item></Kits><Kits><Item><kitName>a</kitName><id value=342></id></Item><Item><kitName>b</kitName><id>5</id></Item><Item><kitName>c</kitName><id value=7></id></Item></Kits><Kits><Item><kitName>last</kitName><id value=99></id></Item></Kits></CVehicleModelInfoVarGlobal>''"
    by code_simp
  have before: "kit_ids (contents partly_broken_file)
       = [[Some ''10''], [Some ''42'', None, Some ''7''], [Some ''99'']]" by code_simp
  have r: "map (\<lambda>k. map (\<lambda>i. map_option ((@) ''3'') (kit_id i)) (items_of k)) earlier
             @ [map (\<lambda>i. map_option ((@) ''3'') (kit_id i)) [kit_item ''a'' ''42'']
                @ map kit_id (bare_kit_item ''b'' # [kit_item ''c'' ''7''])]
             @ map (\<lambda>k. map kit_id (items_of k)) later
      = [[Some ''310''], [Some ''342'', None, Some ''7''], [Some ''99'']]"
    unfolding earlier_def later_def by code_simp
  note t = fixModkits_keeps_partial_changes[OF h1 h2 h3 h4 h5 h6 h7 h8, of Map.empty "[]"]
  from t have a: "snd (fixModkits example_build [partly_broken_file, livery_carcols_file ''42''] ''3''
                         (Map.empty, [])) = None" by blast
  from t p have b: "ErrorProcessingFile ''build/meta/a/carcols.meta'' TypeError
       \<in> set (snd (fst (fixModkits example_build [partly_broken_file, livery_carcols_file ''42'']
                           ''3'' (Map.empty, []))))" by simp
  from t p s have c: "fst (fst (fixModkits example_build [partly_broken_file, livery_carcols_file ''42''] ''3''
                   (Map.empty, []))) ''build/meta/a/carcols.meta''
       = Some ''<CVehicleModelInfoVarGlobal><Kits><Item><kitName>first</kitName><id value=310></id></Item></Kits><Kits><Item><kitName>a</kitName><id value=342></id></Item><Item><kitName>b</kitName><id>5</id></Item><Item><kitName>c</kitName><id value=7></id></Item></Kits><Kits><Item><kitName>last</kitName><id value=99></id></Item></Kits></CVehicleModelInfoVarGlobal>''"
    by simp
  from t r have d: "kit_ids (fixed_document ''3'' partly_broken_file)
       = [[Some ''310''], [Some ''342'', None, Some ''7''], [Some ''99'']]" by simp
  from h8 a b c before d show ?thesis by (intro conjI)
qed

section \<open>Verification: how a run ends\<close>

lemma rename_job_events:
  "list_all step_event (snd st) \<Longrightarrow> list_all step_event (snd (rename_job st job))"
  by (simp add: rename_job_def step_event_def split: option.splits)

lemma renameVehicleFiles_events:
  "list_all step_event (snd st) \<Longrightarrow> list_all step_event (snd (renameVehicleFiles folder spawnCodes st))"
proof -
  have "list_all step_event (snd st) \<Longrightarrow> list_all step_event (snd (foldl rename_job st js))" for js
    by (induction js arbitrary: st) (simp_all add: rename_job_events)
  then show "list_all step_event (snd st) \<Longrightarrow> list_all step_event (snd (renameVehicleFiles folder spawnCodes st))"
    by (simp add: renameVehicleFiles_jobs)
qed

lemma updateUlcFile_events:
  "list_all step_event (snd st) \<Longrightarrow> list_all step_event (snd (updateUlcFile p spawnCodes st))"
  by (simp add: updateUlcFile_def step_event_def split: option.splits)

lemma forEach_files_events:
  assumes "\<And>x st. list_all step_event (snd st) \<Longrightarrow> list_all step_event (snd (fst (callback x st)))"
  shows "list_all step_event (snd st) \<Longrightarrow> list_all step_event (snd (fst (forEach_files callback xs st)))"
proof (induction xs arbitrary: st)
  case Nil
  then show ?case by simp
next
  case (Cons x xs)
  from assms[OF Cons.prems, of x] have ok: "list_all step_event (snd (fst (callback x st)))" .
  show ?case
  proof (cases "callback x st")
    case (Pair st1 r)
    with ok have ok1: "list_all step_event (snd st1)" by simp
    show ?thesis
    proof (cases r)
      case None
      with Pair Cons.IH[OF ok1] show ?thesis by simp
    next
      case (Some e)
      with Pair ok1 show ?thesis by simp
    qed
  qed
qed

lemma write_document_events:
  "snd (fst (write_document build p d st)) = snd st"
  by (simp add: write_document_def split: sum.splits)

lemma update_items_file_events:
  "snd (fst (update_items_file build items callback f st)) = snd st"
  by (simp add: update_items_file_def write_document_events split: prod.splits option.splits)

lemma updateMetaFiles_events:
  assumes "list_all step_event (snd st)"
  shows "list_all step_event
           (snd (fst (updateMetaFiles build vehiclesArray carvarArray spawnCodes vehicleData buildData st)))"
proof -
  define cbv where "cbv = update_items_file build vehicle_items (update_vehicle_item spawnCodes vehicleData buildData)"
  define cbc where "cbc = update_items_file build variation_items (update_variation_item spawnCodes)"
  have v: "list_all step_event (snd (fst (forEach_files cbv vehiclesArray st)))"
    using assms by (intro forEach_files_events) (simp_all add: cbv_def update_items_file_events)
  have c: "list_all step_event (snd st1) \<Longrightarrow> list_all step_event (snd (fst (forEach_files cbc carvarArray st1)))" for st1
    by (intro forEach_files_events) (simp_all add: cbc_def update_items_file_events)
  show ?thesis
  proof (cases "forEach_files cbv vehiclesArray st")
    case (Pair st1 r)
    with v have "list_all step_event (snd st1)" by simp
    with Pair c[of st1] show ?thesis
      by (cases r) (simp_all add: updateMetaFiles_def cbv_def[symmetric] cbc_def[symmetric])
  qed
qed

lemma fix_carcol_file_events:
  assumes "list_all step_event (snd st)"
  shows "list_all step_event (snd (fst (fix_carcol_file build prefix f st)))"
  using assms
  by (auto simp: fix_carcol_file_def write_document_events step_event_def
      split: prod.splits option.splits)

lemma fixModkits_events:
  "list_all step_event (snd st)
     \<Longrightarrow> list_all step_event (snd (fst (fixModkits build carcolArray prefix st)))"
  unfolding fixModkits_def
  by (intro forEach_files_events) (simp_all add: fix_carcol_file_events)

lemma run_choice_events:
  assumes "list_all step_event (snd st)"
  shows "list_all step_event
           (snd (fst (run_choice build updateChoice selectedPrefix spawnCodes vehicleData
                        vehicleEntries metaData st)))"
proof (cases updateChoice)
  case UpdateEverything
  define st1 where "st1 = renameVehicleFiles streamFolder spawnCodes st"
  have s1: "list_all step_event (snd st1)"
    unfolding st1_def using assms by (rule renameVehicleFiles_events)
  define r where "r = updateMetaFiles build (vehicles metaData) (carvariations metaData) spawnCodes
                  vehicleData vehicleEntries st1"
  have s2: "list_all step_event (snd (fst r))"
    unfolding r_def using s1 by (rule updateMetaFiles_events)
  show ?thesis
  proof (cases "snd r")
    case None
    have "list_all step_event (snd (updateUlcFile ulcFilePath spawnCodes (fst r)))"
      using s2 by (rule updateUlcFile_events)
    then have "list_all step_event
        (snd (fst (fixModkits build (carcols metaData) selectedPrefix
                     (updateUlcFile ulcFilePath spawnCodes (fst r)))))"
      by (rule fixModkits_events)
    with None show ?thesis
      by (auto simp: run_choice_def UpdateEverything st1_def[symmetric] r_def[symmetric]
          split: prod.splits)
  next
    case (Some e)
    with s2 show ?thesis
      by (auto simp: run_choice_def UpdateEverything st1_def[symmetric] r_def[symmetric]
          split: prod.splits)
  qed
next
  case UpdateOnlySpawnCodes
  with assms show ?thesis by (simp add: run_choice_def renameVehicleFiles_events)
next
  case UpdateOnlyMetaFiles
  with assms show ?thesis by (simp add: run_choice_def updateMetaFiles_events)
next
  case UpdateOnlyULC
  with assms show ?thesis by (simp add: run_choice_def updateUlcFile_events)
next
  case UpdateOnlyModkits
  with assms show ?thesis by (simp add: run_choice_def fixModkits_events)
next
  case OtherChoice
  with assms show ?thesis by (simp add: run_choice_def step_event_def)
qed

lemma step_event_not_completed: "list_all step_event log \<Longrightarrow> Completed \<notin> set log"
  by (auto simp: list_all_iff step_event_def)

lemma step_event_not_handler: "list_all step_event log \<Longrightarrow> TopLevelError e \<notin> set log"
  by (auto simp: list_all_iff step_event_def)

lemma main_fails:
  assumes "snd (main build updateChoice selectedPrefix m found (fs, [])) = Some e"
  shows "list_all step_event (snd (fst (main build updateChoice selectedPrefix m found (fs, []))))"
proof (cases found)
  case (Inl x)
  then show ?thesis by (simp add: main_def)
next
  case (Inr metaData)
  define r where "r = run_choice build updateChoice selectedPrefix
                  (autoIncrementSpawnCodes (manifest_vehicles m))
                  (manifest_data m) (manifest_vehicles m) metaData (fs, [])"
  have "list_all step_event (snd (fst r))"
    unfolding r_def by (rule run_choice_events) simp
  moreover from assms Inr have "snd r = Some e"
    by (auto simp: main_def r_def[symmetric] split: prod.splits option.splits)
  ultimately show ?thesis using Inr
    by (auto simp: main_def r_def[symmetric] split: prod.splits option.splits)
qed

lemma main_succeeds:
  assumes "snd (main build updateChoice selectedPrefix m found (fs, [])) = None"
  shows "\<exists>log. list_all step_event log
           \<and> snd (fst (main build updateChoice selectedPrefix m found (fs, []))) = log @ [Completed]"
proof (cases found)
  case (Inl x)
  with assms show ?thesis by (simp add: main_def)
next
  case (Inr metaData)
  define r where "r = run_choice build updateChoice selectedPrefix
                  (autoIncrementSpawnCodes (manifest_vehicles m))
                  (manifest_data m) (manifest_vehicles m) metaData (fs, [])"
  have "list_all step_event (snd (fst r))"
    unfolding r_def by (rule run_choice_events) simp
  moreover from assms Inr have "snd r = None"
    by (auto simp: main_def r_def[symmetric] split: prod.splits option.splits)
  ultimately show ?thesis using Inr
    by (auto simp: main_def r_def[symmetric] split: prod.splits option.splits)
qed

text \<open>
  Claim C7, amended. A manifest load failure ends the process at once with exit code 1:
  nothing else is logged and no file is touched. Any other failure inside \<^verbatim>\<open>main\<close> reaches
  the top-level handler, whose error line is the last output; the completion message is
  not logged, and the process ends with exit code 0. A run without a failure logs the
  completion message last, logs no error line of the handler, and ends with exit code 0.
\<close>

theorem exit_status:
  "(loaded = None \<longrightarrow>
      run build updateChoice selectedPrefix loaded found fs
        = \<lparr>exit_code = 1, final_files = fs, console = [YamlLoadFailed]\<rparr>)
   \<and> (\<forall>m. loaded = Some m \<longrightarrow>
        exit_code (run build updateChoice selectedPrefix loaded found fs) = 0
        \<and> (\<forall>e. snd (main build updateChoice selectedPrefix m found (fs, [])) = Some e \<longrightarrow>
              last (console (run build updateChoice selectedPrefix loaded found fs)) = TopLevelError e
              \<and> Completed \<notin> set (console (run build updateChoice selectedPrefix loaded found fs)))
        \<and> (snd (main build updateChoice selectedPrefix m found (fs, [])) = None \<longrightarrow>
              last (console (run build updateChoice selectedPrefix loaded found fs)) = Completed
              \<and> (\<forall>e. TopLevelError e
                       \<notin> set (console (run build updateChoice selectedPrefix loaded found fs)))))"
proof (intro conjI impI allI)
  assume "loaded = None"
  then show "run build updateChoice selectedPrefix loaded found fs
        = \<lparr>exit_code = 1, final_files = fs, console = [YamlLoadFailed]\<rparr>"
    by (simp add: run_def)
next
  fix m assume "loaded = Some m"
  then show "exit_code (run build updateChoice selectedPrefix loaded found fs) = 0"
    by (simp add: run_def split: prod.splits option.splits)
next
  fix m e assume l: "loaded = Some m"
    and f: "snd (main build updateChoice selectedPrefix m found (fs, [])) = Some e"
  from f l have c: "console (run build updateChoice selectedPrefix loaded found fs)
      = snd (fst (main build updateChoice selectedPrefix m found (fs, []))) @ [TopLevelError e]"
    by (auto simp: run_def split: prod.splits option.splits)
  show "last (console (run build updateChoice selectedPrefix loaded found fs)) = TopLevelError e"
    unfolding c by simp
  show "Completed \<notin> set (console (run build updateChoice selectedPrefix loaded found fs))"
    unfolding c using step_event_not_completed[OF main_fails[OF f]] by simp
next
  fix m assume l: "loaded = Some m"
    and s: "snd (main build updateChoice selectedPrefix m found (fs, [])) = None"
  from main_succeeds[OF s] obtain log where log: "list_all step_event log"
    "snd (fst (main build updateChoice selectedPrefix m found (fs, []))) = log @ [Completed]"
    by blast
  from s l log(2) have c: "console (run build updateChoice selectedPrefix loaded found fs) = log @ [Completed]"
    by (auto simp: run_def split: prod.splits option.splits)
  show "last (console (run build updateChoice selectedPrefix loaded found fs)) = Completed"
    unfolding c by simp
  fix e
  show "TopLevelError e \<notin> set (console (run build updateChoice selectedPrefix loaded found fs))"
    unfolding c using step_event_not_handler[OF log(1), of e] by simp
qed

text \<open>
  Claim C7 as stated (a failure other than a manifest load failure leaves a non-zero exit
  status) fails: with a vehicle init-data document that lacks its root field,
  \<^verbatim>\<open>main\<close> raises, the handler logs the error, and the exit code is 0.
\<close>

theorem failure_exits_with_zero:
  "snd (main no_text UpdateOnlyMetaFiles ''1'' empty_manifest (Inr example_meta_data) (Map.empty, []))
     = Some TypeError
   \<and> exit_code (run no_text UpdateOnlyMetaFiles ''1'' (Some empty_manifest) (Inr example_meta_data) Map.empty) = 0
   \<and> console (run no_text UpdateOnlyMetaFiles ''1'' (Some empty_manifest) (Inr example_meta_data) Map.empty)
       = [TopLevelError TypeError]"
  by code_simp

theorem exit_status_witness:
  "run no_text UpdateOnlyModkits ''3'' None (Inr example_meta_data) Map.empty
     = \<lparr>exit_code = 1, final_files = Map.empty, console = [YamlLoadFailed]\<rparr>
   \<and> exit_code (run no_text UpdateOnlyModkits ''3'' (Some empty_manifest) (Inr example_meta_data) Map.empty) = 0
   \<and> last (console (run no_text UpdateOnlyModkits ''3'' (Some empty_manifest) (Inr example_meta_data) Map.empty))
       = Completed
   \<and> last (console (run no_text UpdateOnlyMetaFiles ''3'' (Some empty_manifest) (Inr example_meta_data) Map.empty))
       = TopLevelError TypeError"
proof -
  have ok: "snd (main no_text UpdateOnlyModkits ''3'' empty_manifest (Inr example_meta_data) (Map.empty, [])) = None"
    by code_simp
  have bad: "snd (main no_text UpdateOnlyMetaFiles ''3'' empty_manifest (Inr example_meta_data) (Map.empty, []))
      = Some TypeError"
    by code_simp
  from exit_status[of None no_text UpdateOnlyModkits "''3''" "Inr example_meta_data" Map.empty]
  have a: "run no_text UpdateOnlyModkits ''3'' None (Inr example_meta_data) Map.empty
     = \<lparr>exit_code = 1, final_files = Map.empty, console = [YamlLoadFailed]\<rparr>" by simp
  from exit_status[of "Some empty_manifest" no_text UpdateOnlyModkits "''3''" "Inr example_meta_data" Map.empty] ok
  have b: "exit_code (run no_text UpdateOnlyModkits ''3'' (Some empty_manifest) (Inr example_meta_data) Map.empty) = 0"
    and c: "last (console (run no_text UpdateOnlyModkits ''3'' (Some empty_manifest) (Inr example_meta_data) Map.empty))
       = Completed" by simp_all
  from exit_status[of "Some empty_manifest" no_text UpdateOnlyMetaFiles "''3''" "Inr example_meta_data" Map.empty] bad
  have d: "last (console (run no_text UpdateOnlyMetaFiles ''3'' (Some empty_manifest) (Inr example_meta_data) Map.empty))
       = TopLevelError TypeError" by simp
  from a b c d show ?thesis by (intro conjI)
qed

section \<open>Verification: the Script Text Rewriter\<close>

lemma occurs_in_iff: "occurs_in pat content \<longleftrightarrow> (\<exists>i \<le> length content. take (length pat) (drop i content) = pat)"
  by (auto simp: occurs_in_def list_ex_iff less_Suc_eq_le simp del: upt_Suc)

lemma occurs_in_tail: "occurs_in pat cs \<Longrightarrow> occurs_in pat (c # cs)"
  unfolding occurs_in_iff
proof -
  assume "\<exists>i \<le> length cs. take (length pat) (drop i cs) = pat"
  then obtain i where "i \<le> length cs" "take (length pat) (drop i cs) = pat" by blast
  then have "Suc i \<le> length (c # cs) \<and> take (length pat) (drop (Suc i) (c # cs)) = pat" by simp
  then show "\<exists>i \<le> length (c # cs). take (length pat) (drop i (c # cs)) = pat" by blast
qed

lemma occurs_in_head: "take (length pat) content = pat \<Longrightarrow> occurs_in pat content"
  unfolding occurs_in_iff by (rule exI[of _ 0]) simp

lemma replace_from_without_occurrence:
  assumes "pat \<noteq> []" and "\<not> occurs_in pat rest"
  shows "replace_from pat rep preceding rest = rest"
  using assms(2)
proof (induction rest arbitrary: preceding)
  case Nil
  show ?case using assms(1) by (subst replace_from.simps) simp
next
  case (Cons c cs)
  from Cons.prems have no_head: "take (length pat) (c # cs) \<noteq> pat"
    using occurs_in_head by blast
  from Cons.prems have "\<not> occurs_in pat cs"
    using occurs_in_tail by blast
  then have "replace_from pat rep (preceding @ [c]) cs = cs" by (rule Cons.IH)
  then show ?case
    using assms(1) no_head by (subst replace_from.simps) simp
qed

lemma replaceAll_without_occurrence:
  "pat \<noteq> [] \<Longrightarrow> \<not> occurs_in pat content \<Longrightarrow> replaceAll pat rep content = content"
  by (simp add: replaceAll_def replace_from_without_occurrence)

lemma rewrite_ulc_without_quoted:
  assumes "list_all (\<lambda>(originalModelName, spawnCode). \<not> occurs_in (quoted originalModelName) ulcContent)
             spawnCodes"
  shows "rewrite_ulc spawnCodes ulcContent = ulcContent"
  using assms
proof (induction spawnCodes)
  case Nil
  show ?case by (simp add: rewrite_ulc_def)
next
  case (Cons kv spawnCodes)
  obtain k v where kv: "kv = (k, v)" by (cases kv)
  from Cons.prems kv have "\<not> occurs_in (quoted k) ulcContent" by simp
  moreover have "quoted k \<noteq> []" by (simp add: quoted_def)
  ultimately have "replaceAll (quoted k) (quoted v) ulcContent = ulcContent"
    by (intro replaceAll_without_occurrence)
  moreover from Cons have "rewrite_ulc spawnCodes ulcContent = ulcContent" by simp
  ultimately show ?case by (simp add: rewrite_ulc_def kv)
qed

lemma updateUlcFile_without_quoted:
  assumes "fs ulcPath = Some ulcContent"
    and "list_all (\<lambda>(originalModelName, spawnCode). \<not> occurs_in (quoted originalModelName) ulcContent)
           spawnCodes"
  shows "updateUlcFile ulcPath spawnCodes (fs, log) = (fs, log)"
proof -
  have "fs(ulcPath \<mapsto> ulcContent) = fs" using assms(1) by (rule map_upd_triv)
  then show ?thesis
    using assms by (simp add: updateUlcFile_def rewrite_ulc_without_quoted)
qed

lemma getSubstitution_plain:
  "CHR ''$'' \<notin> set rep \<Longrightarrow> getSubstitution matched preceding following rep = rep"
  by (induction matched preceding following rep rule: getSubstitution.induct) auto

lemma replace_from_first_occurrence:
  assumes "pat \<noteq> []"
    and "\<And>i. i < length pre \<Longrightarrow> take (length pat) (drop i (pre @ pat @ post)) \<noteq> pat"
  shows "replace_from pat rep preceding (pre @ pat @ post)
           = pre @ getSubstitution pat (preceding @ pre) post rep
               @ replace_from pat rep (preceding @ pre @ pat) post"
  using assms(2)
proof (induction pre arbitrary: preceding)
  case Nil
  show ?case using assms(1) by (subst replace_from.simps) simp
next
  case (Cons c cs)
  from Cons.prems[of 0] have no_head: "take (length pat) ((c # cs) @ pat @ post) \<noteq> pat" by simp
  have "\<And>i. i < length cs \<Longrightarrow> take (length pat) (drop i (cs @ pat @ post)) \<noteq> pat"
    using Cons.prems[of "Suc i" for i] by simp
  then have "replace_from pat rep (preceding @ [c]) (cs @ pat @ post)
      = cs @ getSubstitution pat ((preceding @ [c]) @ cs) post rep
          @ replace_from pat rep ((preceding @ [c]) @ cs @ pat) post"
    by (rule Cons.IH)
  then show ?case
    using assms(1) no_head by (subst replace_from.simps) simp
qed

text \<open>
  The extended script on a text with one quoted occurrence of an identifier: the occurrence
  becomes the quoted new code (a new code without a dollar sign is taken literally) and
  the text around it stays.
\<close>

lemma rewrite_ulc_single_occurrence:
  assumes "\<And>i. i < length pre
             \<Longrightarrow> take (length (quoted originalModelName))
                   (drop i (pre @ quoted originalModelName @ post)) \<noteq> quoted originalModelName"
    and "\<not> occurs_in (quoted originalModelName) post"
    and "CHR ''$'' \<notin> set spawnCode"
  shows "rewrite_ulc [(originalModelName, spawnCode)] (pre @ quoted originalModelName @ post)
           = pre @ quoted spawnCode @ post"
proof -
  have ne: "quoted originalModelName \<noteq> []" by (simp add: quoted_def)
  have plain: "CHR ''$'' \<notin> set (quoted spawnCode)"
    using assms(3) by (simp add: quoted_def)
  have "replace_from (quoted originalModelName) (quoted spawnCode) []
          (pre @ quoted originalModelName @ post)
      = pre @ getSubstitution (quoted originalModelName) ([] @ pre) post (quoted spawnCode)
          @ replace_from (quoted originalModelName) (quoted spawnCode)
              ([] @ pre @ quoted originalModelName) post"
    using ne assms(1) by (rule replace_from_first_occurrence)
  also have "\<dots> = pre @ quoted spawnCode @ post"
    using getSubstitution_plain[OF plain] replace_from_without_occurrence[OF ne assms(2)]
    by simp
  finally show ?thesis by (simp add: rewrite_ulc_def replaceAll_def)
qed

text \<open>A new code that holds a replacement pattern is not taken literally: \<^verbatim>\<open>$&\<close> in it is
  filled with the matched text.\<close>

lemma rewrite_ulc_replacement_pattern:
  "rewrite_ulc [(''oldcar'', ''A$&1'')] (quoted ''oldcar'') = quoted (''A'' @ quoted ''oldcar'' @ ''1'')"
  by code_simp

text \<open>
  Claim C3 (an identifier is replaced only in its quoted form). The extended script does
  so (\<open>updateUlcFile_without_quoted\<close>); \<^verbatim>\<open>updateUlcFile\<close> of \<^verbatim>\<open>build.mjs\<close> replaces the bare
  identifier. In a script text without any quoted identifier it turns the unquoted
  substring \<^verbatim>\<open>oldcar\<close> of \<^verbatim>\<open>oldcar2\<close> into \<^verbatim>\<open>ABC1\<close>, where the extended script leaves the
  text as it is.
\<close>

theorem updateUlcFile_build_replaces_unquoted:
  "\<not> occurs_in (quoted ''oldcar'') ''spawn(oldcar2)''
   \<and> fst (updateUlcFile_build ulcFilePath oldcar_codes
            (Map.empty(ulcFilePath \<mapsto> ''spawn(oldcar2)''), [])) ulcFilePath
       = Some ''spawn(ABC12)''
   \<and> fst (updateUlcFile ulcFilePath oldcar_codes
            (Map.empty(ulcFilePath \<mapsto> ''spawn(oldcar2)''), [])) ulcFilePath
       = Some ''spawn(oldcar2)''"
  by code_simp

lemma rewrite_ulc_replaces_quoted:
  "rewrite_ulc oldcar_codes (''x = '' @ quoted ''oldcar'' @ '' -- oldcar'')
     = ''x = '' @ quoted ''ABC1'' @ '' -- oldcar''"
  by code_simp

text \<open>
  Claim C4 (matching is case-insensitive). The extended script lowers the identifier before
  the lookup (\<open>variation_item_rewritten\<close>, \<open>vehicle_item_rewritten\<close>); \<^verbatim>\<open>updateMetaFiles\<close> of
  \<^verbatim>\<open>build.mjs\<close> looks the identifier up as it is. For the mapping of \<^verbatim>\<open>oldcar\<close> to
  \<^verbatim>\<open>ABC1\<close> it leaves the items named \<^verbatim>\<open>OldCar\<close> untouched, where the extended script
  rewrites them.
\<close>

theorem update_item_build_is_case_sensitive:
  "autoIncrementSpawnCodes oldcar_entries = oldcar_codes
   \<and> update_vehicle_item_build oldcar_codes oldcar_data oldcar_entries (vehicle_item ''OldCar'')
       = (vehicle_item ''OldCar'', None)
   \<and> update_variation_item_build oldcar_codes (variation_item ''OldCar'')
       = (variation_item ''OldCar'', None)
   \<and> read_path model_name
         (fst (update_vehicle_item oldcar_codes oldcar_data oldcar_entries (vehicle_item ''OldCar'')))
       = Inr (JStr ''ABC1'')
   \<and> read_path model_name (fst (update_variation_item oldcar_codes (variation_item ''OldCar'')))
       = Inr (JStr ''ABC1'')"
  by code_simp

text \<open>
  Claim C9 (an item whose identifier is absent from the mapping is left unchanged). The
  mapping is an object literal, so for an item named \<^verbatim>\<open>constructor\<close> the lookup yields the
  inherited function \<^verbatim>\<open>Object\<close>, which passes the test \<^verbatim>\<open>if (spawnCode)\<close>: the
  variation-data item gets that function as its identifier, and the init-data item has
  three fields overwritten before the missing template raises. A builder that refuses a
  function then raises on the changed variation-data document, so that nothing is written
  and the run ends with that error. Items whose identifier is neither a key nor an
  inherited member are left unchanged (\<open>unmapped_item_unchanged\<close>).
\<close>

theorem update_item_rewrites_unmapped_item:
  "map_of oldcar_codes ''constructor'' = None
   \<and> update_variation_item oldcar_codes (variation_item ''constructor'')
       = (JObj [(''modelName'', JArr [JBuiltin (NativeFunction ''Object'')]),
                (''colors'', JArr [JStr ''''])], None)
   \<and> update_vehicle_item oldcar_codes oldcar_data oldcar_entries (vehicle_item ''constructor'')
       = (JObj [(''modelName'', JArr [JBuiltin (NativeFunction ''Object'')]),
                (''txdName'', JArr [JBuiltin (NativeFunction ''Object'')]),
                (''handlingId'', JArr [JStr ''ADDER'']),
                (''gameName'', JArr [JBuiltin (NativeFunction ''Object'')]),
                (''audioNameHash'', JArr [JStr ''ADDER''])], Some TypeError)
   \<and> snd (updateMetaFiles example_build []
              [\<lparr>path = ''build/meta/carvariations.meta'',
                contents = variations_document [variation_item ''constructor'']\<rparr>]
              oldcar_codes oldcar_data oldcar_entries (Map.empty, []))
       = Some BuildError
   \<and> fst (fst (updateMetaFiles example_build []
                   [\<lparr>path = ''build/meta/carvariations.meta'',
                     contents = variations_document [variation_item ''constructor'']\<rparr>]
                   oldcar_codes oldcar_data oldcar_entries (Map.empty, [])))
         ''build/meta/carvariations.meta''
       = None"
  by code_simp

section \<open>Verification: the Metadata Rewriter\<close>

lemma write_back_same: "read_step s v = Inr c \<Longrightarrow> write_step s v c = v"
proof (cases s)
  case (Prop k)
  assume r: "read_step s v = Inr c"
  show ?thesis
  proof (cases v)
    case (JObj kvs)
    show ?thesis
    proof (cases "map_of kvs k")
      case None
      with JObj Prop show ?thesis by simp
    next
      case (Some x)
      with r JObj Prop have "x = c" by simp
      with Some have "AList.update k c kvs = kvs" by (simp add: update_triv)
      with JObj Prop Some show ?thesis by simp
    qed
  qed (use Prop in simp_all)
next
  case First
  assume r: "read_step s v = Inr c"
  show ?thesis
  proof (cases v)
    case (JObj kvs)
    show ?thesis
    proof (cases "map_of kvs ''0''")
      case None
      with JObj First show ?thesis by simp
    next
      case (Some x)
      with r JObj First have "x = c" by simp
      with Some have "AList.update ''0'' c kvs = kvs" by (simp add: update_triv)
      with JObj First Some show ?thesis by simp
    qed
  next
    case (JArr xs)
    with r First show ?thesis by (cases xs) auto
  qed (use First in simp_all)
qed

lemma at_path_identity:
  "read_path ps v = Inr t \<Longrightarrow> f t = (t, r) \<Longrightarrow> at_path ps f v = (v, r)"
proof (induction ps arbitrary: v)
  case Nil
  then show ?case by simp
next
  case (Cons s ps)
  then obtain c where c: "read_step s v = Inr c" and p: "read_path ps c = Inr t"
    by (auto split: sum.splits)
  from Cons.IH[OF p Cons.prems(2)] c show ?case
    by (simp add: write_back_same)
qed

lemma forEach_list_identity:
  "list_all (\<lambda>x. callback x = (x, None)) xs \<Longrightarrow> forEach_list callback xs = (xs, None)"
  by (induction xs) auto

lemma unmapped_item_unchanged:
  assumes "unmapped spawnCodes item"
  shows "update_vehicle_item spawnCodes vehicleData buildData item = (item, None)"
    and "update_variation_item spawnCodes item = (item, None)"
  using assms
  by (auto simp: unmapped_def update_vehicle_item_def update_variation_item_def model_name_def
      toLowerCase_def slot_value_def truthy_def Let_def
      split: sum.splits jsval.splits slot.splits)

text \<open>
  Non-match passthrough for the extended script: when every item of a document is unmapped,
  the rewrite leaves the whole document as it is and raises nothing.
\<close>

lemma unmapped_document_unchanged:
  assumes "read_path vehicle_items vehicleMetaData = Inr (JArr vitems)"
    and "list_all (unmapped spawnCodes) vitems"
    and "read_path variation_items carvarMetaData = Inr (JArr citems)"
    and "list_all (unmapped spawnCodes) citems"
  shows "at_path vehicle_items (forEach (update_vehicle_item spawnCodes vehicleData buildData))
           vehicleMetaData = (vehicleMetaData, None)"
    and "at_path variation_items (forEach (update_variation_item spawnCodes)) carvarMetaData
           = (carvarMetaData, None)"
proof -
  have "forEach_list (update_vehicle_item spawnCodes vehicleData buildData) vitems = (vitems, None)"
    using assms(2) by (intro forEach_list_identity) (simp add: list_all_iff unmapped_item_unchanged)
  then have "forEach (update_vehicle_item spawnCodes vehicleData buildData) (JArr vitems)
      = (JArr vitems, None)"
    by (simp add: forEach_def)
  with assms(1) show "at_path vehicle_items (forEach (update_vehicle_item spawnCodes vehicleData buildData))
           vehicleMetaData = (vehicleMetaData, None)"
    by (rule at_path_identity)
  have "forEach_list (update_variation_item spawnCodes) citems = (citems, None)"
    using assms(4) by (intro forEach_list_identity) (simp add: list_all_iff unmapped_item_unchanged)
  then have "forEach (update_variation_item spawnCodes) (JArr citems) = (JArr citems, None)"
    by (simp add: forEach_def)
  with assms(3) show "at_path variation_items (forEach (update_variation_item spawnCodes)) carvarMetaData
           = (carvarMetaData, None)"
    by (rule at_path_identity)
qed

lemma assign_first_field:
  assumes "get_prop item name = Inr (JArr xs)"
  shows "snd (at_path [Prop name] (assign_first v) item) = None"
    and "get_prop (fst (at_path [Prop name] (assign_first v) item)) name = Inr (JArr (with_first v xs))"
    and "k \<noteq> name \<Longrightarrow> get_prop (fst (at_path [Prop name] (assign_first v) item)) k = get_prop item k"
proof -
  have r: "read_path [Prop name] item = Inr (JArr xs)" using assms by simp
  have c: "container (JArr xs)" by (simp add: container_def)
  have f: "assign_first v (JArr xs) = (JArr (with_first v xs), None)"
    by (simp add: assign_first_def with_first_def)
  show "snd (at_path [Prop name] (assign_first v) item) = None"
    using at_path_result[OF r, of "assign_first v"] f by simp
  have "read_path [Prop name] (fst (at_path [Prop name] (assign_first v) item))
      = Inr (JArr (with_first v xs))"
    using read_after_at_path[OF r c, of "assign_first v"] f by simp
  then show "get_prop (fst (at_path [Prop name] (assign_first v) item)) name = Inr (JArr (with_first v xs))"
    by (simp split: sum.splits)
  show "k \<noteq> name \<Longrightarrow> get_prop (fst (at_path [Prop name] (assign_first v) item)) k = get_prop item k"
    by (rule get_prop_after_at_path)
qed

text \<open>
  Matching in the extended script: an item whose identifier differs from a key of the
  mapping only in letter case is rewritten. For a variation-data item the identifier
  becomes the new code and no other field changes.
\<close>

lemma variation_item_rewritten:
  assumes "get_prop item ''modelName'' = Inr (JArr (JStr name # others))"
    and "map_of spawnCodes (map lower_char name) = Some spawnCode" and "spawnCode \<noteq> []"
  shows "snd (update_variation_item spawnCodes item) = None"
    and "get_prop (fst (update_variation_item spawnCodes item)) ''modelName''
           = Inr (JArr (JStr spawnCode # others))"
    and "k \<noteq> ''modelName''
           \<Longrightarrow> get_prop (fst (update_variation_item spawnCodes item)) k = get_prop item k"
proof -
  have eq: "update_variation_item spawnCodes item
      = at_path [Prop ''modelName''] (assign_first (JStr spawnCode)) item"
    using assms
    by (simp add: update_variation_item_def toLowerCase_def plain_get_def slot_value_def truthy_def)
  show "snd (update_variation_item spawnCodes item) = None"
    unfolding eq using assms(1) by (rule assign_first_field(1))
  show "get_prop (fst (update_variation_item spawnCodes item)) ''modelName''
           = Inr (JArr (JStr spawnCode # others))"
    unfolding eq using assign_first_field(2)[OF assms(1), of "JStr spawnCode"]
    by (simp add: with_first_def)
  show "k \<noteq> ''modelName''
           \<Longrightarrow> get_prop (fst (update_variation_item spawnCodes item)) k = get_prop item k"
    unfolding eq using assms(1) by (rule assign_first_field(3))
qed

lemma and_then_ok: "snd r = None \<Longrightarrow> and_then r next_statement = next_statement (fst r)"
  by (cases r) (simp add: and_then_def)

text \<open>
  For an item of a vehicle init-data list with the five fields in place and a template in
  the manifest, the identifier, the texture-dictionary name and the game name become the
  new code, the handling and audio references become the template's, and no other field
  changes.
\<close>

lemma vehicle_item_rewritten:
  assumes m: "get_prop item ''modelName'' = Inr (JArr (JStr name # others))"
    and t: "get_prop item ''txdName'' = Inr (JArr txd)"
    and g: "get_prop item ''gameName'' = Inr (JArr game)"
    and h: "get_prop item ''handlingId'' = Inr (JArr hid)"
    and a: "get_prop item ''audioNameHash'' = Inr (JArr aud)"
    and c: "map_of spawnCodes (map lower_char name) = Some spawnCode" "spawnCode \<noteq> []"
    and e: "map_of buildData (map lower_char name) = Some entry"
    and d: "map_of vehicleData (data entry) = Some tmpl"
  shows "snd (update_vehicle_item spawnCodes vehicleData buildData item) = None"
    and "get_prop (fst (update_vehicle_item spawnCodes vehicleData buildData item)) ''modelName''
           = Inr (JArr (JStr spawnCode # others))"
    and "get_prop (fst (update_vehicle_item spawnCodes vehicleData buildData item)) ''txdName''
           = Inr (JArr (with_first (JStr spawnCode) txd))"
    and "get_prop (fst (update_vehicle_item spawnCodes vehicleData buildData item)) ''gameName''
           = Inr (JArr (with_first (JStr spawnCode) game))"
    and "get_prop (fst (update_vehicle_item spawnCodes vehicleData buildData item)) ''handlingId''
           = Inr (JArr (with_first (JStr (handling tmpl)) hid))"
    and "get_prop (fst (update_vehicle_item spawnCodes vehicleData buildData item)) ''audioNameHash''
           = Inr (JArr (with_first (JStr (audio tmpl)) aud))"
    and "k \<notin> {''modelName'', ''txdName'', ''gameName'', ''handlingId'', ''audioNameHash''}
           \<Longrightarrow> get_prop (fst (update_vehicle_item spawnCodes vehicleData buildData item)) k
               = get_prop item k"
proof -
  define key where "key = map lower_char name"
  define s1 where "s1 = at_path [Prop ''modelName''] (assign_first (JStr spawnCode)) item"
  define s2 where "s2 = at_path [Prop ''txdName''] (assign_first (JStr spawnCode)) (fst s1)"
  define s3 where "s3 = at_path [Prop ''gameName''] (assign_first (JStr spawnCode)) (fst s2)"
  define s4 where "s4 = at_path [Prop ''handlingId''] (assign_first (JStr (handling tmpl))) (fst s3)"
  define s5 where "s5 = at_path [Prop ''audioNameHash''] (assign_first (JStr (audio tmpl))) (fst s4)"
  note f1 = assign_first_field[OF m, where v = "JStr spawnCode", folded s1_def]
  have t1: "get_prop (fst s1) ''txdName'' = Inr (JArr txd)" using f1(3)[where k = "''txdName''"] t by simp
  note f2 = assign_first_field[OF t1, where v = "JStr spawnCode", folded s2_def]
  have g2: "get_prop (fst s2) ''gameName'' = Inr (JArr game)"
    using f2(3)[where k = "''gameName''"] f1(3)[where k = "''gameName''"] g by simp
  note f3 = assign_first_field[OF g2, where v = "JStr spawnCode", folded s3_def]
  have h3: "get_prop (fst s3) ''handlingId'' = Inr (JArr hid)"
    using f3(3)[where k = "''handlingId''"] f2(3)[where k = "''handlingId''"] f1(3)[where k = "''handlingId''"] h by simp
  note f4 = assign_first_field[OF h3, where v = "JStr (handling tmpl)", folded s4_def]
  have a4: "get_prop (fst s4) ''audioNameHash'' = Inr (JArr aud)"
    using f4(3)[where k = "''audioNameHash''"] f3(3)[where k = "''audioNameHash''"] f2(3)[where k = "''audioNameHash''"]
      f1(3)[where k = "''audioNameHash''"] a by simp
  note f5 = assign_first_field[OF a4, where v = "JStr (audio tmpl)", folded s5_def]
  have ref: "data_ref buildData key = Inr (JStr (data entry))"
    using e by (simp add: data_ref_def plain_get_def key_def)
  have th: "assign_template_field ''handlingId'' handling vehicleData (JStr (data entry)) (fst s3) = s4"
    using d by (simp add: assign_template_field_def template_field_def plain_get_def s4_def)
  have ta: "assign_template_field ''audioNameHash'' audio vehicleData (JStr (data entry)) (fst s4) = s5"
    using d by (simp add: assign_template_field_def template_field_def plain_get_def s5_def)
  have "rename_vehicle_item (JStr spawnCode) key vehicleData buildData item = s5"
    unfolding rename_vehicle_item_def ref
    by (simp only: sum.case s1_def[symmetric] and_then_ok[OF f1(1)] s2_def[symmetric]
        and_then_ok[OF f2(1)] s3_def[symmetric] and_then_ok[OF f3(1)] th and_then_ok[OF f4(1)] ta)
  moreover have "update_vehicle_item spawnCodes vehicleData buildData item
      = rename_vehicle_item (JStr spawnCode) key vehicleData buildData item"
    using m c by (simp add: update_vehicle_item_def toLowerCase_def plain_get_def slot_value_def
        truthy_def key_def)
  ultimately have eq: "update_vehicle_item spawnCodes vehicleData buildData item = s5" by simp
  show "snd (update_vehicle_item spawnCodes vehicleData buildData item) = None"
    unfolding eq by (rule f5(1))
  show "get_prop (fst (update_vehicle_item spawnCodes vehicleData buildData item)) ''modelName''
           = Inr (JArr (JStr spawnCode # others))"
    unfolding eq
    using f5(3)[where k = "''modelName''"] f4(3)[where k = "''modelName''"] f3(3)[where k = "''modelName''"]
      f2(3)[where k = "''modelName''"] f1(2)
    by (simp add: with_first_def)
  show "get_prop (fst (update_vehicle_item spawnCodes vehicleData buildData item)) ''txdName''
           = Inr (JArr (with_first (JStr spawnCode) txd))"
    unfolding eq
    using f5(3)[where k = "''txdName''"] f4(3)[where k = "''txdName''"] f3(3)[where k = "''txdName''"] f2(2)
    by simp
  show "get_prop (fst (update_vehicle_item spawnCodes vehicleData buildData item)) ''gameName''
           = Inr (JArr (with_first (JStr spawnCode) game))"
    unfolding eq
    using f5(3)[where k = "''gameName''"] f4(3)[where k = "''gameName''"] f3(2)
    by simp
  show "get_prop (fst (update_vehicle_item spawnCodes vehicleData buildData item)) ''handlingId''
           = Inr (JArr (with_first (JStr (handling tmpl)) hid))"
    unfolding eq
    using f5(3)[where k = "''handlingId''"] f4(2)
    by simp
  show "get_prop (fst (update_vehicle_item spawnCodes vehicleData buildData item)) ''audioNameHash''
           = Inr (JArr (with_first (JStr (audio tmpl)) aud))"
    unfolding eq by (rule f5(2))
  show "get_prop (fst (update_vehicle_item spawnCodes vehicleData buildData item)) k = get_prop item k"
    if "k \<notin> {''modelName'', ''txdName'', ''gameName'', ''handlingId'', ''audioNameHash''}"
    unfolding eq
    using that f5(3)[where k = k] f4(3)[where k = k] f3(3)[where k = k] f2(3)[where k = k] f1(3)[where k = k]
    by simp
qed

section \<open>Verification: structural mismatch\<close>

lemma forEach_not_array:
  "(case t of JArr xs \<Rightarrow> False | _ \<Rightarrow> True) \<Longrightarrow> snd (forEach callback t) = Some TypeError"
  by (cases t) (simp_all add: forEach_def)

lemma forEach_list_fails:
  "list_ex (\<lambda>x. snd (callback x) \<noteq> None) xs \<Longrightarrow> snd (forEach_list callback xs) \<noteq> None"
  by (induction xs) (auto split: prod.splits option.splits)

lemma item_without_name_raises:
  assumes "variation_item_lacks item"
  shows "snd (update_vehicle_item spawnCodes vehicleData buildData item) \<noteq> None"
    and "snd (update_variation_item spawnCodes item) \<noteq> None"
  using assms
  by (auto simp: variation_item_lacks_def update_vehicle_item_def update_variation_item_def
      model_name_def simp del: read_path.simps split: sum.splits)

lemma and_then_fails_iff:
  "snd (and_then r next_statement) = None \<longleftrightarrow> snd r = None \<and> snd (next_statement (fst r)) = None"
  by (cases r) (auto simp: and_then_def split: option.splits)

lemma assign_to_absent_field:
  assumes "field_absent v k"
  shows "snd (at_path [Prop k] (assign_first x) v) \<noteq> None"
proof (cases "get_prop v k")
  case (Inl e)
  then show ?thesis by simp
next
  case (Inr u)
  with assms have "nullish u" by (simp add: field_absent_def)
  then have "snd (assign_first x u) \<noteq> None"
    by (auto simp: nullish_def assign_first_def)
  with Inr show ?thesis by (auto split: prod.splits)
qed

lemma assign_template_to_absent_field:
  assumes "field_absent v k"
  shows "snd (assign_template_field k field vehicleData dataRef v) \<noteq> None"
  using assign_to_absent_field[OF assms]
  by (cases "template_field field vehicleData dataRef")
    (simp_all add: assign_template_field_def del: at_path.simps)

lemma field_absent_after_assign:
  "k' \<noteq> k \<Longrightarrow> field_absent (fst (at_path [Prop k'] f v)) k = field_absent v k"
  unfolding field_absent_def
  using get_prop_after_at_path[of k k' "[]" f v] by simp

lemma field_absent_after_template:
  "k' \<noteq> k \<Longrightarrow> field_absent (fst (assign_template_field k' field vehicleData dataRef v)) k
     = field_absent v k"
  by (cases "template_field field vehicleData dataRef")
    (simp_all add: assign_template_field_def field_absent_after_assign del: at_path.simps)

lemma rename_vehicle_item_absent_field:
  assumes "list_ex (field_absent item) [''txdName'', ''gameName'', ''handlingId'', ''audioNameHash'']"
  shows "snd (rename_vehicle_item spawnCode originalModelName vehicleData buildData item) \<noteq> None"
proof (cases "data_ref buildData originalModelName")
  case (Inl e)
  then show ?thesis by (simp add: rename_vehicle_item_def)
next
  case (Inr dataRef)
  from assms consider "field_absent item ''txdName''" | "field_absent item ''gameName''"
    | "field_absent item ''handlingId''" | "field_absent item ''audioNameHash''"
    by auto
  then show ?thesis
  proof cases
    case 1
    then show ?thesis
      using Inr
      by (simp add: rename_vehicle_item_def and_then_fails_iff field_absent_after_assign
          assign_to_absent_field del: at_path.simps)
  next
    case 2
    then show ?thesis
      using Inr
      by (simp add: rename_vehicle_item_def and_then_fails_iff field_absent_after_assign
          assign_to_absent_field del: at_path.simps)
  next
    case 3
    then show ?thesis
      using Inr
      by (simp add: rename_vehicle_item_def and_then_fails_iff field_absent_after_assign
          assign_template_to_absent_field del: at_path.simps)
  next
    case 4
    then show ?thesis
      using Inr
      by (simp add: rename_vehicle_item_def and_then_fails_iff field_absent_after_assign
          field_absent_after_template assign_template_to_absent_field del: at_path.simps)
  qed
qed

lemma vehicle_item_lacks_raises:
  assumes "vehicle_item_lacks spawnCodes item"
  shows "snd (update_vehicle_item spawnCodes vehicleData buildData item) \<noteq> None"
proof (cases "variation_item_lacks item")
  case True
  then show ?thesis by (rule item_without_name_raises(1))
next
  case False
  with assms have m: "item_matched spawnCodes item"
    and a: "list_ex (field_absent item) [''txdName'', ''gameName'', ''handlingId'', ''audioNameHash'']"
    by (simp_all add: vehicle_item_lacks_def)
  from m obtain name spawnCode where n: "read_path model_name item = Inr (JStr name)"
    and c: "map_of spawnCodes (map lower_char name) = Some spawnCode" "spawnCode \<noteq> []"
    unfolding item_matched_def by (auto split: sum.splits jsval.splits option.splits)
  have "update_vehicle_item spawnCodes vehicleData buildData item
      = rename_vehicle_item (JStr spawnCode) (map lower_char name) vehicleData buildData item"
    using n c
    by (simp add: update_vehicle_item_def model_name_def toLowerCase_def plain_get_def
        slot_value_def truthy_def del: read_path.simps)
  with rename_vehicle_item_absent_field[OF a] show ?thesis by simp
qed

lemma field_missing_raises:
  assumes "field_missing items lacks metaData"
    and "\<And>item. lacks item \<Longrightarrow> snd (callback item) \<noteq> None"
  shows "snd (at_path items (forEach callback) metaData) \<noteq> None"
proof (cases "read_path items metaData")
  case (Inl e)
  then show ?thesis by (simp add: at_path_error)
next
  case (Inr t)
  show ?thesis
  proof (cases "case t of JArr xs \<Rightarrow> False | _ \<Rightarrow> True")
    case True
    then have "snd (forEach callback t) = Some TypeError" by (rule forEach_not_array)
    with Inr show ?thesis by (simp add: at_path_result)
  next
    case False
    then obtain xs where t: "t = JArr xs" by (cases t) simp_all
    with assms(1) Inr have "list_ex lacks xs"
      by (simp add: field_missing_def)
    then obtain item where item: "item \<in> set xs" "lacks item"
      by (auto simp: list_ex_iff)
    from item(2) have "snd (callback item) \<noteq> None" by (rule assms(2))
    with item(1) have "list_ex (\<lambda>x. snd (callback x) \<noteq> None) xs"
      unfolding list_ex_iff by blast
    then have "snd (forEach_list callback xs) \<noteq> None" by (rule forEach_list_fails)
    then have "snd (forEach callback t) \<noteq> None"
      by (auto simp: forEach_def t split: prod.splits)
    with Inr show ?thesis by (simp add: at_path_result)
  qed
qed

lemma update_items_file_missing:
  assumes "field_missing items lacks (contents metaFile)"
    and "\<And>item. lacks item \<Longrightarrow> snd (callback item) \<noteq> None"
  shows "snd (update_items_file build items callback metaFile st) \<noteq> None"
proof -
  have "snd (at_path items (forEach callback) (contents metaFile)) \<noteq> None"
    using assms(1) by (rule field_missing_raises) (rule assms(2))
  then show ?thesis
    by (auto simp: update_items_file_def split: prod.splits option.splits)
qed

lemma vehicles_file_missing:
  assumes "field_missing vehicle_items (vehicle_item_lacks spawnCodes) (contents metaFile)"
  shows "snd (update_items_file build vehicle_items
                (update_vehicle_item spawnCodes vehicleData buildData) metaFile st) \<noteq> None"
  using assms by (rule update_items_file_missing) (rule vehicle_item_lacks_raises)

lemma variations_file_missing:
  assumes "field_missing variation_items variation_item_lacks (contents metaFile)"
  shows "snd (update_items_file build variation_items
                (update_variation_item spawnCodes) metaFile st) \<noteq> None"
  using assms by (rule update_items_file_missing) (rule item_without_name_raises(2))

lemma forEach_files_fails:
  assumes "x \<in> set xs" and "\<And>st. snd (callback x st) \<noteq> None"
  shows "snd (forEach_files callback xs st) \<noteq> None"
  using assms(1)
proof (induction xs arbitrary: st)
  case Nil
  then show ?case by simp
next
  case (Cons y ys)
  show ?case
  proof (cases "snd (callback y st)")
    case None
    have "y \<noteq> x" using assms(2)[of st] None by auto
    with Cons.prems have "x \<in> set ys" by simp
    from Cons.IH[OF this] None show ?thesis
      by (auto split: prod.splits)
  next
    case (Some e)
    then show ?thesis by (auto split: prod.splits)
  qed
qed

lemma updateMetaFiles_fatal:
  assumes "(\<exists>f \<in> set vehiclesArray. field_missing vehicle_items (vehicle_item_lacks spawnCodes) (contents f))
         \<or> (\<exists>f \<in> set carvarArray. field_missing variation_items variation_item_lacks (contents f))"
  shows "snd (updateMetaFiles build vehiclesArray carvarArray spawnCodes vehicleData buildData st) \<noteq> None"
proof -
  define cbv where "cbv = update_items_file build vehicle_items (update_vehicle_item spawnCodes vehicleData buildData)"
  define cbc where "cbc = update_items_file build variation_items (update_variation_item spawnCodes)"
  show ?thesis
  proof (cases "snd (forEach_files cbv vehiclesArray st)")
    case (Some e)
    then show ?thesis
      by (auto simp: updateMetaFiles_def cbv_def[symmetric] split: prod.splits)
  next
    case None
    have "\<not> (\<exists>f \<in> set vehiclesArray. field_missing vehicle_items (vehicle_item_lacks spawnCodes) (contents f))"
    proof
      assume "\<exists>f \<in> set vehiclesArray. field_missing vehicle_items (vehicle_item_lacks spawnCodes) (contents f)"
      then obtain f where f: "f \<in> set vehiclesArray"
        "field_missing vehicle_items (vehicle_item_lacks spawnCodes) (contents f)" by blast
      have "snd (forEach_files cbv vehiclesArray st) \<noteq> None"
        using f(1) by (rule forEach_files_fails)
          (simp add: cbv_def vehicles_file_missing[OF f(2)])
      with None show False by simp
    qed
    with assms obtain f where f: "f \<in> set carvarArray"
      "field_missing variation_items variation_item_lacks (contents f)"
      by blast
    have "\<And>st1. snd (forEach_files cbc carvarArray st1) \<noteq> None"
      using f(1) by (rule forEach_files_fails)
        (simp add: cbc_def variations_file_missing[OF f(2)])
    with None show ?thesis
      by (auto simp: updateMetaFiles_def cbv_def[symmetric] cbc_def[symmetric] split: prod.splits)
  qed
qed

lemma main_stops_at_error:
  assumes "snd (updateMetaFiles build (vehicles metaData) (carvariations metaData)
                  (autoIncrementSpawnCodes (manifest_vehicles buildData))
                  (manifest_data buildData) (manifest_vehicles buildData) st1) \<noteq> None"
  shows "st1 = renameVehicleFiles streamFolder (autoIncrementSpawnCodes (manifest_vehicles buildData)) st
         \<Longrightarrow> main build UpdateEverything selectedPrefix buildData (Inr metaData) st
             = updateMetaFiles build (vehicles metaData) (carvariations metaData)
                 (autoIncrementSpawnCodes (manifest_vehicles buildData))
                 (manifest_data buildData) (manifest_vehicles buildData) st1"
    and "st1 = st
         \<Longrightarrow> main build UpdateOnlyMetaFiles selectedPrefix buildData (Inr metaData) st
             = updateMetaFiles build (vehicles metaData) (carvariations metaData)
                 (autoIncrementSpawnCodes (manifest_vehicles buildData))
                 (manifest_data buildData) (manifest_vehicles buildData) st1"
  using assms by (auto simp: main_def run_choice_def split: prod.splits option.splits)

lemma reaches_broken_item_raises:
  "reaches_broken_item items
     \<Longrightarrow> snd (forEach_list (prefix_kit_item prefix) items) = Some TypeError"
proof (induction items)
  case Nil
  then show ?case by simp
next
  case (Cons item items)
  show ?case
  proof (cases "broken_kit_item item")
    case True
    then show ?thesis by (simp add: prefix_kit_item_broken)
  next
    case False
    with Cons.prems have p: "passable_item item" and r: "reaches_broken_item items" by simp_all
    from p have "snd (prefix_kit_item prefix item) = None" by (rule passable_item_ok)
    with Cons.IH[OF r] show ?thesis
      by (auto split: prod.splits option.splits)
  qed
qed

lemma kit_raises_error:
  assumes "kit_raises kit"
  shows "snd (prefix_kit prefix kit) = Some TypeError"
proof -
  from assms obtain items where i: "get_prop kit ''Item'' = Inr (JArr items)"
    and r: "reaches_broken_item items"
    unfolding kit_raises_def by (auto split: sum.splits jsval.splits)
  from prefix_kit_on_items(1)[OF i, of prefix] reaches_broken_item_raises[OF r, of prefix]
  show ?thesis by simp
qed

lemma reaches_broken_kit_raises:
  "reaches_broken_kit kits \<Longrightarrow> snd (forEach_list (prefix_kit prefix) kits) = Some TypeError"
proof (induction kits)
  case Nil
  then show ?case by simp
next
  case (Cons kit kits)
  show ?case
  proof (cases "kit_raises kit")
    case True
    then have "snd (prefix_kit prefix kit) = Some TypeError" by (rule kit_raises_error)
    then show ?thesis by (auto split: prod.splits option.splits)
  next
    case False
    with Cons.prems have p: "passable_kit kit" and r: "reaches_broken_kit kits" by simp_all
    from p have "snd (prefix_kit prefix kit) = None" by (rule passable_kit_ok)
    with Cons.IH[OF r] show ?thesis
      by (auto split: prod.splits option.splits)
  qed
qed

lemma id_attributes_missing_raises:
  assumes "id_attributes_missing carcolData"
  shows "snd (prefix_kits prefix carcolData) = Some TypeError"
proof -
  from assms obtain kits where k: "read_path kits_path carcolData = Inr (JArr kits)"
    and r: "reaches_broken_kit kits"
    unfolding id_attributes_missing_def by (auto split: sum.splits jsval.splits)
  from prefix_kits_on_kits(1)[OF k, of prefix] reaches_broken_kit_raises[OF r, of prefix]
  show ?thesis by simp
qed

lemma quiet_document_passes:
  assumes "quiet_document carcolData"
  shows "snd (prefix_kits prefix carcolData) = None"
proof -
  from assms obtain global where g: "get_prop carcolData ''CVehicleModelInfoVarGlobal'' = Inr global"
    unfolding quiet_document_def by (auto split: sum.splits)
  then have nn: "\<not> nullish carcolData" by (cases carcolData) (auto simp: nullish_def)
  show ?thesis
  proof (cases "nullish global")
    case True
    with g nn show ?thesis by (simp add: prefix_kits_def split: prod.splits)
  next
    case False
    with assms g obtain v where v: "get_prop global ''Kits'' = Inr v"
      and q: "(case v of JArr kits \<Rightarrow> list_all passable_kit kits | _ \<Rightarrow> nullish v)"
      unfolding quiet_document_def by (auto split: sum.splits jsval.splits)
    have "snd (forEach_optional (prefix_kit prefix) v) = None"
    proof (cases "\<exists>kits. v = JArr kits")
      case True
      then obtain kits where kits: "v = JArr kits" by blast
      with q have "list_all (\<lambda>x. snd (prefix_kit prefix x) = None) kits"
        by (simp add: list_all_iff passable_kit_ok)
      then have "forEach_list (prefix_kit prefix) kits = (map (\<lambda>x. fst (prefix_kit prefix x)) kits, None)"
        by (rule forEach_list_all_ok)
      then show ?thesis
        by (simp add: kits forEach_optional_def forEach_def nullish_def)
    next
      case False
      with q have "nullish v" by (cases v) auto
      then show ?thesis by (simp add: forEach_optional_def)
    qed
    with g v nn False show ?thesis
      by (auto simp: prefix_kits_def split: prod.splits)
  qed
qed

lemma fix_events_path:
  "ev \<in> set (fix_events prefix g) \<Longrightarrow> \<exists>e. ev = ErrorProcessingFile (path g) e"
  by (auto simp: fix_events_def split: option.splits)

text \<open>
  Claim C6, amended. In the Metadata Rewriter an absent field is fatal where the script
  reads or writes through it: on the path to the item list, the identifier of an item,
  and, in a matched item of a vehicle init-data list, \<^verbatim>\<open>txdName\<close>, \<^verbatim>\<open>gameName\<close>,
  \<^verbatim>\<open>handlingId\<close> and \<^verbatim>\<open>audioNameHash\<close>. Then \<^verbatim>\<open>updateMetaFiles\<close> raises and the run ends
  there: what \<^verbatim>\<open>main\<close> returns is what \<^verbatim>\<open>updateMetaFiles\<close> left, with the error, and no later
  step has run. An item whose identifier is not in the mapping (and is no member every
  object inherits) is left as it is and raises nothing, whatever else it lacks. In the
  modification-kit fixup, on documents the builder accepts, nothing is fatal and every
  document of the list is written. A document in which the fixup comes to an item whose
  \<^verbatim>\<open>id\<close> lacks its attributes has the error logged for its file. A document in which the
  root element or \<^verbatim>\<open>Kits\<close> is absent, or whose kits have no \<^verbatim>\<open>Item\<close> list or only items
  that are kit items or lack \<^verbatim>\<open>kitName\<close>, \<^verbatim>\<open>id\<close> or the \<^verbatim>\<open>value\<close> attribute, has nothing
  logged for its file.
\<close>

theorem structural_mismatch_policy:
  assumes "(\<exists>f \<in> set (vehicles metaData).
              field_missing vehicle_items
                (vehicle_item_lacks (autoIncrementSpawnCodes (manifest_vehicles m))) (contents f))
         \<or> (\<exists>f \<in> set (carvariations metaData).
              field_missing variation_items variation_item_lacks (contents f))"
    and "list_all (\<lambda>f. serialised build (fixed_document prefix f) \<noteq> None) carcolArray"
    and "distinct (map path carcolArray)"
  shows "(\<exists>e. snd (updateMetaFiles build (vehicles metaData) (carvariations metaData)
                   (autoIncrementSpawnCodes (manifest_vehicles m)) (manifest_data m)
                   (manifest_vehicles m) st) = Some e)
       \<and> main build UpdateOnlyMetaFiles selectedPrefix m (Inr metaData) st
           = updateMetaFiles build (vehicles metaData) (carvariations metaData)
               (autoIncrementSpawnCodes (manifest_vehicles m)) (manifest_data m)
               (manifest_vehicles m) st
       \<and> main build UpdateEverything selectedPrefix m (Inr metaData) st
           = updateMetaFiles build (vehicles metaData) (carvariations metaData)
               (autoIncrementSpawnCodes (manifest_vehicles m)) (manifest_data m)
               (manifest_vehicles m)
               (renameVehicleFiles streamFolder (autoIncrementSpawnCodes (manifest_vehicles m)) st)
       \<and> (\<forall>item. unmapped (autoIncrementSpawnCodes (manifest_vehicles m)) item \<longrightarrow>
             update_vehicle_item (autoIncrementSpawnCodes (manifest_vehicles m)) (manifest_data m)
                 (manifest_vehicles m) item = (item, None)
             \<and> update_variation_item (autoIncrementSpawnCodes (manifest_vehicles m)) item
                 = (item, None))
       \<and> snd (fixModkits build carcolArray prefix (fs, log)) = None
       \<and> (\<forall>f \<in> set carcolArray.
             fst (fst (fixModkits build carcolArray prefix (fs, log))) (path f)
               = serialised build (fixed_document prefix f))
       \<and> (\<forall>f \<in> set carcolArray. id_attributes_missing (contents f) \<longrightarrow>
             ErrorProcessingFile (path f) TypeError
               \<in> set (snd (fst (fixModkits build carcolArray prefix (fs, log)))))
       \<and> (\<forall>f \<in> set carcolArray. quiet_document (contents f) \<longrightarrow>
             (\<forall>e. ErrorProcessingFile (path f) e
                    \<notin> set (drop (length log)
                              (snd (fst (fixModkits build carcolArray prefix (fs, log)))))))"
proof -
  have a: "\<exists>e. snd (updateMetaFiles build (vehicles metaData) (carvariations metaData)
                   (autoIncrementSpawnCodes (manifest_vehicles m)) (manifest_data m)
                   (manifest_vehicles m) st) = Some e"
    using updateMetaFiles_fatal[OF assms(1), of build "manifest_data m" "manifest_vehicles m" st]
    by auto
  have b: "main build UpdateOnlyMetaFiles selectedPrefix m (Inr metaData) st
           = updateMetaFiles build (vehicles metaData) (carvariations metaData)
               (autoIncrementSpawnCodes (manifest_vehicles m)) (manifest_data m)
               (manifest_vehicles m) st"
    by (rule main_stops_at_error(2)[OF updateMetaFiles_fatal[OF assms(1)]]) simp
  have c: "main build UpdateEverything selectedPrefix m (Inr metaData) st
           = updateMetaFiles build (vehicles metaData) (carvariations metaData)
               (autoIncrementSpawnCodes (manifest_vehicles m)) (manifest_data m)
               (manifest_vehicles m)
               (renameVehicleFiles streamFolder (autoIncrementSpawnCodes (manifest_vehicles m)) st)"
    by (rule main_stops_at_error(1)[OF updateMetaFiles_fatal[OF assms(1)]]) simp
  have u: "\<forall>item. unmapped (autoIncrementSpawnCodes (manifest_vehicles m)) item \<longrightarrow>
             update_vehicle_item (autoIncrementSpawnCodes (manifest_vehicles m)) (manifest_data m)
                 (manifest_vehicles m) item = (item, None)
             \<and> update_variation_item (autoIncrementSpawnCodes (manifest_vehicles m)) item
                 = (item, None)"
    by (simp add: unmapped_item_unchanged)
  have d: "snd (fixModkits build carcolArray prefix (fs, log)) = None"
    using assms(2) by (rule fixModkits_returns)
  note e = fixModkits_log[OF assms(2), of fs log]
  have w: "\<forall>f \<in> set carcolArray.
             fst (fst (fixModkits build carcolArray prefix (fs, log))) (path f)
               = serialised build (fixed_document prefix f)"
    using fixModkits_writes[OF assms(2,3)] by blast
  have l: "\<forall>f \<in> set carcolArray. id_attributes_missing (contents f) \<longrightarrow>
             ErrorProcessingFile (path f) TypeError
               \<in> set (snd (fst (fixModkits build carcolArray prefix (fs, log))))"
  proof (intro ballI impI)
    fix f assume f: "f \<in> set carcolArray" and x: "id_attributes_missing (contents f)"
    from x have "snd (prefix_kits prefix (contents f)) = Some TypeError"
      by (rule id_attributes_missing_raises)
    then have "ErrorProcessingFile (path f) TypeError \<in> set (fix_events prefix f)"
      by (simp add: fix_events_def)
    with f have "ErrorProcessingFile (path f) TypeError \<in> set (concat (map (fix_events prefix) carcolArray))"
      by auto
    then show "ErrorProcessingFile (path f) TypeError
               \<in> set (snd (fst (fixModkits build carcolArray prefix (fs, log))))"
      unfolding e by simp
  qed
  have q: "\<forall>f \<in> set carcolArray. quiet_document (contents f) \<longrightarrow>
             (\<forall>e. ErrorProcessingFile (path f) e
                    \<notin> set (drop (length log)
                              (snd (fst (fixModkits build carcolArray prefix (fs, log))))))"
  proof (intro ballI impI allI notI)
    fix f x assume f: "f \<in> set carcolArray" and qd: "quiet_document (contents f)"
      and "ErrorProcessingFile (path f) x
             \<in> set (drop (length log) (snd (fst (fixModkits build carcolArray prefix (fs, log)))))"
    then have "ErrorProcessingFile (path f) x \<in> set (concat (map (fix_events prefix) carcolArray))"
      unfolding e by simp
    then obtain g where g: "g \<in> set carcolArray"
      and ev: "ErrorProcessingFile (path f) x \<in> set (fix_events prefix g)"
      by auto
    from fix_events_path[OF ev] have "path g = path f" by auto
    with g f assms(3) have "g = f"
      by (meson distinct_map inj_onD)
    moreover from qd have "fix_events prefix f = []"
      by (simp add: fix_events_def quiet_document_passes)
    ultimately show False using ev by simp
  qed
  from a b c u d w l q show ?thesis by (intro conjI)
qed

theorem structural_mismatch_policy_witness:
  "field_missing vehicle_items (vehicle_item_lacks (autoIncrementSpawnCodes oldcar_entries))
     (contents (txdless_vehicles_file ''OldCar''))
   \<and> field_missing variation_items variation_item_lacks (contents nameless_variations_file)
   \<and> id_attributes_missing (contents partly_broken_file)
   \<and> quiet_document (contents kitless_carcols_file)
   \<and> snd (main example_build UpdateOnlyMetaFiles ''3'' oldcar_manifest (Inr mismatch_meta_data)
            (Map.empty, [])) = Some TypeError
   \<and> snd (fst (main example_build UpdateOnlyMetaFiles ''3'' oldcar_manifest (Inr mismatch_meta_data)
                 (Map.empty, []))) = []
   \<and> fst (fst (main example_build UpdateOnlyMetaFiles ''3'' oldcar_manifest (Inr mismatch_meta_data)
                 (Map.empty, []))) ''build/meta/vehicles.meta'' = None
   \<and> (\<exists>e. snd (updateMetaFiles example_build [] [nameless_variations_file]
                  (autoIncrementSpawnCodes oldcar_entries) oldcar_data oldcar_entries (Map.empty, []))
              = Some e)
   \<and> snd (fixModkits example_build (carcols mismatch_meta_data) ''3'' (Map.empty, [])) = None
   \<and> ErrorProcessingFile ''build/meta/a/carcols.meta'' TypeError
       \<in> set (snd (fst (fixModkits example_build (carcols mismatch_meta_data) ''3'' (Map.empty, []))))
   \<and> (\<forall>e. ErrorProcessingFile ''build/meta/d/carcols.meta'' e
            \<notin> set (snd (fst (fixModkits example_build (carcols mismatch_meta_data) ''3''
                                (Map.empty, [])))))
   \<and> fst (fst (fixModkits example_build (carcols mismatch_meta_data) ''3'' (Map.empty, [])))
         ''build/meta/b/carcols.meta''
       = Some ''<CVehicleModelInfoVarGlobal><Kits><Item><kitName>livery</kitName><id value=342></id></Item></Kits></CVehicleModelInfoVarGlobal>''"
proof -
  have a: "field_missing vehicle_items (vehicle_item_lacks (autoIncrementSpawnCodes oldcar_entries))
     (contents (txdless_vehicles_file ''OldCar''))" by code_simp
  have a': "field_missing variation_items variation_item_lacks (contents nameless_variations_file)"
    by code_simp
  have mv: "manifest_vehicles oldcar_manifest = oldcar_entries"
    and md: "manifest_data oldcar_manifest = oldcar_data"
    by (simp_all add: oldcar_manifest_def)
  from a have h1: "(\<exists>f \<in> set (vehicles mismatch_meta_data).
              field_missing vehicle_items
                (vehicle_item_lacks (autoIncrementSpawnCodes (manifest_vehicles oldcar_manifest))) (contents f))
         \<or> (\<exists>f \<in> set (carvariations mismatch_meta_data).
              field_missing variation_items variation_item_lacks (contents f))"
    by (simp add: mismatch_meta_data_def mv)
  define other where "other = \<lparr>vehicles = [], carvariations = [nameless_variations_file], carcols = []\<rparr>"
  from a' have h1': "(\<exists>f \<in> set (vehicles other).
              field_missing vehicle_items
                (vehicle_item_lacks (autoIncrementSpawnCodes (manifest_vehicles oldcar_manifest))) (contents f))
         \<or> (\<exists>f \<in> set (carvariations other).
              field_missing variation_items variation_item_lacks (contents f))"
    by (simp add: other_def)
  have h2: "list_all (\<lambda>f. serialised example_build (fixed_document ''3'' f) \<noteq> None)
              (carcols mismatch_meta_data)" by code_simp
  have h3: "distinct (map path (carcols mismatch_meta_data))" by code_simp
  have b: "id_attributes_missing (contents partly_broken_file)" by code_simp
  have q: "quiet_document (contents kitless_carcols_file)" by code_simp
  have members: "partly_broken_file \<in> set (carcols mismatch_meta_data)"
    "kitless_carcols_file \<in> set (carcols mismatch_meta_data)"
    "livery_carcols_file ''42'' \<in> set (carcols mismatch_meta_data)"
    by (simp_all add: mismatch_meta_data_def)
  have paths: "path partly_broken_file = ''build/meta/a/carcols.meta''"
    "path kitless_carcols_file = ''build/meta/d/carcols.meta''"
    "path (livery_carcols_file ''42'') = ''build/meta/b/carcols.meta''"
    by (simp_all add: partly_broken_file_def kitless_carcols_file_def livery_carcols_file_def)
  have s: "serialised example_build (fixed_document ''3'' (livery_carcols_file ''42''))
      = Some ''<CVehicleModelInfoVarGlobal><Kits><Item><kitName>livery</kitName><id value=342></id></Item></Kits></CVehicleModelInfoVarGlobal>''"
    by code_simp
  have u: "snd (updateMetaFiles example_build (vehicles mismatch_meta_data)
                  (carvariations mismatch_meta_data) (autoIncrementSpawnCodes oldcar_entries)
                  oldcar_data oldcar_entries (Map.empty, [])) = Some TypeError"
    by code_simp
  have ul: "snd (fst (updateMetaFiles example_build (vehicles mismatch_meta_data)
                  (carvariations mismatch_meta_data) (autoIncrementSpawnCodes oldcar_entries)
                  oldcar_data oldcar_entries (Map.empty, []))) = []"
    by code_simp
  have uf: "fst (fst (updateMetaFiles example_build (vehicles mismatch_meta_data)
                  (carvariations mismatch_meta_data) (autoIncrementSpawnCodes oldcar_entries)
                  oldcar_data oldcar_entries (Map.empty, []))) ''build/meta/vehicles.meta'' = None"
    by code_simp
  note t = structural_mismatch_policy[OF h1 h2 h3, of "(Map.empty, [])" "''3''" Map.empty "[]"]
  note t' = structural_mismatch_policy[OF h1' h2 h3, of "(Map.empty, [])" "''3''" Map.empty "[]"]
  from t have m: "main example_build UpdateOnlyMetaFiles ''3'' oldcar_manifest (Inr mismatch_meta_data)
                    (Map.empty, [])
      = updateMetaFiles example_build (vehicles mismatch_meta_data)
          (carvariations mismatch_meta_data) (autoIncrementSpawnCodes oldcar_entries)
          oldcar_data oldcar_entries (Map.empty, [])"
    by (simp add: mv md)
  from t' have v: "\<exists>e. snd (updateMetaFiles example_build [] [nameless_variations_file]
                  (autoIncrementSpawnCodes oldcar_entries) oldcar_data oldcar_entries (Map.empty, []))
              = Some e"
    by (simp add: other_def mv md)
  from t have r: "snd (fixModkits example_build (carcols mismatch_meta_data) ''3'' (Map.empty, [])) = None"
    by blast
  from t members(1) b paths(1) have l: "ErrorProcessingFile ''build/meta/a/carcols.meta'' TypeError
       \<in> set (snd (fst (fixModkits example_build (carcols mismatch_meta_data) ''3'' (Map.empty, []))))"
    by metis
  from t members(2) q paths(2) have n: "\<forall>e. ErrorProcessingFile ''build/meta/d/carcols.meta'' e
            \<notin> set (snd (fst (fixModkits example_build (carcols mismatch_meta_data) ''3''
                                (Map.empty, []))))"
    by (metis drop0 list.size(3))
  from t members(3) paths(3) s have w: "fst (fst (fixModkits example_build (carcols mismatch_meta_data) ''3'' (Map.empty, [])))
         ''build/meta/b/carcols.meta''
       = Some ''<CVehicleModelInfoVarGlobal><Kits><Item><kitName>livery</kitName><id value=342></id></Item></Kits></CVehicleModelInfoVarGlobal>''"
    by metis
  from a a' b q u ul uf v r l n w show ?thesis
    unfolding m by (intro conjI)
qed

text \<open>
  Claim C6 as stated (an absent nested field is fatal in the Metadata Rewriter, and caught
  and logged in the modification-kit fixup) fails on the absent fields the script never
  touches, asks for with \<^verbatim>\<open>?.\<close> or tests against \<^verbatim>\<open>null\<close>. An unmatched vehicle init-data
  item without \<^verbatim>\<open>txdName\<close> is written back as it is and the run goes on. A
  modification-kit document without \<^verbatim>\<open>Kits\<close>, and one whose \<^verbatim>\<open>id\<close> has no \<^verbatim>\<open>value\<close>
  attribute (the value becomes \<^verbatim>\<open>3undefined\<close>), are written with nothing logged.
\<close>

theorem absent_fields_pass_unnoticed:
  "field_absent (vehicle_item_without_txd ''other'') ''txdName''
   \<and> snd (updateMetaFiles example_build [txdless_vehicles_file ''other''] [] oldcar_codes
            oldcar_data oldcar_entries (Map.empty, [])) = None
   \<and> fst (fst (updateMetaFiles example_build [txdless_vehicles_file ''other''] [] oldcar_codes
                 oldcar_data oldcar_entries (Map.empty, []))) ''build/meta/vehicles.meta''
       = Some ''<CVehicleModelInfo__InitDataList><InitDatas><Item><modelName>other</modelName><handlingId>ADDER</handlingId><gameName>other</gameName><audioNameHash>ADDER</audioNameHash></Item></InitDatas></CVehicleModelInfo__InitDataList>''
   \<and> kits_of (contents kitless_carcols_file) = []
   \<and> kit_ids (contents valueless_carcols_file) = [[None]]
   \<and> snd (fixModkits example_build [kitless_carcols_file, valueless_carcols_file] ''3'' (Map.empty, []))
       = None
   \<and> snd (fst (fixModkits example_build [kitless_carcols_file, valueless_carcols_file] ''3''
                  (Map.empty, []))) = []
   \<and> fst (fst (fixModkits example_build [kitless_carcols_file, valueless_carcols_file] ''3''
                  (Map.empty, []))) ''build/meta/d/carcols.meta''
       = Some ''<CVehicleModelInfoVarGlobal><Sirens>none</Sirens></CVehicleModelInfoVarGlobal>''
   \<and> fst (fst (fixModkits example_build [kitless_carcols_file, valueless_carcols_file] ''3''
                  (Map.empty, []))) ''build/meta/e/carcols.meta''
       = Some ''<CVehicleModelInfoVarGlobal><Kits><Item><kitName>k</kitName><id note=x value=3undefined></id></Item></Kits></CVehicleModelInfoVarGlobal>''"
  by code_simp

end
